theory Spec2Isabelle
  imports Main "HOL-Library.Word"
begin

unbundle bit_operations_syntax

section \<open>Shared types\<close>

type_synonym u8 = "8 word"
type_synonym u16 = "16 word"

text \<open>The alerts the two source files raise.\<close>

datatype Alert =
    UNEXPECTED_MESSAGE
  | PROTOCOL_VERSION
  | DECODE_ERROR
  | RECORD_OVERFLOW
  | ILLEGAL_PARAMETER
  | UNSUPPORTED_EXTENSION
  | DECRYPT_ERROR
  | BAD_RECORD_MAC

text \<open>
  Every way a call can end without returning. \<open>TLS_Exception\<close> carries the alert;
  \<open>Internal_Error\<close> is a failed \<open>BOTAN_ASSERT\<close>, \<open>Invalid_State\<close> a failed
  \<open>BOTAN_STATE_CHECK\<close>. \<open>Undefined_Behaviour\<close> stands where the C++ reads out of
  range or dereferences a null pointer: the model makes that a value instead of hiding it.
  An exception ends the call: a function returns it in place of its result. What the
  object holds after a throw is given by a function of its own where a property depends
  on it (\<open>prepare_records_object\<close>).
\<close>

datatype error =
    TLS_Exception Alert
  | Invalid_Argument
  | Internal_Error
  | Invalid_State
  | Not_Implemented
  | Undefined_Behaviour

datatype Connection_Side = CLIENT | SERVER

datatype Record_Type = CHANGE_CIPHER_SPEC | ALERT | HANDSHAKE | APPLICATION_DATA

text \<open>The wire octet of a record type (\<open>static_cast<uint8_t>(type)\<close>).\<close>

fun record_type_code :: "Record_Type \<Rightarrow> u8" where
  "record_type_code CHANGE_CIPHER_SPEC = 20"
| "record_type_code ALERT = 21"
| "record_type_code HANDSHAKE = 22"
| "record_type_code APPLICATION_DATA = 23"

abbreviation TLS_HEADER_SIZE :: nat where "TLS_HEADER_SIZE \<equiv> 5"
abbreviation MAX_PLAINTEXT_SIZE :: nat where "MAX_PLAINTEXT_SIZE \<equiv> 16384"
abbreviation MAX_CIPHERTEXT_SIZE_TLS13 :: nat where "MAX_CIPHERTEXT_SIZE_TLS13 \<equiv> 16640"

text \<open>\<open>make_uint16(hi, lo)\<close> and \<open>get_byte<0>\<close>, \<open>get_byte<1>\<close> of a 16-bit value.\<close>

definition make_uint16 :: "u8 \<Rightarrow> u8 \<Rightarrow> u16" where
  "make_uint16 i0 i1 = (push_bit 8 (ucast i0)) OR (ucast i1)"

definition get_byte_0 :: "u16 \<Rightarrow> u8" where
  "get_byte_0 x = ucast (drop_bit 8 x)"

definition get_byte_1 :: "u16 \<Rightarrow> u8" where
  "get_byte_1 x = ucast x"

section \<open>The cipher state, as the record layer sees it\<close>

text \<open>
  The cipher state is an opaque collaborator. Its state is a type parameter \<open>'cs\<close> and
  its operations are a record of functions, so that every theorem below holds for any
  implementation of the interface. \<open>encrypt_record_fragment\<close> and
  \<open>decrypt_record_fragment\<close> work in place in the source; here they return the new
  fragment and the new state, and \<open>decrypt_record_fragment\<close> the sequence number or
  the exception it raises.
\<close>

record 'cs Cipher_State_ops =
  encrypt_output_length :: "'cs \<Rightarrow> nat \<Rightarrow> nat"
  encrypt_record_fragment :: "'cs \<Rightarrow> u8 list \<Rightarrow> u8 list \<Rightarrow> u8 list \<times> 'cs"
  decrypt_record_fragment :: "'cs \<Rightarrow> u8 list \<Rightarrow> u8 list \<Rightarrow> error + (nat \<times> u8 list \<times> 'cs)"

section \<open>Record layer (tls\_record\_layer\_13.cpp)\<close>

definition verify_change_cipher_spec :: "u8 list \<Rightarrow> nat \<Rightarrow> bool" where
  "verify_change_cipher_spec data sz = (sz = 1 \<and> data \<noteq> [] \<and> hd data = 1)"

definition read_record_type :: "u8 \<Rightarrow> error + Record_Type" where
  "read_record_type type_byte =
     (if type_byte \<noteq> 23 \<and> type_byte \<noteq> 22 \<and> type_byte \<noteq> 21 \<and> type_byte \<noteq> 20
      then Inl (TLS_Exception UNEXPECTED_MESSAGE)
      else if type_byte = 23 then Inr APPLICATION_DATA
      else if type_byte = 22 then Inr HANDSHAKE
      else if type_byte = 21 then Inr ALERT
      else Inr CHANGE_CIPHER_SPEC)"

record TLSPlaintext_Header =
  hdr_type :: Record_Type
  legacy_version :: u16
  fragment_length :: u16
  serialized :: "u8 list"

text \<open>
  The parsing constructor \<open>TLSPlaintext_Header(hdr, initial_record)\<close>. The source reads
  \<open>hdr[0..4]\<close>; its only caller passes exactly five bytes.
\<close>

definition TLSPlaintext_Header_parse :: "u8 list \<Rightarrow> bool \<Rightarrow> error + TLSPlaintext_Header" where
  "TLSPlaintext_Header_parse hdr initial_record =
     (if length hdr < 5 then Inl Undefined_Behaviour
      else case read_record_type (hdr ! 0) of
        Inl e \<Rightarrow> Inl e
      | Inr ty \<Rightarrow>
          (let version = make_uint16 (hdr ! 1) (hdr ! 2);
               len = make_uint16 (hdr ! 3) (hdr ! 4)
           in if version \<noteq> 0x0303 \<and> \<not> (initial_record \<and> version = 0x0301)
              then Inl (TLS_Exception PROTOCOL_VERSION)
              else if len = 0 \<and> ty \<noteq> APPLICATION_DATA
              then Inl (TLS_Exception DECODE_ERROR)
              else if ty = APPLICATION_DATA
              then (if unat len > MAX_CIPHERTEXT_SIZE_TLS13
                    then Inl (TLS_Exception RECORD_OVERFLOW)
                    else Inr \<lparr>hdr_type = ty, legacy_version = version,
                              fragment_length = len, serialized = hdr\<rparr>)
              else (if unat len > MAX_PLAINTEXT_SIZE
                    then Inl (TLS_Exception RECORD_OVERFLOW)
                    else Inr \<lparr>hdr_type = ty, legacy_version = version,
                              fragment_length = len, serialized = hdr\<rparr>)))"

text \<open>
  The building constructor \<open>TLSPlaintext_Header(record_type, frgmnt_length,
  use_compatibility_version)\<close>; \<open>static_cast<uint16_t>\<close> keeps the low 16 bits.
\<close>

definition TLSPlaintext_Header_build :: "Record_Type \<Rightarrow> nat \<Rightarrow> bool \<Rightarrow> TLSPlaintext_Header" where
  "TLSPlaintext_Header_build record_type frgmnt_length use_compatibility_version =
     (let version = (if use_compatibility_version then 0x0301 else 0x0303) :: u16;
          len = (of_nat frgmnt_length :: u16)
      in \<lparr>hdr_type = record_type, legacy_version = version, fragment_length = len,
          serialized = [record_type_code record_type,
                        get_byte_0 version, get_byte_1 version,
                        get_byte_0 len, get_byte_1 len]\<rparr>)"

record Record_Layer =
  m_side :: Connection_Side
  m_initial_record :: bool
  m_read_buffer :: "u8 list"

definition Record_Layer_new :: "Connection_Side \<Rightarrow> Record_Layer" where
  "Record_Layer_new side = \<lparr>m_side = side, m_initial_record = True, m_read_buffer = []\<rparr>"

definition copy_data :: "u8 list \<Rightarrow> Record_Layer \<Rightarrow> Record_Layer" where
  "copy_data data_from_peer rl = rl\<lparr>m_read_buffer := m_read_buffer rl @ data_from_peer\<rparr>"

subsection \<open>Outbound: prepare\_records\<close>

text \<open>
  One pass through the body of the \<open>do ... while\<close> loop: the header and the fragment of
  one record, appended to \<open>output\<close>. The assertion after
  \<open>encrypt_record_fragment\<close> is the \<open>Internal_Error\<close>.
\<close>

definition emit_record ::
  "'cs Cipher_State_ops \<Rightarrow> Connection_Side \<Rightarrow> Record_Type \<Rightarrow> u8 list \<Rightarrow> nat \<Rightarrow> nat \<Rightarrow>
   'cs option \<Rightarrow> bool \<Rightarrow> u8 list \<Rightarrow> error + (u8 list \<times> 'cs option)" where
  "emit_record ops side ty data pt_offset pt_size cipher_state initial_record output =
     (let ct_size = (case cipher_state of None \<Rightarrow> pt_size
                     | Some cs \<Rightarrow> encrypt_output_length ops cs (pt_size + 1));
          pt_type = (case cipher_state of None \<Rightarrow> ty | Some cs \<Rightarrow> APPLICATION_DATA);
          use_compatibility_version = (side = CLIENT \<and> initial_record);
          record_header = serialized (TLSPlaintext_Header_build pt_type ct_size use_compatibility_version);
          output1 = output @ record_header
      in case cipher_state of
           Some cs \<Rightarrow>
             (let fragment = take pt_size (drop pt_offset data) @ [record_type_code ty];
                  enc = encrypt_record_fragment ops cs record_header fragment
              in if length (fst enc) \<noteq> ct_size then Inl Internal_Error
                 else Inr (output1 @ fst enc, Some (snd enc)))
         | None \<Rightarrow> Inr (output1 @ take pt_size (drop pt_offset data), None))"

function prepare_loop ::
  "'cs Cipher_State_ops \<Rightarrow> Connection_Side \<Rightarrow> Record_Type \<Rightarrow> u8 list \<Rightarrow> nat \<Rightarrow> nat \<Rightarrow>
   'cs option \<Rightarrow> bool \<Rightarrow> u8 list \<Rightarrow> error + (u8 list \<times> 'cs option \<times> bool)" where
  "prepare_loop ops side ty data pt_offset to_process cipher_state initial_record output =
     (case emit_record ops side ty data pt_offset (min to_process MAX_PLAINTEXT_SIZE)
             cipher_state initial_record output of
        Inl e \<Rightarrow> Inl e
      | Inr r \<Rightarrow>
          if to_process - min to_process MAX_PLAINTEXT_SIZE > 0
          then prepare_loop ops side ty data (pt_offset + min to_process MAX_PLAINTEXT_SIZE)
                 (to_process - min to_process MAX_PLAINTEXT_SIZE) (snd r) False (fst r)
          else Inr (fst r, snd r, False))"
  by pat_completeness auto
termination
  by (relation "measure (\<lambda>(ops, side, ty, data, pt_offset, to_process, rest). to_process)") auto

text \<open>The buffer length computed before the loop (lines 159 to 170).\<close>

definition output_length :: "'cs Cipher_State_ops \<Rightarrow> u8 list \<Rightarrow> 'cs option \<Rightarrow> nat" where
  "output_length ops data cipher_state =
     (let records = max ((length data + MAX_PLAINTEXT_SIZE - 1) div MAX_PLAINTEXT_SIZE) 1
      in records * TLS_HEADER_SIZE +
         (case cipher_state of
            Some cs \<Rightarrow>
              encrypt_output_length ops cs (MAX_PLAINTEXT_SIZE + 1) * (records - 1) +
              encrypt_output_length ops cs (length data mod MAX_PLAINTEXT_SIZE + 1)
          | None \<Rightarrow> length data))"

definition prepare_records ::
  "'cs Cipher_State_ops \<Rightarrow> Record_Type \<Rightarrow> u8 list \<Rightarrow> 'cs option \<Rightarrow> Record_Layer \<Rightarrow>
   error + (u8 list \<times> 'cs option \<times> Record_Layer)" where
  "prepare_records ops ty data cipher_state rl =
     (let protect = (cipher_state \<noteq> None) in
      if \<not> (\<not> m_initial_record rl \<or> m_side rl = CLIENT) then Inl Internal_Error
      else if \<not> (protect \<or> ty \<noteq> APPLICATION_DATA) then Inl Internal_Error
      else if \<not> (length data \<noteq> 0 \<or> ty = APPLICATION_DATA) then Inl Internal_Error
      else if ty = CHANGE_CIPHER_SPEC \<and> \<not> verify_change_cipher_spec data (length data)
      then Inl Invalid_Argument
      else if \<not> (length data \<noteq> 0 \<or> protect) then Inl Internal_Error
      else case prepare_loop ops (m_side rl) ty data 0 (length data) cipher_state
                  (m_initial_record rl) [] of
             Inl e \<Rightarrow> Inl e
           | Inr r \<Rightarrow>
               if length (fst r) \<noteq> output_length ops data cipher_state
               then Inl Internal_Error
               else Inr (fst r, fst (snd r), rl\<lparr>m_initial_record := snd (snd r)\<rparr>))"

definition prepare_dummy_ccs_record ::
  "'cs Cipher_State_ops \<Rightarrow> Record_Layer \<Rightarrow> error + (u8 list \<times> 'cs option \<times> Record_Layer)" where
  "prepare_dummy_ccs_record ops rl =
     (if m_initial_record rl then Inl Internal_Error
      else prepare_records ops CHANGE_CIPHER_SPEC [1] None rl)"

subsection \<open>Inbound: next\_record\<close>

record Record =
  rec_type :: Record_Type
  fragment :: "u8 list"
  seq_no :: "nat option"

datatype ReadResult = BytesNeeded nat | GotRecord Record

definition next_record ::
  "'cs Cipher_State_ops \<Rightarrow> 'cs option \<Rightarrow> Record_Layer \<Rightarrow>
   error + (ReadResult \<times> 'cs option \<times> Record_Layer)" where
  "next_record ops cipher_state rl =
     (if \<not> (\<not> m_initial_record rl \<or> m_side rl = SERVER) then Inl Internal_Error
      else if length (m_read_buffer rl) < TLS_HEADER_SIZE
      then Inr (BytesNeeded (TLS_HEADER_SIZE - length (m_read_buffer rl)), cipher_state, rl)
      else case TLSPlaintext_Header_parse (take TLS_HEADER_SIZE (m_read_buffer rl))
                  (m_initial_record rl) of
        Inl e \<Rightarrow> Inl e
      | Inr plaintext_header \<Rightarrow>
          (let flen = unat (fragment_length plaintext_header) in
           if length (m_read_buffer rl) < TLS_HEADER_SIZE + flen
           then Inr (BytesNeeded (TLS_HEADER_SIZE + flen - length (m_read_buffer rl)),
                     cipher_state, rl)
           else
             (let frag = take flen (drop TLS_HEADER_SIZE (m_read_buffer rl));
                  rl1 = rl\<lparr>m_read_buffer := drop (TLS_HEADER_SIZE + flen) (m_read_buffer rl)\<rparr>
              in if hdr_type plaintext_header = CHANGE_CIPHER_SPEC
                    \<and> \<not> verify_change_cipher_spec frag flen
                 then Inl (TLS_Exception UNEXPECTED_MESSAGE)
                 else if hdr_type plaintext_header = APPLICATION_DATA
                 then (case cipher_state of
                         None \<Rightarrow> Inl (TLS_Exception UNEXPECTED_MESSAGE)
                       | Some cs \<Rightarrow>
                           (case decrypt_record_fragment ops cs (serialized plaintext_header) frag of
                              Inl e \<Rightarrow> Inl e
                            | Inr d \<Rightarrow>
                                (let sq = fst d; inner = fst (snd d); cs' = snd (snd d) in
                                 if inner = [] then Inl Undefined_Behaviour
                                 else case read_record_type (last inner) of
                                   Inl e \<Rightarrow> Inl e
                                 | Inr real_type \<Rightarrow>
                                     if real_type = CHANGE_CIPHER_SPEC
                                     then Inl (TLS_Exception UNEXPECTED_MESSAGE)
                                     else Inr (GotRecord \<lparr>rec_type = real_type,
                                                           fragment = butlast inner,
                                                           seq_no = Some sq\<rparr>,
                                               Some cs', rl1\<lparr>m_initial_record := False\<rparr>))))
                 else Inr (GotRecord \<lparr>rec_type = hdr_type plaintext_header, fragment = frag,
                                       seq_no = None\<rparr>,
                           cipher_state, rl1\<lparr>m_initial_record := False\<rparr>))))"

subsection \<open>Wire format helpers and a concrete cipher for evaluation\<close>

text \<open>
  The five header bytes of a record on the wire: type, legacy version and fragment
  length, big-endian. Every header with a valid type octet has this form.
\<close>

definition wire_header :: "Record_Type \<Rightarrow> u16 \<Rightarrow> u16 \<Rightarrow> u8 list" where
  "wire_header ty version len =
     [record_type_code ty, get_byte_0 version, get_byte_1 version,
      get_byte_0 len, get_byte_1 len]"

text \<open>
  A stand-in for an AEAD, used only to evaluate the record layer on concrete inputs.
  The state is the sequence number; encryption appends a 16-byte tag made of the
  sequence number, decryption checks and removes it.
\<close>

definition tagging_cipher :: "nat Cipher_State_ops" where
  "tagging_cipher =
     \<lparr>encrypt_output_length = (\<lambda>cs n. n + 16),
      encrypt_record_fragment = (\<lambda>cs hdr frag. (frag @ replicate 16 (of_nat cs), Suc cs)),
      decrypt_record_fragment = (\<lambda>cs hdr ct.
         if length ct < 16 \<or> drop (length ct - 16) ct \<noteq> replicate 16 (of_nat cs)
         then Inl (TLS_Exception BAD_RECORD_MAC)
         else Inr (cs, take (length ct - 16) ct, Suc cs))\<rparr>"

subsection \<open>Drivers: sequences of calls\<close>

text \<open>
  The callers of the record layer are not part of the two source files. These drivers
  state what the properties below quantify over. \<open>read_records\<close> calls
  \<open>next_record\<close> until it asks for more bytes and collects the records;
  \<open>prepare_seq\<close> makes a sequence of \<open>prepare_records\<close> and
  \<open>prepare_dummy_ccs_record\<close> calls, each with its own cipher state argument, and
  concatenates the bytes written (an exception ends the sequence);
  \<open>wire_headers\<close> cuts a byte stream into records by the length field of each header
  and returns the headers, \<open>header_version\<close> reads the legacy version of one.
\<close>

function read_records ::
  "'cs Cipher_State_ops \<Rightarrow> 'cs option \<Rightarrow> Record_Layer \<Rightarrow>
   error + (Record list \<times> 'cs option \<times> Record_Layer)" where
  "read_records ops cipher_state rl =
     (case next_record ops cipher_state rl of
        Inl e \<Rightarrow> Inl e
      | Inr r \<Rightarrow>
          (case fst r of
             BytesNeeded n \<Rightarrow> Inr ([], snd r)
           | GotRecord rec \<Rightarrow>
               (case read_records ops (fst (snd r)) (snd (snd r)) of
                  Inl e \<Rightarrow> Inl e
                | Inr rs \<Rightarrow> Inr (rec # fst rs, snd rs))))"
  by pat_completeness auto
termination
proof (relation "measure (\<lambda>(ops, cipher_state, rl). length (m_read_buffer rl))")
  show "wf (measure (\<lambda>(ops :: 'cs Cipher_State_ops, cipher_state :: 'cs option, rl). length (m_read_buffer rl)))"
    by simp
next
  fix ops :: "'cs Cipher_State_ops" and cipher_state :: "'cs option" and rl r rec
  assume a: "next_record ops cipher_state rl = Inr r" and b: "fst r = GotRecord rec"
  from a b have "length (m_read_buffer (snd (snd r))) < length (m_read_buffer rl)"
    by (auto simp: next_record_def Let_def split: if_splits sum.splits option.splits)
  then show "((ops, fst (snd r), snd (snd r)), ops, cipher_state, rl)
       \<in> measure (\<lambda>(ops, cipher_state, rl). length (m_read_buffer rl))"
    by (simp add: case_prod_unfold)
qed

function wire_headers :: "u8 list \<Rightarrow> u8 list list option" where
  "wire_headers buf =
     (if buf = [] then Some []
      else if length buf < 5 \<or> length buf < 5 + unat (make_uint16 (buf ! 3) (buf ! 4)) then None
      else map_option ((#) (take 5 buf))
             (wire_headers (drop (5 + unat (make_uint16 (buf ! 3) (buf ! 4))) buf)))"
  by pat_completeness auto
termination
  by (relation "measure length") auto

datatype 'cs Prepare_Call =
    Prepare_Records Record_Type "u8 list" "'cs option"
  | Prepare_Dummy_CCS

fun prepare_call ::
  "'cs Cipher_State_ops \<Rightarrow> Record_Layer \<Rightarrow> 'cs Prepare_Call \<Rightarrow>
   error + (u8 list \<times> 'cs option \<times> Record_Layer)" where
  "prepare_call ops rl (Prepare_Records ty data cipher_state) =
     prepare_records ops ty data cipher_state rl"
| "prepare_call ops rl Prepare_Dummy_CCS = prepare_dummy_ccs_record ops rl"

fun prepare_seq ::
  "'cs Cipher_State_ops \<Rightarrow> Record_Layer \<Rightarrow> 'cs Prepare_Call list \<Rightarrow>
   error + (u8 list \<times> Record_Layer)" where
  "prepare_seq ops rl [] = Inr ([], rl)"
| "prepare_seq ops rl (call # calls) =
     (case prepare_call ops rl call of
        Inl e \<Rightarrow> Inl e
      | Inr r \<Rightarrow>
          (case prepare_seq ops (snd (snd r)) calls of
             Inl e \<Rightarrow> Inl e
           | Inr rest \<Rightarrow> Inr (fst r @ fst rest, snd rest)))"

text \<open>
  The record layer is an object that outlives a call that throws. \<open>prepare_records\<close>
  clears \<open>m_initial_record\<close> at line 193, in the first pass through the loop and so
  before the assertions of lines 209 and 223; the checks ahead of the loop (lines 136 to
  154 and 179) throw with the object untouched. \<open>prepare_records_object\<close> is the
  object after the call, whether it returns or throws, and
  \<open>prepare_dummy_ccs_record_object\<close> the same for \<open>prepare_dummy_ccs_record\<close>.
  \<open>prepare_seq_emitted\<close> makes a sequence of calls on one object, goes on after a
  call that throws, and concatenates the bytes that the returning calls hand back: a call
  that throws hands back nothing.
\<close>

definition prepare_records_object ::
  "Record_Type \<Rightarrow> u8 list \<Rightarrow> 'cs option \<Rightarrow> Record_Layer \<Rightarrow> Record_Layer" where
  "prepare_records_object ty data cipher_state rl =
     (let protect = (cipher_state \<noteq> None) in
      if \<not> (\<not> m_initial_record rl \<or> m_side rl = CLIENT) then rl
      else if \<not> (protect \<or> ty \<noteq> APPLICATION_DATA) then rl
      else if \<not> (length data \<noteq> 0 \<or> ty = APPLICATION_DATA) then rl
      else if ty = CHANGE_CIPHER_SPEC \<and> \<not> verify_change_cipher_spec data (length data)
      then rl
      else if \<not> (length data \<noteq> 0 \<or> protect) then rl
      else rl\<lparr>m_initial_record := False\<rparr>)"

definition prepare_dummy_ccs_record_object :: "Record_Layer \<Rightarrow> Record_Layer" where
  "prepare_dummy_ccs_record_object rl =
     (if m_initial_record rl then rl
      else prepare_records_object CHANGE_CIPHER_SPEC [1] (None :: unit option) rl)"

fun prepare_call_object :: "Record_Layer \<Rightarrow> 'cs Prepare_Call \<Rightarrow> Record_Layer" where
  "prepare_call_object rl (Prepare_Records ty data cipher_state) =
     prepare_records_object ty data cipher_state rl"
| "prepare_call_object rl Prepare_Dummy_CCS = prepare_dummy_ccs_record_object rl"

fun prepare_seq_emitted ::
  "'cs Cipher_State_ops \<Rightarrow> Record_Layer \<Rightarrow> 'cs Prepare_Call list \<Rightarrow> u8 list" where
  "prepare_seq_emitted ops rl [] = []"
| "prepare_seq_emitted ops rl (first # calls) =
     (case prepare_call ops rl first of Inl e \<Rightarrow> [] | Inr r \<Rightarrow> fst r)
     @ prepare_seq_emitted ops (prepare_call_object rl first) calls"

definition header_version :: "u8 list \<Rightarrow> u16" where
  "header_version hdr = make_uint16 (hdr ! 1) (hdr ! 2)"

declare prepare_loop.simps [simp del]
declare read_records.simps [simp del]
declare wire_headers.simps [simp del]

text \<open>
  A sending and a receiving cipher state match under \<open>R\<close> when every fragment the
  sender encrypts has the announced length, the length function does not change with
  the state and expands by at most 255 bytes (RFC 8446, section 5.2), and the receiver
  decrypts that fragment to the same plaintext, after which the two states match again.
\<close>

definition cipher_pair_ok :: "'cs Cipher_State_ops \<Rightarrow> ('cs \<Rightarrow> 'cs \<Rightarrow> bool) \<Rightarrow> bool" where
  "cipher_pair_ok ops R =
     (\<forall>w r. R w r \<longrightarrow>
        (\<forall>n. encrypt_output_length ops w n \<le> n + 255) \<and>
        (\<forall>hdr frag.
           length (fst (encrypt_record_fragment ops w hdr frag))
             = encrypt_output_length ops w (length frag) \<and>
           encrypt_output_length ops (snd (encrypt_record_fragment ops w hdr frag))
             = encrypt_output_length ops w \<and>
           (\<exists>sq r'. decrypt_record_fragment ops r hdr (fst (encrypt_record_fragment ops w hdr frag))
                       = Inr (sq, frag, r')
                   \<and> R (snd (encrypt_record_fragment ops w hdr frag)) r')))"

text \<open>
  The number of bytes the loop of \<open>prepare_records\<close> writes for \<open>T\<close> bytes of
  plaintext, when a fragment of \<open>p\<close> plaintext bytes takes \<open>ct p\<close> bytes on the wire.
\<close>

function loop_size :: "(nat \<Rightarrow> nat) \<Rightarrow> nat \<Rightarrow> nat" where
  "loop_size ct T = (if T > 16384 then 5 + ct 16384 + loop_size ct (T - 16384) else 5 + ct T)"
  by pat_completeness auto
termination
  by (relation "measure snd") auto

declare loop_size.simps [simp del]

text \<open>
  The legacy versions of \<open>n\<close> records in a row, the first of which is (or is not) the
  first record a client writes.
\<close>

definition versions_from :: "bool \<Rightarrow> nat \<Rightarrow> u16 list" where
  "versions_from first n =
     (case n of 0 \<Rightarrow> [] | Suc m \<Rightarrow> (if first then 0x0301 else 0x0303) # replicate m 0x0303)"

section \<open>Client handshake driver (tls\_client\_impl\_13.cpp)\<close>

subsection \<open>Messages\<close>

abbreviation TLS_V11 :: u16 where "TLS_V11 \<equiv> 0x0302"
abbreviation TLS_V12 :: u16 where "TLS_V12 \<equiv> 0x0303"
abbreviation TLS_V13 :: u16 where "TLS_V13 \<equiv> 0x0304"

datatype Handshake_Type =
    CLIENT_HELLO
  | SERVER_HELLO
  | HELLO_RETRY_REQUEST
  | ENCRYPTED_EXTENSIONS
  | CERTIFICATE
  | CERTIFICATE_REQUEST
  | CERTIFICATE_VERIFY
  | FINISHED

text \<open>
  The extensions the driver looks into, and all others by their type code. The type
  codes are those of RFC 8446, section 4.2.
\<close>

datatype Extension =
    Supported_Versions "u16 list"
  | Key_Share "u8 list"
  | Cookie "u8 list"
  | Unknown_Extension u16 "u8 list"

abbreviation TLSEXT_SUPPORTED_VERSIONS :: u16 where "TLSEXT_SUPPORTED_VERSIONS \<equiv> 43"
abbreviation TLSEXT_COOKIE :: u16 where "TLSEXT_COOKIE \<equiv> 44"
abbreviation TLSEXT_KEY_SHARE :: u16 where "TLSEXT_KEY_SHARE \<equiv> 51"

fun extension_type :: "Extension \<Rightarrow> u16" where
  "extension_type (Supported_Versions vs) = TLSEXT_SUPPORTED_VERSIONS"
| "extension_type (Key_Share ks) = TLSEXT_KEY_SHARE"
| "extension_type (Cookie c) = TLSEXT_COOKIE"
| "extension_type (Unknown_Extension code body) = code"

text \<open>\<open>extensions().extension_types()\<close>, in the order of the list.\<close>

definition extension_types :: "Extension list \<Rightarrow> u16 list" where
  "extension_types exts = map extension_type exts"

fun get_Supported_Versions :: "Extension list \<Rightarrow> u16 list option" where
  "get_Supported_Versions [] = None"
| "get_Supported_Versions (Supported_Versions vs # exts) = Some vs"
| "get_Supported_Versions (e # exts) = get_Supported_Versions exts"

fun get_Key_Share :: "Extension list \<Rightarrow> u8 list option" where
  "get_Key_Share [] = None"
| "get_Key_Share (Key_Share ks # exts) = Some ks"
| "get_Key_Share (e # exts) = get_Key_Share exts"

record Client_Hello_13 =
  ch_session_id :: "u8 list"
  ch_ciphersuites :: "u16 list"
  ch_extensions :: "Extension list"

text \<open>
  A ServerHello as the driver reads it: the same fields serve \<open>Server_Hello_13\<close>,
  \<open>Server_Hello_12\<close> and \<open>Hello_Retry_Request\<close> (a subclass of
  \<open>Server_Hello_13\<close> in the source). \<open>sh_selected_version\<close> is what
  \<open>selected_version()\<close> returns.
\<close>

record Server_Hello =
  sh_session_id :: "u8 list"
  sh_random :: "u8 list"
  sh_ciphersuite :: u16
  sh_selected_version :: u16
  sh_extensions :: "Extension list"

record Certificate_13 =
  cert_chain :: "u8 list list"
  cert_extensions :: "Extension list"

record Certificate_Verify_13 =
  cv_signature :: "u8 list"

record Finished_13 =
  verify_data :: "u8 list"

record Key_Update =
  expects_reciprocation :: bool

datatype Handshake_Message_13 =
    Msg_Client_Hello_13 Client_Hello_13
  | Msg_Server_Hello_13 Server_Hello
  | Msg_Server_Hello_12 Server_Hello
  | Msg_Hello_Retry_Request Server_Hello
  | Msg_Encrypted_Extensions "Extension list"
  | Msg_Certificate_13 Certificate_13
  | Msg_Certificate_Verify_13 Certificate_Verify_13
  | Msg_Finished_13 Finished_13

datatype Post_Handshake_Message_13 =
    Msg_New_Session_Ticket_13
  | Msg_Key_Update Key_Update

fun handshake_type :: "Handshake_Message_13 \<Rightarrow> Handshake_Type" where
  "handshake_type (Msg_Client_Hello_13 m) = CLIENT_HELLO"
| "handshake_type (Msg_Server_Hello_13 m) = SERVER_HELLO"
| "handshake_type (Msg_Server_Hello_12 m) = SERVER_HELLO"
| "handshake_type (Msg_Hello_Retry_Request m) = HELLO_RETRY_REQUEST"
| "handshake_type (Msg_Encrypted_Extensions m) = ENCRYPTED_EXTENSIONS"
| "handshake_type (Msg_Certificate_13 m) = CERTIFICATE"
| "handshake_type (Msg_Certificate_Verify_13 m) = CERTIFICATE_VERIFY"
| "handshake_type (Msg_Finished_13 m) = FINISHED"

text \<open>
  Modelled from the spec: \<open>random_signals_downgrade()\<close> is declared outside the two
  source files. The spec has it compare the last 8 bytes of the server random with the
  TLS 1.2 and TLS 1.1 downgrade sentinels; the sentinels are those of RFC 8446, section
  4.1.3 (\<open>DOWNGRD\<close> followed by \<open>0x01\<close> or \<open>0x00\<close>).
\<close>

definition DOWNGRADE_TLS11 :: "u8 list" where
  "DOWNGRADE_TLS11 = [0x44, 0x4F, 0x57, 0x4E, 0x47, 0x52, 0x44, 0x00]"

definition DOWNGRADE_TLS12 :: "u8 list" where
  "DOWNGRADE_TLS12 = [0x44, 0x4F, 0x57, 0x4E, 0x47, 0x52, 0x44, 0x01]"

definition random_signals_downgrade :: "Server_Hello \<Rightarrow> u16 option" where
  "random_signals_downgrade sh =
     (let last8 = drop (length (sh_random sh) - 8) (sh_random sh)
      in if last8 = DOWNGRADE_TLS11 then Some TLS_V11
         else if last8 = DOWNGRADE_TLS12 then Some TLS_V12
         else None)"

subsection \<open>Transcript hash\<close>

text \<open>
  Modelled from the spec: the transcript hash state is declared outside the two source
  files. The spec has it accumulate every handshake message in wire order, with
  \<open>current\<close> the hash at the end of the last appended message and \<open>previous\<close> the
  hash as it stood before the last appended message. A hash value is represented by the
  sequence of messages it covers, so that two values are equal exactly when they cover
  the same transcript. After a HelloRetryRequest the first ClientHello is replaced by
  the synthetic \<open>message_hash\<close> message.
\<close>

datatype Transcript_Item =
    Hashed Handshake_Message_13
  | Message_Hash Handshake_Message_13

type_synonym Transcript_Hash = "Transcript_Item list"

record Transcript_Hash_State =
  th_algorithm :: "string option"
  th_current :: Transcript_Hash
  th_previous :: Transcript_Hash

definition Transcript_Hash_State_new :: Transcript_Hash_State where
  "Transcript_Hash_State_new = \<lparr>th_algorithm = None, th_current = [], th_previous = []\<rparr>"

definition transcript_update :: "Handshake_Message_13 \<Rightarrow> Transcript_Hash_State \<Rightarrow> Transcript_Hash_State" where
  "transcript_update msg th = th\<lparr>th_previous := th_current th, th_current := th_current th @ [Hashed msg]\<rparr>"

definition transcript_set_algorithm :: "string \<Rightarrow> Transcript_Hash_State \<Rightarrow> Transcript_Hash_State" where
  "transcript_set_algorithm algo th = th\<lparr>th_algorithm := Some algo\<rparr>"

fun message_hash_substitution :: "Transcript_Hash \<Rightarrow> Transcript_Hash" where
  "message_hash_substitution (Hashed ch1 # rest) = Message_Hash ch1 # rest"
| "message_hash_substitution items = items"

definition recreate_after_hello_retry_request ::
  "string \<Rightarrow> Transcript_Hash_State \<Rightarrow> Transcript_Hash_State" where
  "recreate_after_hello_retry_request algo th =
     \<lparr>th_algorithm = Some algo,
      th_current = message_hash_substitution (th_current th),
      th_previous = message_hash_substitution (th_previous th)\<rparr>"

subsection \<open>Collaborators\<close>

record Ciphersuite =
  ciphersuite_code :: u16
  prf_algo :: string

text \<open>
  Everything the driver calls that lives outside the two source files and is not
  modelled above: the key schedule and MAC operations of the cipher state (spec section
  4.2), \<open>Ciphersuite::by_id\<close>, the key exchange of the key share, \<open>Client_Hello::retry\<close>,
  the policy predicates, and the certificate checks (the functions that can throw return
  the exception). They are parameters: the theorems hold for every choice of them.
\<close>

record 'cs Collaborators =
  init_with_server_hello :: "Connection_Side \<Rightarrow> u8 list \<Rightarrow> Ciphersuite \<Rightarrow> Transcript_Hash \<Rightarrow> 'cs"
  advance_with_server_finished :: "Transcript_Hash \<Rightarrow> 'cs \<Rightarrow> 'cs"
  advance_with_client_finished :: "Transcript_Hash \<Rightarrow> 'cs \<Rightarrow> 'cs"
  update_read_keys :: "'cs \<Rightarrow> 'cs"
  update_write_keys :: "'cs \<Rightarrow> 'cs"
  finished_mac :: "'cs \<Rightarrow> Transcript_Hash \<Rightarrow> u8 list"
  verify_peer_finished_mac :: "'cs \<Rightarrow> Transcript_Hash \<Rightarrow> u8 list \<Rightarrow> bool"
  ciphersuite_by_id :: "u16 \<Rightarrow> Ciphersuite option"
  key_share_exchange :: "u8 list \<Rightarrow> u8 list \<Rightarrow> error + u8 list"
  client_hello_retry :: "Client_Hello_13 \<Rightarrow> Server_Hello \<Rightarrow> Client_Hello_13"
  allow_tls12 :: bool
  tls_13_middlebox_compatibility_mode :: bool
  validate_extensions :: "Certificate_13 \<Rightarrow> Extension list \<Rightarrow> error option"
  tls_verify_cert_chain :: "u8 list list \<Rightarrow> error option"
  certificate_verify :: "Certificate_Verify_13 \<Rightarrow> u8 list \<Rightarrow> Transcript_Hash \<Rightarrow> bool"

text \<open>
  The calls the driver makes to the channel, the callbacks and the cipher state, in the
  order it makes them.
\<close>

datatype Call =
    Send_Handshake_Message Handshake_Message_13
  | Send_Post_Handshake_Message Post_Handshake_Message_13
  | Send_Dummy_Change_Cipher_Spec
  | Tls_Examine_Extensions "Extension list" Connection_Side
  | Tls_Verify_Cert_Chain "u8 list list"
  | Tls_Session_Activated
  | Init_With_Server_Hello Transcript_Hash
  | Advance_With_Server_Finished Transcript_Hash
  | Advance_With_Client_Finished Transcript_Hash
  | Update_Read_Keys
  | Update_Write_Keys

subsection \<open>State\<close>

text \<open>
  Modelled from the spec: the handshake state is declared outside the two source files.
  The spec has one optional slot per message and \<open>client_finished\<close> as the record that
  the client Finished was sent; \<open>received\<close> and \<open>sent\<close> fill the slot of the message.
\<close>

record Handshake_State_13 =
  hs_client_hello :: "Client_Hello_13 option"
  hs_hello_retry_request :: "Server_Hello option"
  hs_server_hello :: "Server_Hello option"
  hs_server_hello_12 :: "Server_Hello option"
  hs_encrypted_extensions :: "Extension list option"
  hs_certificate :: "Certificate_13 option"
  hs_certificate_verify :: "Certificate_Verify_13 option"
  hs_server_finished :: "Finished_13 option"
  hs_client_finished :: "Finished_13 option"

definition Handshake_State_13_new :: Handshake_State_13 where
  "Handshake_State_13_new =
     \<lparr>hs_client_hello = None, hs_hello_retry_request = None, hs_server_hello = None,
      hs_server_hello_12 = None, hs_encrypted_extensions = None, hs_certificate = None,
      hs_certificate_verify = None, hs_server_finished = None, hs_client_finished = None\<rparr>"

fun received :: "Handshake_Message_13 \<Rightarrow> Handshake_State_13 \<Rightarrow> Handshake_State_13" where
  "received (Msg_Client_Hello_13 m) hs = hs"
| "received (Msg_Server_Hello_13 m) hs = hs\<lparr>hs_server_hello := Some m\<rparr>"
| "received (Msg_Server_Hello_12 m) hs = hs\<lparr>hs_server_hello_12 := Some m\<rparr>"
| "received (Msg_Hello_Retry_Request m) hs = hs\<lparr>hs_hello_retry_request := Some m\<rparr>"
| "received (Msg_Encrypted_Extensions m) hs = hs\<lparr>hs_encrypted_extensions := Some m\<rparr>"
| "received (Msg_Certificate_13 m) hs = hs\<lparr>hs_certificate := Some m\<rparr>"
| "received (Msg_Certificate_Verify_13 m) hs = hs\<lparr>hs_certificate_verify := Some m\<rparr>"
| "received (Msg_Finished_13 m) hs = hs\<lparr>hs_server_finished := Some m\<rparr>"

definition has_client_hello :: "Handshake_State_13 \<Rightarrow> bool" where
  "has_client_hello hs = (hs_client_hello hs \<noteq> None)"

definition has_hello_retry_request :: "Handshake_State_13 \<Rightarrow> bool" where
  "has_hello_retry_request hs = (hs_hello_retry_request hs \<noteq> None)"

definition has_server_finished :: "Handshake_State_13 \<Rightarrow> bool" where
  "has_server_finished hs = (hs_server_finished hs \<noteq> None)"

definition has_client_finished :: "Handshake_State_13 \<Rightarrow> bool" where
  "has_client_finished hs = (hs_client_finished hs \<noteq> None)"

definition handshake_state_finished :: "Handshake_State_13 \<Rightarrow> bool" where
  "handshake_state_finished hs = (has_server_finished hs \<and> has_client_finished hs)"

record 'cs Client_Impl_13 =
  m_handshake_state :: Handshake_State_13
  m_transitions :: "Handshake_Type list"
  m_transcript_hash :: Transcript_Hash_State
  m_cipher_state :: "'cs option"
  m_expects_downgrade :: bool
  m_calls :: "Call list"

subsection \<open>Sequencing of fallible steps\<close>

definition and_then :: "error + 'a \<Rightarrow> ('a \<Rightarrow> error + 'b) \<Rightarrow> error + 'b" where
  "and_then m f = (case m of Inl e \<Rightarrow> Inl e | Inr x \<Rightarrow> f x)"

definition throw_if :: "bool \<Rightarrow> error \<Rightarrow> error + unit" where
  "throw_if c e = (if c then Inl e else Inr ())"

definition BOTAN_ASSERT_NOMSG :: "bool \<Rightarrow> error + unit" where
  "BOTAN_ASSERT_NOMSG c = (if c then Inr () else Inl Internal_Error)"

definition BOTAN_STATE_CHECK :: "bool \<Rightarrow> error + unit" where
  "BOTAN_STATE_CHECK c = (if c then Inr () else Inl Invalid_State)"

text \<open>Reading an empty slot of the handshake state is a failed state check.\<close>

definition get_slot :: "'a option \<Rightarrow> error + 'a" where
  "get_slot slot = (case slot of None \<Rightarrow> Inl Invalid_State | Some x \<Rightarrow> Inr x)"

text \<open>\<open>m_cipher_state\<close> is a smart pointer; the source dereferences it unchecked.\<close>

definition deref :: "'a option \<Rightarrow> error + 'a" where
  "deref p = (case p of None \<Rightarrow> Inl Undefined_Behaviour | Some x \<Rightarrow> Inr x)"

subsection \<open>Channel operations used by the driver\<close>

text \<open>
  Modelled from the spec: the sending functions belong to the channel, outside the two
  source files. The spec has an outbound handshake message update the transcript hash
  before it goes to the record layer; a dummy change\_cipher\_spec and a post-handshake
  message never enter the transcript. The expected-next set rejects every message
  outside it with \<open>unexpected_message\<close>.
\<close>

definition log_call :: "Call \<Rightarrow> 'cs Client_Impl_13 \<Rightarrow> 'cs Client_Impl_13" where
  "log_call c st = st\<lparr>m_calls := m_calls st @ [c]\<rparr>"

definition send_handshake_message :: "Handshake_Message_13 \<Rightarrow> 'cs Client_Impl_13 \<Rightarrow> 'cs Client_Impl_13" where
  "send_handshake_message msg st =
     log_call (Send_Handshake_Message msg)
       (st\<lparr>m_transcript_hash := transcript_update msg (m_transcript_hash st)\<rparr>)"

definition send_post_handshake_message ::
  "Post_Handshake_Message_13 \<Rightarrow> 'cs Client_Impl_13 \<Rightarrow> 'cs Client_Impl_13" where
  "send_post_handshake_message msg st = log_call (Send_Post_Handshake_Message msg) st"

definition send_dummy_change_cipher_spec :: "'cs Client_Impl_13 \<Rightarrow> 'cs Client_Impl_13" where
  "send_dummy_change_cipher_spec st = log_call Send_Dummy_Change_Cipher_Spec st"

definition set_expected_next :: "Handshake_Type list \<Rightarrow> 'cs Client_Impl_13 \<Rightarrow> 'cs Client_Impl_13" where
  "set_expected_next expected st = st\<lparr>m_transitions := expected\<rparr>"

definition confirm_transition_to :: "Handshake_Type \<Rightarrow> 'cs Client_Impl_13 \<Rightarrow> error + unit" where
  "confirm_transition_to ty st =
     throw_if (ty \<notin> set (m_transitions st)) (TLS_Exception UNEXPECTED_MESSAGE)"

definition handshake_finished :: "'cs Client_Impl_13 \<Rightarrow> bool" where
  "handshake_finished st = handshake_state_finished (m_handshake_state st)"

subsection \<open>The driver\<close>

definition Client_Impl_13_new ::
  "'cs Collaborators \<Rightarrow> u16 \<Rightarrow> Client_Hello_13 \<Rightarrow> error + 'cs Client_Impl_13" where
  "Client_Impl_13_new env offer_version client_hello =
     and_then (BOTAN_ASSERT_NOMSG (offer_version = TLS_V13)) (\<lambda>_.
       Inr (set_expected_next [SERVER_HELLO, HELLO_RETRY_REQUEST]
             (send_handshake_message (Msg_Client_Hello_13 client_hello)
               \<lparr>m_handshake_state = Handshake_State_13_new\<lparr>hs_client_hello := Some client_hello\<rparr>,
                m_transitions = [],
                m_transcript_hash = Transcript_Hash_State_new,
                m_cipher_state = None,
                m_expects_downgrade = allow_tls12 env,
                m_calls = []\<rparr>)))"

definition process_dummy_change_cipher_spec :: "'cs Client_Impl_13 \<Rightarrow> error + 'cs Client_Impl_13" where
  "process_dummy_change_cipher_spec st =
     (if \<not> has_client_hello (m_handshake_state st) \<or> has_server_finished (m_handshake_state st)
      then Inl (TLS_Exception UNEXPECTED_MESSAGE)
      else Inr st)"

text \<open>
  The loop over \<open>sh.extensions().extension_types()\<close>. The source iterates a set; every
  offending type raises the same exception, so the order does not show.
\<close>

fun check_extensions_offered :: "u16 list \<Rightarrow> u16 list \<Rightarrow> error + unit" where
  "check_extensions_offered [] offered = Inr ()"
| "check_extensions_offered (ext_type # rest) offered =
     (if ext_type \<noteq> TLSEXT_COOKIE \<and> count_list offered ext_type = 0
      then Inl (TLS_Exception UNSUPPORTED_EXTENSION)
      else check_extensions_offered rest offered)"

definition offered_suite :: "Client_Hello_13 \<Rightarrow> u16 \<Rightarrow> bool" where
  "offered_suite ch suite = (suite \<in> set (ch_ciphersuites ch))"

definition supports :: "u16 list \<Rightarrow> u16 \<Rightarrow> bool" where
  "supports versions v = (v \<in> set versions)"

definition validate_server_hello_ish :: "Client_Hello_13 \<Rightarrow> Server_Hello \<Rightarrow> error + unit" where
  "validate_server_hello_ish ch sh =
     and_then (throw_if (ch_session_id ch \<noteq> sh_session_id sh) (TLS_Exception ILLEGAL_PARAMETER)) (\<lambda>_.
     and_then (throw_if (\<not> offered_suite ch (sh_ciphersuite sh)) (TLS_Exception ILLEGAL_PARAMETER)) (\<lambda>_.
     case get_Supported_Versions (ch_extensions ch) of
       None \<Rightarrow> Inl Internal_Error
     | Some versions \<Rightarrow>
         and_then (throw_if (\<not> supports versions (sh_selected_version sh))
                     (TLS_Exception ILLEGAL_PARAMETER)) (\<lambda>_.
         check_extensions_offered (extension_types (sh_extensions sh))
           (extension_types (ch_extensions ch)))))"

definition handle_Server_Hello_12 ::
  "'cs Collaborators \<Rightarrow> Server_Hello \<Rightarrow> 'cs Client_Impl_13 \<Rightarrow> error + 'cs Client_Impl_13" where
  "handle_Server_Hello_12 env server_hello_msg st =
     and_then (throw_if (has_hello_retry_request (m_handshake_state st))
                 (TLS_Exception UNEXPECTED_MESSAGE)) (\<lambda>_.
     and_then (throw_if (random_signals_downgrade server_hello_msg \<noteq> None)
                 (TLS_Exception ILLEGAL_PARAMETER)) (\<lambda>_.
     and_then (throw_if (get_Supported_Versions (sh_extensions server_hello_msg) \<noteq> None)
                 (TLS_Exception ILLEGAL_PARAMETER)) (\<lambda>_.
     and_then (get_slot (hs_client_hello (m_handshake_state st))) (\<lambda>ch.
     case get_Supported_Versions (ch_extensions ch) of
       None \<Rightarrow> Inl Internal_Error
     | Some versions \<Rightarrow>
         and_then (throw_if (\<not> supports versions (sh_selected_version server_hello_msg))
                     (TLS_Exception ILLEGAL_PARAMETER)) (\<lambda>_.
         and_then (BOTAN_ASSERT_NOMSG (m_expects_downgrade st)) (\<lambda>_.
         Inr (set_expected_next [] st)))))))"

definition handle_Server_Hello_13 ::
  "'cs Collaborators \<Rightarrow> Server_Hello \<Rightarrow> 'cs Client_Impl_13 \<Rightarrow> error + 'cs Client_Impl_13" where
  "handle_Server_Hello_13 env sh st =
     and_then (get_slot (hs_client_hello (m_handshake_state st))) (\<lambda>ch.
     and_then (case random_signals_downgrade sh of
                 Some requested \<Rightarrow>
                   if requested = TLS_V11 then Inl (TLS_Exception PROTOCOL_VERSION)
                   else if requested = TLS_V12 then Inl Not_Implemented
                   else Inr ()
               | None \<Rightarrow> Inr ()) (\<lambda>_.
     and_then (validate_server_hello_ish ch sh) (\<lambda>_.
     and_then (if has_hello_retry_request (m_handshake_state st)
               then and_then (get_slot (hs_hello_retry_request (m_handshake_state st))) (\<lambda>hrr.
                    and_then (throw_if (sh_ciphersuite hrr \<noteq> sh_ciphersuite sh)
                                (TLS_Exception ILLEGAL_PARAMETER)) (\<lambda>_.
                    throw_if (sh_selected_version hrr \<noteq> sh_selected_version sh)
                      (TLS_Exception ILLEGAL_PARAMETER)))
               else Inr ()) (\<lambda>_.
     case ciphersuite_by_id env (sh_ciphersuite sh) of
       None \<Rightarrow> Inl Internal_Error
     | Some cipher \<Rightarrow>
         (case get_Key_Share (sh_extensions sh) of
            None \<Rightarrow> Inl Not_Implemented
          | Some server_keyshare \<Rightarrow>
              (case get_Key_Share (ch_extensions ch) of
                 None \<Rightarrow> Inl Internal_Error
               | Some my_keyshare \<Rightarrow>
                   and_then (key_share_exchange env my_keyshare server_keyshare) (\<lambda>shared_secret.
                   and_then (get_slot (hs_server_hello (m_handshake_state st))) (\<lambda>stored_sh.
                   (let th = transcript_set_algorithm (prf_algo cipher) (m_transcript_hash st);
                        cs = init_with_server_hello env CLIENT shared_secret cipher (th_current th)
                    in Inr (set_expected_next [ENCRYPTED_EXTENSIONS]
                             (log_call (Tls_Examine_Extensions (sh_extensions stored_sh) SERVER)
                               (log_call (Init_With_Server_Hello (th_current th))
                                 (st\<lparr>m_transcript_hash := th,
                                     m_cipher_state := Some cs\<rparr>)))))))))))))"

definition handle_Hello_Retry_Request ::
  "'cs Collaborators \<Rightarrow> Server_Hello \<Rightarrow> 'cs Client_Impl_13 \<Rightarrow> error + 'cs Client_Impl_13" where
  "handle_Hello_Retry_Request env hrr st =
     and_then (get_slot (hs_client_hello (m_handshake_state st))) (\<lambda>ch.
     and_then (validate_server_hello_ish ch hrr) (\<lambda>_.
     case ciphersuite_by_id env (sh_ciphersuite hrr) of
       None \<Rightarrow> Inl Internal_Error
     | Some cipher \<Rightarrow>
         (let st1 = st\<lparr>m_transcript_hash :=
                         recreate_after_hello_retry_request (prf_algo cipher) (m_transcript_hash st)\<rparr>;
              ch' = client_hello_retry env ch hrr;
              st2 = st1\<lparr>m_handshake_state := (m_handshake_state st1)\<lparr>hs_client_hello := Some ch'\<rparr>\<rparr>;
              st3 = (if tls_13_middlebox_compatibility_mode env
                     then send_dummy_change_cipher_spec st2 else st2);
              st4 = send_handshake_message (Msg_Client_Hello_13 ch') st3
          in Inr (set_expected_next [SERVER_HELLO] st4))))"

definition handle_Encrypted_Extensions ::
  "'cs Collaborators \<Rightarrow> Extension list \<Rightarrow> 'cs Client_Impl_13 \<Rightarrow> error + 'cs Client_Impl_13" where
  "handle_Encrypted_Extensions env encrypted_extensions_msg st =
     (let st1 = log_call (Tls_Examine_Extensions encrypted_extensions_msg SERVER) st;
          psk_mode = False
      in if psk_mode then Inr (set_expected_next [FINISHED] st1)
         else Inr (set_expected_next [CERTIFICATE, CERTIFICATE_REQUEST] st1))"

definition handle_Certificate_13 ::
  "'cs Collaborators \<Rightarrow> Certificate_13 \<Rightarrow> 'cs Client_Impl_13 \<Rightarrow> error + 'cs Client_Impl_13" where
  "handle_Certificate_13 env certificate_msg st =
     and_then (get_slot (hs_client_hello (m_handshake_state st))) (\<lambda>ch.
     case validate_extensions env certificate_msg (ch_extensions ch) of
       Some e \<Rightarrow> Inl e
     | None \<Rightarrow>
         and_then (throw_if (cert_chain certificate_msg = []) (TLS_Exception DECODE_ERROR)) (\<lambda>_.
         (case tls_verify_cert_chain env (cert_chain certificate_msg) of
            Some e \<Rightarrow> Inl e
          | None \<Rightarrow>
              Inr (set_expected_next [CERTIFICATE_VERIFY]
                    (log_call (Tls_Verify_Cert_Chain (cert_chain certificate_msg)) st)))))"

definition handle_Certificate_Verify_13 ::
  "'cs Collaborators \<Rightarrow> Certificate_Verify_13 \<Rightarrow> 'cs Client_Impl_13 \<Rightarrow> error + 'cs Client_Impl_13" where
  "handle_Certificate_Verify_13 env certificate_verify_msg st =
     and_then (get_slot (hs_certificate (m_handshake_state st))) (\<lambda>certificate.
     case cert_chain certificate of
       [] \<Rightarrow> Inl Undefined_Behaviour
     | front # rest \<Rightarrow>
         and_then (get_slot (hs_client_hello (m_handshake_state st))) (\<lambda>ch.
         and_then (throw_if (\<not> certificate_verify env certificate_verify_msg front
                               (th_previous (m_transcript_hash st)))
                     (TLS_Exception DECRYPT_ERROR)) (\<lambda>_.
         Inr (set_expected_next [FINISHED] st))))"

definition handle_Finished_13 ::
  "'cs Collaborators \<Rightarrow> Finished_13 \<Rightarrow> 'cs Client_Impl_13 \<Rightarrow> error + 'cs Client_Impl_13" where
  "handle_Finished_13 env finished_msg st =
     and_then (deref (m_cipher_state st)) (\<lambda>cs.
     and_then (throw_if (\<not> verify_peer_finished_mac env cs (th_previous (m_transcript_hash st))
                               (verify_data finished_msg))
                 (TLS_Exception DECRYPT_ERROR)) (\<lambda>_.
     (let st1 = (if tls_13_middlebox_compatibility_mode env
                 then send_dummy_change_cipher_spec st else st);
          client_finished = \<lparr>verify_data = finished_mac env cs (th_current (m_transcript_hash st1))\<rparr>;
          st2 = st1\<lparr>m_handshake_state :=
                      (m_handshake_state st1)\<lparr>hs_client_finished := Some client_finished\<rparr>\<rparr>;
          st3 = send_handshake_message (Msg_Finished_13 client_finished) st2;
          cs1 = advance_with_server_finished env (th_previous (m_transcript_hash st3)) cs;
          st4 = log_call (Advance_With_Server_Finished (th_previous (m_transcript_hash st3)))
                  (st3\<lparr>m_cipher_state := Some cs1\<rparr>);
          cs2 = advance_with_client_finished env (th_current (m_transcript_hash st4)) cs1;
          st5 = log_call (Advance_With_Client_Finished (th_current (m_transcript_hash st4)))
                  (st4\<lparr>m_cipher_state := Some cs2\<rparr>);
          st6 = set_expected_next [] st5
      in Inr (log_call Tls_Session_Activated st6))))"

definition handle_New_Session_Ticket_13 :: "'cs Client_Impl_13 \<Rightarrow> error + 'cs Client_Impl_13" where
  "handle_New_Session_Ticket_13 st = Inr st"

definition handle_Key_Update ::
  "'cs Collaborators \<Rightarrow> Key_Update \<Rightarrow> 'cs Client_Impl_13 \<Rightarrow> error + 'cs Client_Impl_13" where
  "handle_Key_Update env key_update st =
     and_then (deref (m_cipher_state st)) (\<lambda>cs.
     (let cs1 = update_read_keys env cs;
          st1 = log_call Update_Read_Keys (st\<lparr>m_cipher_state := Some cs1\<rparr>)
      in if expects_reciprocation key_update
         then (let st2 = send_post_handshake_message
                           (Msg_Key_Update \<lparr>expects_reciprocation = False\<rparr>) st1;
                   cs2 = update_write_keys env cs1
               in Inr (log_call Update_Write_Keys (st2\<lparr>m_cipher_state := Some cs2\<rparr>)))
         else Inr st1))"

text \<open>
  \<open>process_handshake_msg\<close>: the message is stored, the transition is confirmed and the
  handler of the message type runs. The client has no handler for a ClientHello.
\<close>

definition process_handshake_msg ::
  "'cs Collaborators \<Rightarrow> Handshake_Message_13 \<Rightarrow> 'cs Client_Impl_13 \<Rightarrow> error + 'cs Client_Impl_13" where
  "process_handshake_msg env message st =
     (let st1 = st\<lparr>m_handshake_state := received message (m_handshake_state st)\<rparr> in
      and_then (confirm_transition_to (handshake_type message) st1) (\<lambda>_.
      case message of
        Msg_Client_Hello_13 m \<Rightarrow> Inl (TLS_Exception UNEXPECTED_MESSAGE)
      | Msg_Server_Hello_13 m \<Rightarrow> handle_Server_Hello_13 env m st1
      | Msg_Server_Hello_12 m \<Rightarrow> handle_Server_Hello_12 env m st1
      | Msg_Hello_Retry_Request m \<Rightarrow> handle_Hello_Retry_Request env m st1
      | Msg_Encrypted_Extensions m \<Rightarrow> handle_Encrypted_Extensions env m st1
      | Msg_Certificate_13 m \<Rightarrow> handle_Certificate_13 env m st1
      | Msg_Certificate_Verify_13 m \<Rightarrow> handle_Certificate_Verify_13 env m st1
      | Msg_Finished_13 m \<Rightarrow> handle_Finished_13 env m st1))"

definition process_post_handshake_msg ::
  "'cs Collaborators \<Rightarrow> Post_Handshake_Message_13 \<Rightarrow> 'cs Client_Impl_13 \<Rightarrow>
   error + 'cs Client_Impl_13" where
  "process_post_handshake_msg env message st =
     and_then (BOTAN_STATE_CHECK (handshake_finished st)) (\<lambda>_.
     case message of
       Msg_New_Session_Ticket_13 \<Rightarrow> handle_New_Session_Ticket_13 st
     | Msg_Key_Update m \<Rightarrow> handle_Key_Update env m st)"

text \<open>
  Modelled from the spec: the channel that feeds the driver is outside the two source
  files. The spec has every inbound handshake message enter the transcript hash in wire
  order before the driver processes it.
\<close>

definition receive_handshake_message ::
  "'cs Collaborators \<Rightarrow> Handshake_Message_13 \<Rightarrow> 'cs Client_Impl_13 \<Rightarrow> error + 'cs Client_Impl_13" where
  "receive_handshake_message env message st =
     process_handshake_msg env message
       (st\<lparr>m_transcript_hash := transcript_update message (m_transcript_hash st)\<rparr>)"

subsection \<open>Runs of the driver\<close>

text \<open>
  What the channel hands to the driver, one event at a time: a handshake message, a
  post-handshake message or a dummy change\_cipher\_spec record. A run stops at the first
  exception.
\<close>

datatype Inbound =
    In_Handshake Handshake_Message_13
  | In_Post_Handshake Post_Handshake_Message_13
  | In_Dummy_Change_Cipher_Spec

fun step :: "'cs Collaborators \<Rightarrow> Inbound \<Rightarrow> 'cs Client_Impl_13 \<Rightarrow> error + 'cs Client_Impl_13" where
  "step env (In_Handshake message) st = receive_handshake_message env message st"
| "step env (In_Post_Handshake message) st = process_post_handshake_msg env message st"
| "step env In_Dummy_Change_Cipher_Spec st = process_dummy_change_cipher_spec st"

fun run :: "'cs Collaborators \<Rightarrow> 'cs Client_Impl_13 \<Rightarrow> Inbound list \<Rightarrow> error + 'cs Client_Impl_13" where
  "run env st [] = Inr st"
| "run env st (ev # evs) =
     (case step env ev st of Inl e \<Rightarrow> Inl e | Inr st' \<Rightarrow> run env st' evs)"

text \<open>
  Bookkeeping for the session activation callback: the client Finished slot together
  with the number of \<open>tls_session_activated\<close> calls so far, and the invariant that
  ties the two.
\<close>

definition activation :: "'cs Client_Impl_13 \<Rightarrow> Finished_13 option \<times> nat" where
  "activation st =
     (hs_client_finished (m_handshake_state st), count_list (m_calls st) Tls_Session_Activated)"

definition activated_once :: "'cs Client_Impl_13 \<Rightarrow> bool" where
  "activated_once st =
     (if hs_client_finished (m_handshake_state st) = None
      then count_list (m_calls st) Tls_Session_Activated = 0
      else count_list (m_calls st) Tls_Session_Activated = 1 \<and> m_transitions st = [])"

text \<open>
  Bookkeeping for the dummy change\_cipher\_spec window: whether the ClientHello slot is
  filled, and the server Finished slot. An event is a server Finished when it is a
  handshake message of that type.
\<close>

definition window :: "'cs Client_Impl_13 \<Rightarrow> bool \<times> Finished_13 option" where
  "window st =
     (hs_client_hello (m_handshake_state st) \<noteq> None, hs_server_finished (m_handshake_state st))"

fun is_server_finished :: "Inbound \<Rightarrow> bool" where
  "is_server_finished (In_Handshake (Msg_Finished_13 fin)) = True"
| "is_server_finished ev = False"

subsection \<open>Concrete collaborators for evaluation\<close>

text \<open>
  Stand-ins used only to evaluate the driver on concrete inputs: the cipher state is a
  counter, the MAC is the counter and the length of the transcript.
\<close>

definition stub_collaborators :: "nat Collaborators" where
  "stub_collaborators =
     \<lparr>init_with_server_hello = (\<lambda>side secret cipher th. 1),
      advance_with_server_finished = (\<lambda>th cs. cs + 1),
      advance_with_client_finished = (\<lambda>th cs. cs + 2),
      update_read_keys = (\<lambda>cs. cs + 10),
      update_write_keys = (\<lambda>cs. cs + 100),
      finished_mac = (\<lambda>cs th. [of_nat cs, of_nat (length th)]),
      verify_peer_finished_mac = (\<lambda>cs th mac. mac = [of_nat cs, of_nat (length th)]),
      ciphersuite_by_id = (\<lambda>code. if code = 0x1301
                             then Some \<lparr>ciphersuite_code = 0x1301, prf_algo = ''SHA-256''\<rparr>
                             else None),
      key_share_exchange = (\<lambda>mine theirs. Inr (mine @ theirs)),
      client_hello_retry = (\<lambda>ch hrr. ch),
      allow_tls12 = False,
      tls_13_middlebox_compatibility_mode = True,
      validate_extensions = (\<lambda>cert exts. None),
      tls_verify_cert_chain = (\<lambda>chain. None),
      certificate_verify = (\<lambda>cv cert th. True)\<rparr>"

definition example_client_hello :: Client_Hello_13 where
  "example_client_hello =
     \<lparr>ch_session_id = [7, 7],
      ch_ciphersuites = [0x1301],
      ch_extensions = [Supported_Versions [TLS_V13], Key_Share [1, 2]]\<rparr>"

definition example_server_hello :: Server_Hello where
  "example_server_hello =
     \<lparr>sh_session_id = [7, 7],
      sh_random = replicate 32 0,
      sh_ciphersuite = 0x1301,
      sh_selected_version = TLS_V13,
      sh_extensions = [Supported_Versions [TLS_V13], Key_Share [3, 4]]\<rparr>"

text \<open>The client right after its constructor has sent the ClientHello.\<close>

definition example_client :: "nat Client_Impl_13" where
  "example_client =
     \<lparr>m_handshake_state = Handshake_State_13_new\<lparr>hs_client_hello := Some example_client_hello\<rparr>,
      m_transitions = [SERVER_HELLO, HELLO_RETRY_REQUEST],
      m_transcript_hash =
        \<lparr>th_algorithm = None,
         th_current = [Hashed (Msg_Client_Hello_13 example_client_hello)],
         th_previous = []\<rparr>,
      m_cipher_state = None,
      m_expects_downgrade = False,
      m_calls = [Send_Handshake_Message (Msg_Client_Hello_13 example_client_hello)]\<rparr>"

text \<open>A complete handshake and a KeyUpdate, as the events the channel hands over.\<close>

definition full_handshake :: "Inbound list" where
  "full_handshake =
     [In_Handshake (Msg_Server_Hello_13 example_server_hello),
      In_Dummy_Change_Cipher_Spec,
      In_Handshake (Msg_Encrypted_Extensions []),
      In_Handshake (Msg_Certificate_13 \<lparr>cert_chain = [[1, 2, 3]], cert_extensions = []\<rparr>),
      In_Handshake (Msg_Certificate_Verify_13 \<lparr>cv_signature = [4]\<rparr>),
      In_Handshake (Msg_Finished_13 \<lparr>verify_data = [1, 5]\<rparr>),
      In_Post_Handshake (Msg_Key_Update \<lparr>expects_reciprocation = True\<rparr>)]"

section \<open>Properties of the record layer\<close>

subsection \<open>Header bytes\<close>

lemma make_uint16_get_byte: "make_uint16 (get_byte_0 x) (get_byte_1 x) = x"
  unfolding make_uint16_def get_byte_0_def get_byte_1_def
  by (rule bit_word_eqI) (auto simp: bit_simps)

lemma read_record_type_code: "read_record_type (record_type_code t) = Inr t"
  by (cases t) (simp_all add: read_record_type_def)

lemma length_wire_header: "length (wire_header ty version len) = 5"
  by (simp add: wire_header_def)

lemma parse_wire_header:
  "TLSPlaintext_Header_parse (wire_header ty version len) initial_record =
     (if version \<noteq> 0x0303 \<and> \<not> (initial_record \<and> version = 0x0301)
      then Inl (TLS_Exception PROTOCOL_VERSION)
      else if len = 0 \<and> ty \<noteq> APPLICATION_DATA then Inl (TLS_Exception DECODE_ERROR)
      else if unat len > (if ty = APPLICATION_DATA then 16640 else 16384)
      then Inl (TLS_Exception RECORD_OVERFLOW)
      else Inr \<lparr>hdr_type = ty, legacy_version = version, fragment_length = len,
                serialized = wire_header ty version len\<rparr>)"
  by (simp add: TLSPlaintext_Header_parse_def wire_header_def read_record_type_code
      make_uint16_get_byte)

text \<open>
  What \<open>next_record\<close> does on a buffer that starts with a header: the steps after the
  header, with the buffer positions resolved.
\<close>

lemma next_record_wire_header:
  assumes "\<not> m_initial_record rl \<or> m_side rl = SERVER"
    and "m_read_buffer rl = wire_header ty version len @ rest"
  shows "next_record ops cs rl =
    (case TLSPlaintext_Header_parse (wire_header ty version len) (m_initial_record rl) of
       Inl e \<Rightarrow> Inl e
     | Inr plaintext_header \<Rightarrow>
         if length rest < unat len
         then Inr (BytesNeeded (unat len - length rest), cs, rl)
         else if ty = CHANGE_CIPHER_SPEC
                 \<and> \<not> verify_change_cipher_spec (take (unat len) rest) (unat len)
         then Inl (TLS_Exception UNEXPECTED_MESSAGE)
         else if ty = APPLICATION_DATA
         then (case cs of
                 None \<Rightarrow> Inl (TLS_Exception UNEXPECTED_MESSAGE)
               | Some c \<Rightarrow>
                   (case decrypt_record_fragment ops c (wire_header ty version len)
                           (take (unat len) rest) of
                      Inl e \<Rightarrow> Inl e
                    | Inr d \<Rightarrow>
                        if fst (snd d) = [] then Inl Undefined_Behaviour
                        else case read_record_type (last (fst (snd d))) of
                          Inl e \<Rightarrow> Inl e
                        | Inr real_type \<Rightarrow>
                            if real_type = CHANGE_CIPHER_SPEC
                            then Inl (TLS_Exception UNEXPECTED_MESSAGE)
                            else Inr (GotRecord \<lparr>rec_type = real_type,
                                                  fragment = butlast (fst (snd d)),
                                                  seq_no = Some (fst d)\<rparr>,
                                      Some (snd (snd d)),
                                      rl\<lparr>m_read_buffer := drop (unat len) rest,
                                         m_initial_record := False\<rparr>)))
         else Inr (GotRecord \<lparr>rec_type = ty, fragment = take (unat len) rest, seq_no = None\<rparr>,
                   cs, rl\<lparr>m_read_buffer := drop (unat len) rest, m_initial_record := False\<rparr>))"
proof -
  have l: "length (wire_header ty version len) = 5" by (rule length_wire_header)
  have t: "take 5 (m_read_buffer rl) = wire_header ty version len"
    using assms(2) l by simp
  have d: "drop 5 (m_read_buffer rl) = rest" using assms(2) l by simp
  have d2: "\<And>n. drop (5 + n) (m_read_buffer rl) = drop n rest"
    using assms(2) l by simp
  have len: "length (m_read_buffer rl) = 5 + length rest" using assms(2) l by simp
  show ?thesis
    using assms(1)
    unfolding next_record_def t d d2 len
    by (auto simp: parse_wire_header Let_def split: sum.splits option.splits)
qed

subsection \<open>Inbound length limits\<close>

text \<open>
  Claim C5. On a buffer that starts with a header of a valid type and an acceptable
  legacy version, \<open>next_record\<close> fails with \<open>record_overflow\<close> when an
  \<open>application_data\<close> fragment length exceeds \<open>2^14 + 256\<close> or another type's
  exceeds \<open>2^14\<close>, and with \<open>decode_error\<close> on a zero fragment length of a type
  other than \<open>application_data\<close>. A length of exactly \<open>2^14\<close> passes the header
  checks and is not a \<open>record_overflow\<close>; with the fragment buffered, a handshake or
  alert record of that length is returned. A zero-length \<open>application_data\<close> header is
  accepted as well, and the record is returned once decryption yields an inner plaintext.
\<close>

theorem next_record_length_limits:
  assumes pre: "\<not> m_initial_record rl \<or> m_side rl = SERVER"
    and buf: "m_read_buffer rl = wire_header ty version len @ rest"
    and ver: "version = 0x0303 \<or> (m_initial_record rl \<and> version = 0x0301)"
  shows "(ty = APPLICATION_DATA \<and> unat len > 2 ^ 14 + 256 \<longrightarrow>
            next_record ops cs rl = Inl (TLS_Exception RECORD_OVERFLOW))
       \<and> (ty \<noteq> APPLICATION_DATA \<and> unat len > 2 ^ 14 \<longrightarrow>
            next_record ops cs rl = Inl (TLS_Exception RECORD_OVERFLOW))
       \<and> (ty \<noteq> APPLICATION_DATA \<and> unat len = 2 ^ 14 \<longrightarrow>
            TLSPlaintext_Header_parse (take TLS_HEADER_SIZE (m_read_buffer rl)) (m_initial_record rl)
              = Inr \<lparr>hdr_type = ty, legacy_version = version, fragment_length = len,
                     serialized = wire_header ty version len\<rparr>
            \<and> next_record ops cs rl \<noteq> Inl (TLS_Exception RECORD_OVERFLOW)
            \<and> (ty \<noteq> CHANGE_CIPHER_SPEC \<and> 2 ^ 14 \<le> length rest \<longrightarrow>
                 next_record ops cs rl =
                   Inr (GotRecord \<lparr>rec_type = ty, fragment = take (2 ^ 14) rest, seq_no = None\<rparr>,
                        cs, rl\<lparr>m_read_buffer := drop (2 ^ 14) rest, m_initial_record := False\<rparr>)))
       \<and> (ty \<noteq> APPLICATION_DATA \<and> len = 0 \<longrightarrow>
            next_record ops cs rl = Inl (TLS_Exception DECODE_ERROR))
       \<and> (ty = APPLICATION_DATA \<and> len = 0 \<longrightarrow>
            TLSPlaintext_Header_parse (take TLS_HEADER_SIZE (m_read_buffer rl)) (m_initial_record rl)
              = Inr \<lparr>hdr_type = ty, legacy_version = version, fragment_length = len,
                     serialized = wire_header ty version len\<rparr>
            \<and> (\<forall>c sq inner real c'.
                  cs = Some c \<and> real \<noteq> CHANGE_CIPHER_SPEC \<and>
                  decrypt_record_fragment ops c (wire_header ty version len) []
                    = Inr (sq, inner @ [record_type_code real], c') \<longrightarrow>
                  next_record ops cs rl =
                    Inr (GotRecord \<lparr>rec_type = real, fragment = inner, seq_no = Some sq\<rparr>,
                         Some c', rl\<lparr>m_read_buffer := rest, m_initial_record := False\<rparr>)))"
proof -
  have t: "take 5 (m_read_buffer rl) = wire_header ty version len"
    using buf by (simp add: wire_header_def)
  note nr = next_record_wire_header [OF pre buf]
  have a: "ty = APPLICATION_DATA \<and> unat len > 2 ^ 14 + 256 \<longrightarrow>
            next_record ops cs rl = Inl (TLS_Exception RECORD_OVERFLOW)"
    using ver by (auto simp: nr parse_wire_header)
  have b: "ty \<noteq> APPLICATION_DATA \<and> unat len > 2 ^ 14 \<longrightarrow>
            next_record ops cs rl = Inl (TLS_Exception RECORD_OVERFLOW)"
    using ver by (auto simp: nr parse_wire_header)
  have c: "ty \<noteq> APPLICATION_DATA \<and> unat len = 2 ^ 14 \<longrightarrow>
            TLSPlaintext_Header_parse (take TLS_HEADER_SIZE (m_read_buffer rl)) (m_initial_record rl)
              = Inr \<lparr>hdr_type = ty, legacy_version = version, fragment_length = len,
                     serialized = wire_header ty version len\<rparr>
            \<and> next_record ops cs rl \<noteq> Inl (TLS_Exception RECORD_OVERFLOW)
            \<and> (ty \<noteq> CHANGE_CIPHER_SPEC \<and> 2 ^ 14 \<le> length rest \<longrightarrow>
                 next_record ops cs rl =
                   Inr (GotRecord \<lparr>rec_type = ty, fragment = take (2 ^ 14) rest, seq_no = None\<rparr>,
                        cs, rl\<lparr>m_read_buffer := drop (2 ^ 14) rest, m_initial_record := False\<rparr>))"
    using ver unfolding t by (auto simp: nr parse_wire_header)
  have d: "ty \<noteq> APPLICATION_DATA \<and> len = 0 \<longrightarrow>
            next_record ops cs rl = Inl (TLS_Exception DECODE_ERROR)"
    using ver by (auto simp: nr parse_wire_header)
  have e: "ty = APPLICATION_DATA \<and> len = 0 \<longrightarrow>
            TLSPlaintext_Header_parse (take TLS_HEADER_SIZE (m_read_buffer rl)) (m_initial_record rl)
              = Inr \<lparr>hdr_type = ty, legacy_version = version, fragment_length = len,
                     serialized = wire_header ty version len\<rparr>
            \<and> (\<forall>c sq inner real c'.
                  cs = Some c \<and> real \<noteq> CHANGE_CIPHER_SPEC \<and>
                  decrypt_record_fragment ops c (wire_header ty version len) []
                    = Inr (sq, inner @ [record_type_code real], c') \<longrightarrow>
                  next_record ops cs rl =
                    Inr (GotRecord \<lparr>rec_type = real, fragment = inner, seq_no = Some sq\<rparr>,
                         Some c', rl\<lparr>m_read_buffer := rest, m_initial_record := False\<rparr>))"
    using ver unfolding t by (auto simp: nr parse_wire_header read_record_type_code)
  from a b c d e show ?thesis by blast
qed

theorem next_record_length_limits_witness:
  "next_record tagging_cipher None
     \<lparr>m_side = CLIENT, m_initial_record = False, m_read_buffer = [23, 3, 3, 0x41, 0x01]\<rparr>
     = Inl (TLS_Exception RECORD_OVERFLOW)
   \<and> next_record tagging_cipher None
     \<lparr>m_side = CLIENT, m_initial_record = False, m_read_buffer = [22, 3, 3, 0x40, 0x01]\<rparr>
     = Inl (TLS_Exception RECORD_OVERFLOW)
   \<and> next_record tagging_cipher None
     \<lparr>m_side = CLIENT, m_initial_record = False,
       m_read_buffer = [22, 3, 3, 0x40, 0x00] @ replicate 16384 7\<rparr>
     = Inr (GotRecord \<lparr>rec_type = HANDSHAKE, fragment = replicate 16384 7, seq_no = None\<rparr>,
            None, \<lparr>m_side = CLIENT, m_initial_record = False, m_read_buffer = []\<rparr>)
   \<and> next_record tagging_cipher None
     \<lparr>m_side = CLIENT, m_initial_record = False, m_read_buffer = [21, 3, 3, 0, 0]\<rparr>
     = Inl (TLS_Exception DECODE_ERROR)
   \<and> next_record (tagging_cipher\<lparr>decrypt_record_fragment := \<lambda>cs hdr ct. Inr (cs, ct @ [21], cs)\<rparr>)
       (Some 0) \<lparr>m_side = CLIENT, m_initial_record = False, m_read_buffer = [23, 3, 3, 0, 0]\<rparr>
     = Inr (GotRecord \<lparr>rec_type = ALERT, fragment = [], seq_no = Some 0\<rparr>,
            Some 0, \<lparr>m_side = CLIENT, m_initial_record = False, m_read_buffer = []\<rparr>)"
  using
    next_record_length_limits [of "\<lparr>m_side = CLIENT, m_initial_record = False, m_read_buffer = [23, 3, 3, 0x41, 0x01]\<rparr>"
       APPLICATION_DATA "0x0303" "0x4101" "[]" tagging_cipher None]
    next_record_length_limits [of "\<lparr>m_side = CLIENT, m_initial_record = False, m_read_buffer = [22, 3, 3, 0x40, 0x01]\<rparr>"
       HANDSHAKE "0x0303" "0x4001" "[]" tagging_cipher None]
    next_record_length_limits [of "\<lparr>m_side = CLIENT, m_initial_record = False, m_read_buffer = [22, 3, 3, 0x40, 0x00] @ replicate 16384 7\<rparr>"
       HANDSHAKE "0x0303" "0x4000" "replicate 16384 7" tagging_cipher None]
    next_record_length_limits [of "\<lparr>m_side = CLIENT, m_initial_record = False, m_read_buffer = [21, 3, 3, 0, 0]\<rparr>"
       ALERT "0x0303" "0" "[]" tagging_cipher None]
    next_record_length_limits [of "\<lparr>m_side = CLIENT, m_initial_record = False, m_read_buffer = [23, 3, 3, 0, 0]\<rparr>"
       APPLICATION_DATA "0x0303" "0" "[]" "tagging_cipher\<lparr>decrypt_record_fragment := \<lambda>cs hdr ct. Inr (cs, ct @ [21], cs)\<rparr>" "Some 0"]
  by (simp add: wire_header_def get_byte_0_def get_byte_1_def)

subsection \<open>Protected change\_cipher\_spec\<close>

text \<open>
  Claim C8. The claim says that for every inbound record of outer type
  \<open>application_data\<close> the last byte of the decrypted inner plaintext is read and
  stripped as the true record type, and that a true type of \<open>change_cipher_spec\<close>
  fails with \<open>unexpected_message\<close>. The code does so when the inner plaintext is not
  empty. It does otherwise when the cipher state decrypts the fragment to an empty
  plaintext, as for a record that holds nothing but an AEAD tag: lines 280 and 289 call
  \<open>fragment.back()\<close> and \<open>fragment.pop_back()\<close> with no check that the fragment
  has a byte, which is undefined behaviour on an empty vector.
\<close>

theorem next_record_protected_inner_plaintext:
  assumes pre: "\<not> m_initial_record rl \<or> m_side rl = SERVER"
    and buf: "m_read_buffer rl = wire_header APPLICATION_DATA version len @ frag @ rest"
    and ver: "version = 0x0303 \<or> (m_initial_record rl \<and> version = 0x0301)"
    and len: "length frag = unat len" "unat len \<le> 2 ^ 14 + 256"
    and dec: "decrypt_record_fragment ops c (wire_header APPLICATION_DATA version len) frag
                = Inr (sq, inner, c')"
  shows "(inner = [] \<longrightarrow> next_record ops (Some c) rl = Inl Undefined_Behaviour)
       \<and> (inner \<noteq> [] \<and> last inner = record_type_code CHANGE_CIPHER_SPEC \<longrightarrow>
            next_record ops (Some c) rl = Inl (TLS_Exception UNEXPECTED_MESSAGE))
       \<and> (\<forall>real. inner \<noteq> [] \<and> real \<noteq> CHANGE_CIPHER_SPEC
                 \<and> last inner = record_type_code real \<longrightarrow>
            next_record ops (Some c) rl =
              Inr (GotRecord \<lparr>rec_type = real, fragment = butlast inner, seq_no = Some sq\<rparr>,
                   Some c', rl\<lparr>m_read_buffer := rest, m_initial_record := False\<rparr>))"
proof -
  note nr = next_record_wire_header [OF pre buf]
  have hp: "TLSPlaintext_Header_parse (wire_header APPLICATION_DATA version len) (m_initial_record rl)
      = Inr \<lparr>hdr_type = APPLICATION_DATA, legacy_version = version, fragment_length = len,
                serialized = wire_header APPLICATION_DATA version len\<rparr>"
    using ver len by (auto simp: parse_wire_header)
  have nr': "next_record ops (Some c) rl =
      (if inner = [] then Inl Undefined_Behaviour
       else case read_record_type (last inner) of
         Inl e \<Rightarrow> Inl e
       | Inr real_type \<Rightarrow>
           if real_type = CHANGE_CIPHER_SPEC then Inl (TLS_Exception UNEXPECTED_MESSAGE)
           else Inr (GotRecord \<lparr>rec_type = real_type, fragment = butlast inner, seq_no = Some sq\<rparr>,
                     Some c', rl\<lparr>m_read_buffer := rest, m_initial_record := False\<rparr>))"
    using len dec by (simp add: nr hp split: sum.splits)
  show ?thesis
    unfolding nr' by (auto simp: read_record_type_code simp del: record_type_code.simps)
qed

theorem next_record_protected_inner_plaintext_witness:
  "next_record tagging_cipher (Some 0)
     \<lparr>m_side = CLIENT, m_initial_record = False,
       m_read_buffer = [23, 3, 3, 0, 16] @ replicate 16 0 @ [5]\<rparr>
     = Inl Undefined_Behaviour
   \<and> next_record tagging_cipher (Some 0)
     \<lparr>m_side = CLIENT, m_initial_record = False,
       m_read_buffer = [23, 3, 3, 0, 18] @ ([1, 20] @ replicate 16 0) @ [5]\<rparr>
     = Inl (TLS_Exception UNEXPECTED_MESSAGE)
   \<and> next_record tagging_cipher (Some 0)
     \<lparr>m_side = CLIENT, m_initial_record = False,
       m_read_buffer = [23, 3, 3, 0, 18] @ ([1, 22] @ replicate 16 0) @ [5]\<rparr>
     = Inr (GotRecord \<lparr>rec_type = HANDSHAKE, fragment = [1], seq_no = Some 0\<rparr>,
            Some 1, \<lparr>m_side = CLIENT, m_initial_record = False, m_read_buffer = [5]\<rparr>)"
  using
    next_record_protected_inner_plaintext [of "\<lparr>m_side = CLIENT, m_initial_record = False,
       m_read_buffer = [23, 3, 3, 0, 16] @ replicate 16 0 @ [5]\<rparr>" "0x0303" 16
       "replicate 16 0" "[5]" tagging_cipher 0 0 "[]" 1]
    next_record_protected_inner_plaintext [of "\<lparr>m_side = CLIENT, m_initial_record = False,
       m_read_buffer = [23, 3, 3, 0, 18] @ ([1, 20] @ replicate 16 0) @ [5]\<rparr>" "0x0303" 18
       "[1, 20] @ replicate 16 0" "[5]" tagging_cipher 0 0 "[1, 20]" 1]
    next_record_protected_inner_plaintext [of "\<lparr>m_side = CLIENT, m_initial_record = False,
       m_read_buffer = [23, 3, 3, 0, 18] @ ([1, 22] @ replicate 16 0) @ [5]\<rparr>" "0x0303" 18
       "[1, 22] @ replicate 16 0" "[5]" tagging_cipher 0 0 "[1, 22]" 1]
  by (simp add: wire_header_def get_byte_0_def get_byte_1_def tagging_cipher_def)

subsection \<open>The size assertion of prepare\_records\<close>

lemma prepare_loop_single:
  "to_process \<le> 16384 \<Longrightarrow>
   prepare_loop ops side ty data pt_offset to_process cs initial output =
     (case emit_record ops side ty data pt_offset to_process cs initial output of
        Inl e \<Rightarrow> Inl e | Inr r \<Rightarrow> Inr (fst r, snd r, False))"
  by (subst prepare_loop.simps) (simp add: min_def split: sum.splits)

text \<open>
  Claim C3. The claim says that the length computed before the loop equals the size of
  the output, also when the plaintext length is a positive multiple of \<open>2^14\<close>. The
  code does otherwise: for a plaintext of exactly \<open>2^14\<close> bytes and a cipher state, the
  loop writes one record of \<open>5 + encrypt_output_length(2^14 + 1)\<close> bytes, the length
  computed beforehand is \<open>5 + encrypt_output_length(1)\<close>, and the final assertion
  fails.
\<close>

theorem prepare_records_size_assertion_fails:
  assumes len: "length data = 16384"
    and pre: "\<not> m_initial_record rl \<or> m_side rl = CLIENT"
    and ty: "ty \<noteq> CHANGE_CIPHER_SPEC"
    and enc: "\<And>hdr frag. length (fst (encrypt_record_fragment ops cs hdr frag))
                 = encrypt_output_length ops cs (length frag)"
    and diff: "encrypt_output_length ops cs 16385 \<noteq> encrypt_output_length ops cs 1"
  shows "output_length ops data (Some cs) = 5 + encrypt_output_length ops cs 1
       \<and> (\<exists>out r. prepare_loop ops (m_side rl) ty data 0 (length data) (Some cs)
                      (m_initial_record rl) [] = Inr (out, r)
                  \<and> length out = 5 + encrypt_output_length ops cs 16385)
       \<and> prepare_records ops ty data (Some cs) rl = Inl Internal_Error"
proof -
  have ol: "output_length ops data (Some cs) = 5 + encrypt_output_length ops cs 1"
    by (simp add: output_length_def len)
  have er: "emit_record ops (m_side rl) ty data 0 16384 (Some cs) (m_initial_record rl) []
      = Inr (serialized (TLSPlaintext_Header_build APPLICATION_DATA
                 (encrypt_output_length ops cs 16385) (m_side rl = CLIENT \<and> m_initial_record rl))
             @ fst (encrypt_record_fragment ops cs
                 (serialized (TLSPlaintext_Header_build APPLICATION_DATA
                 (encrypt_output_length ops cs 16385) (m_side rl = CLIENT \<and> m_initial_record rl)))
                 (data @ [record_type_code ty])),
             Some (snd (encrypt_record_fragment ops cs
                 (serialized (TLSPlaintext_Header_build APPLICATION_DATA
                 (encrypt_output_length ops cs 16385) (m_side rl = CLIENT \<and> m_initial_record rl)))
                 (data @ [record_type_code ty]))))"
    by (simp add: emit_record_def Let_def enc len)
  have lp: "prepare_loop ops (m_side rl) ty data 0 (length data) (Some cs) (m_initial_record rl) []
      = Inr (serialized (TLSPlaintext_Header_build APPLICATION_DATA
                 (encrypt_output_length ops cs 16385) (m_side rl = CLIENT \<and> m_initial_record rl))
             @ fst (encrypt_record_fragment ops cs
                 (serialized (TLSPlaintext_Header_build APPLICATION_DATA
                 (encrypt_output_length ops cs 16385) (m_side rl = CLIENT \<and> m_initial_record rl)))
                 (data @ [record_type_code ty])),
             Some (snd (encrypt_record_fragment ops cs
                 (serialized (TLSPlaintext_Header_build APPLICATION_DATA
                 (encrypt_output_length ops cs 16385) (m_side rl = CLIENT \<and> m_initial_record rl)))
                 (data @ [record_type_code ty]))), False)"
    by (simp add: prepare_loop_single len er)
  have ll: "length (serialized (TLSPlaintext_Header_build APPLICATION_DATA
                 (encrypt_output_length ops cs 16385) (m_side rl = CLIENT \<and> m_initial_record rl))
             @ fst (encrypt_record_fragment ops cs
                 (serialized (TLSPlaintext_Header_build APPLICATION_DATA
                 (encrypt_output_length ops cs 16385) (m_side rl = CLIENT \<and> m_initial_record rl)))
                 (data @ [record_type_code ty]))) = 5 + encrypt_output_length ops cs 16385"
    by (simp add: enc len TLSPlaintext_Header_build_def Let_def)
  have pr: "prepare_records ops ty data (Some cs) rl = Inl Internal_Error"
    using pre ty diff len unfolding prepare_records_def lp Let_def ol
    by (simp add: ll del: length_append)
  from ol lp ll pr show ?thesis by blast
qed

theorem prepare_records_size_assertion_fails_witness:
  "output_length tagging_cipher (replicate 16384 0) (Some 0) = 22
   \<and> (\<exists>out r. prepare_loop tagging_cipher CLIENT APPLICATION_DATA (replicate 16384 0) 0 16384
                 (Some 0) False [] = Inr (out, r) \<and> length out = 16406)
   \<and> prepare_records tagging_cipher APPLICATION_DATA (replicate 16384 0) (Some 0)
        \<lparr>m_side = CLIENT, m_initial_record = False, m_read_buffer = []\<rparr> = Inl Internal_Error"
  using prepare_records_size_assertion_fails [of "replicate 16384 0"
     "\<lparr>m_side = CLIENT, m_initial_record = False, m_read_buffer = []\<rparr>" APPLICATION_DATA
     tagging_cipher 0]
  by (simp add: tagging_cipher_def)

subsection \<open>Round trip through a peer record layer\<close>

lemma serialized_build:
  "serialized (TLSPlaintext_Header_build ty n use_compat)
     = wire_header ty (if use_compat then 0x0301 else 0x0303) (of_nat n)"
  by (simp add: TLSPlaintext_Header_build_def wire_header_def Let_def)

lemma emit_record_acc:
  "emit_record ops side ty data pt_offset pt_size cs initial acc =
     (case emit_record ops side ty data pt_offset pt_size cs initial [] of
        Inl e \<Rightarrow> Inl e
      | Inr r \<Rightarrow> Inr (acc @ fst r, snd r))"
  by (simp add: emit_record_def Let_def split: option.splits)

lemma prepare_loop_acc:
  "prepare_loop ops side ty data pt_offset to_process cs initial acc =
     (case prepare_loop ops side ty data pt_offset to_process cs initial [] of
        Inl e \<Rightarrow> Inl e
      | Inr r \<Rightarrow> Inr (acc @ fst r, snd r))"
proof (induction to_process arbitrary: pt_offset cs initial acc rule: less_induct)
  case (less T)
  show ?case
  proof (cases "T > 16384")
    case False
    then show ?thesis
      by (simp add: prepare_loop_single) (subst emit_record_acc, simp split: sum.splits)
  next
    case True
    then have lt: "T - 16384 < T" and m: "min T 16384 = 16384" by simp_all
    show ?thesis
    proof (cases "emit_record ops side ty data pt_offset 16384 cs initial []")
      case (Inl e)
      then show ?thesis
        by (subst prepare_loop.simps, subst (2) prepare_loop.simps, subst emit_record_acc)
          (simp add: m)
    next
      case (Inr r)
      have 1: "prepare_loop ops side ty data pt_offset T cs initial acc =
          prepare_loop ops side ty data (pt_offset + 16384) (T - 16384) (snd r) False (acc @ fst r)"
        using Inr True by (subst prepare_loop.simps, subst emit_record_acc) (simp add: m)
      have 2: "prepare_loop ops side ty data pt_offset T cs initial [] =
          prepare_loop ops side ty data (pt_offset + 16384) (T - 16384) (snd r) False (fst r)"
        using Inr True by (subst prepare_loop.simps) (simp add: m)
      show ?thesis
        unfolding 1 2
        by (subst less.IH [OF lt], subst (2) less.IH [OF lt]) (simp split: sum.splits)
    qed
  qed
qed

lemma prepare_loop_step:
  assumes "T > 16384"
    and "emit_record ops side ty data pt_offset 16384 cs initial [] = Inr (rec1, cs1)"
  shows "prepare_loop ops side ty data pt_offset T cs initial [] =
     (case prepare_loop ops side ty data (pt_offset + 16384) (T - 16384) cs1 False [] of
        Inl e \<Rightarrow> Inl e
      | Inr r \<Rightarrow> Inr (rec1 @ fst r, snd r))"
  using assms
  by (subst prepare_loop.simps, subst prepare_loop_acc) (simp add: min_def split: sum.splits)

lemma emit_record_protected:
  "emit_record ops side ty data pt_offset pt_size (Some w) initial [] =
     (let hdr = wire_header APPLICATION_DATA (if side = CLIENT \<and> initial then 0x0301 else 0x0303)
                  (of_nat (encrypt_output_length ops w (pt_size + 1)));
          enc = encrypt_record_fragment ops w hdr
                  (take pt_size (drop pt_offset data) @ [record_type_code ty])
      in if length (fst enc) \<noteq> encrypt_output_length ops w (pt_size + 1) then Inl Internal_Error
         else Inr (hdr @ fst enc, Some (snd enc)))"
  by (simp add: emit_record_def Let_def serialized_build)

lemma emit_record_plain:
  "emit_record ops side ty data pt_offset pt_size None initial [] =
     Inr (wire_header ty (if side = CLIENT \<and> initial then 0x0301 else 0x0303) (of_nat pt_size)
          @ take pt_size (drop pt_offset data), None)"
  by (simp add: emit_record_def Let_def serialized_build)


lemma read_records_got:
  "next_record ops cs rl = Inr (GotRecord rec, cs', rl') \<Longrightarrow>
   read_records ops cs rl =
     (case read_records ops cs' rl' of
        Inl e \<Rightarrow> Inl e
      | Inr rs \<Rightarrow> Inr (rec # fst rs, snd rs))"
  by (subst read_records.simps) simp

lemma read_records_empty:
  "\<not> m_initial_record rl \<or> m_side rl = SERVER \<Longrightarrow> m_read_buffer rl = [] \<Longrightarrow>
   read_records ops cs rl = Inr ([], cs, rl)"
  by (subst read_records.simps) (auto simp: next_record_def)

lemma unat_of_nat_u16: "n < 65536 \<Longrightarrow> unat (of_nat n :: u16) = n"
  by (simp add: unat_of_nat)

lemma next_record_protected_frame:
  assumes ok: "cipher_pair_ok ops R" and m: "R w r"
    and pre: "\<not> m_initial_record rlp \<or> m_side rlp = SERVER"
    and ver: "v = 0x0303 \<or> (m_initial_record rlp \<and> v = 0x0301)"
    and sz: "length chunk \<le> 16384"
    and ty: "ty \<noteq> CHANGE_CIPHER_SPEC"
    and hdr: "hdr = wire_header APPLICATION_DATA v
                (of_nat (encrypt_output_length ops w (length chunk + 1)))"
    and enc: "enc = encrypt_record_fragment ops w hdr (chunk @ [record_type_code ty])"
  shows "\<exists>sq r'. R (snd enc) r' \<and>
           (\<forall>rest. next_record ops (Some r) (rlp\<lparr>m_read_buffer := hdr @ fst enc @ rest\<rparr>)
              = Inr (GotRecord \<lparr>rec_type = ty, fragment = chunk, seq_no = Some sq\<rparr>, Some r',
                     rlp\<lparr>m_read_buffer := rest, m_initial_record := False\<rparr>))"
proof -
  define n where "n = encrypt_output_length ops w (length chunk + 1)"
  from ok m have bound: "n \<le> length chunk + 1 + 255"
    unfolding cipher_pair_ok_def n_def by blast
  with sz have n: "n \<le> 16640" by simp
  then have un: "unat (of_nat n :: u16) = n" by (simp add: unat_of_nat_u16)
  from ok m have len: "length (fst enc) = n"
    unfolding cipher_pair_ok_def enc n_def by (metis length_append_singleton Suc_eq_plus1)
  from ok m obtain sq r' where
    dec: "decrypt_record_fragment ops r hdr (fst enc) = Inr (sq, chunk @ [record_type_code ty], r')"
    and m': "R (snd enc) r'"
    unfolding cipher_pair_ok_def enc by blast
  have hdr': "hdr = wire_header APPLICATION_DATA v (of_nat n)"
    by (simp add: hdr n_def)
  have hp: "TLSPlaintext_Header_parse (wire_header APPLICATION_DATA v (of_nat n)) (m_initial_record rlp)
      = Inr \<lparr>hdr_type = APPLICATION_DATA, legacy_version = v, fragment_length = of_nat n,
              serialized = wire_header APPLICATION_DATA v (of_nat n)\<rparr>"
    using ver n by (auto simp: parse_wire_header un)
  have "next_record ops (Some r)
            (rlp\<lparr>m_read_buffer := wire_header APPLICATION_DATA v (of_nat n) @ fst enc @ rest\<rparr>)
           = Inr (GotRecord \<lparr>rec_type = ty, fragment = chunk, seq_no = Some sq\<rparr>, Some r',
                  rlp\<lparr>m_read_buffer := rest, m_initial_record := False\<rparr>)" for rest
  proof -
    let ?rl = "rlp\<lparr>m_read_buffer := wire_header APPLICATION_DATA v (of_nat n) @ fst enc @ rest\<rparr>"
    have pre': "\<not> m_initial_record ?rl \<or> m_side ?rl = SERVER"
      using pre by simp
    have buf: "m_read_buffer ?rl = wire_header APPLICATION_DATA v (of_nat n) @ (fst enc @ rest)"
      by simp
    show ?thesis
      using ty dec [unfolded hdr'] len
      by (simp add: next_record_wire_header [OF pre' buf] hp un
          read_record_type_code del: record_type_code.simps)
  qed
  with m' show ?thesis unfolding hdr' by blast
qed


lemma loop_size_small: "T \<le> 16384 \<Longrightarrow> loop_size ct T = 5 + ct T"
  by (subst loop_size.simps) simp

lemma loop_size_step: "T > 16384 \<Longrightarrow> loop_size ct T = 5 + ct 16384 + loop_size ct (T - 16384)"
  by (subst loop_size.simps) simp

lemma Record_Layer_update_swap:
  "rl\<lparr>m_initial_record := b, m_read_buffer := x\<rparr> = rl\<lparr>m_read_buffer := x, m_initial_record := b\<rparr>"
  by (cases rl) simp

lemma roundtrip_loop_protected:
  assumes ok: "cipher_pair_ok ops R"
  shows "R w r \<Longrightarrow> ty \<noteq> CHANGE_CIPHER_SPEC \<Longrightarrow> pt_offset + T = length data \<Longrightarrow>
     \<not> m_initial_record rlp \<or> m_side rlp = SERVER \<Longrightarrow>
     (side = CLIENT \<and> initial \<longrightarrow> m_initial_record rlp) \<Longrightarrow>
     encrypt_output_length ops w = E \<Longrightarrow>
     \<exists>out w' recs r'.
        prepare_loop ops side ty data pt_offset T (Some w) initial [] = Inr (out, Some w', False)
      \<and> length out = loop_size (\<lambda>p. E (p + 1)) T
      \<and> read_records ops (Some r) (rlp\<lparr>m_read_buffer := out\<rparr>)
           = Inr (recs, Some r', rlp\<lparr>m_read_buffer := [], m_initial_record := False\<rparr>)
      \<and> recs \<noteq> [] \<and> map rec_type recs = replicate (length recs) ty
      \<and> concat (map fragment recs) = drop pt_offset data"
proof (induction T arbitrary: w r pt_offset initial rlp rule: less_induct)
  case (less T)
  define v :: u16 where "v = (if side = CLIENT \<and> initial then 0x0301 else 0x0303)"
  define p where "p = min T 16384"
  define chunk where "chunk = take p (drop pt_offset data)"
  define hdr where "hdr = wire_header APPLICATION_DATA v (of_nat (E (p + 1)))"
  define enc where "enc = encrypt_record_fragment ops w hdr (chunk @ [record_type_code ty])"
  have lchunk: "length chunk = p"
    using less.prems(3) by (simp add: chunk_def p_def)
  have lenc: "length (fst enc) = E (p + 1)"
    using ok less.prems(1,6) unfolding cipher_pair_ok_def enc_def
    by (metis length_append_singleton Suc_eq_plus1 lchunk)
  have E': "encrypt_output_length ops (snd enc) = E"
    using ok less.prems(1,6) unfolding cipher_pair_ok_def enc_def by metis
  have emit: "emit_record ops side ty data pt_offset p (Some w) initial []
      = Inr (hdr @ fst enc, Some (snd enc))"
    using lenc [unfolded enc_def hdr_def chunk_def v_def]
    by (simp add: emit_record_protected Let_def less.prems(6) hdr_def enc_def chunk_def v_def)
  have ver: "v = 0x0303 \<or> (m_initial_record rlp \<and> v = 0x0301)"
    using less.prems(5) by (auto simp: v_def)
  have hdr2: "hdr = wire_header APPLICATION_DATA v
                (of_nat (encrypt_output_length ops w (length chunk + 1)))"
    by (simp add: hdr_def less.prems(6) lchunk)
  have psz: "length chunk \<le> 16384" by (simp add: lchunk p_def)
  note frame = next_record_protected_frame [OF ok less.prems(1) less.prems(4) ver psz
      less.prems(2) hdr2 enc_def]
  have lrec: "length (hdr @ fst enc) = 5 + E (p + 1)"
    by (simp add: lenc hdr_def length_wire_header)
  show ?case
  proof (cases "T > 16384")
    case False
    then have pT: "p = T" by (simp add: p_def)
    have chunk_all: "chunk = drop pt_offset data"
      using less.prems(3) by (simp add: chunk_def pT)
    from frame obtain sq r' where m': "R (snd enc) r'"
      and nr0: "\<And>rest. next_record ops (Some r) (rlp\<lparr>m_read_buffer := hdr @ fst enc @ rest\<rparr>)
             = Inr (GotRecord \<lparr>rec_type = ty, fragment = chunk, seq_no = Some sq\<rparr>, Some r',
                    rlp\<lparr>m_read_buffer := rest, m_initial_record := False\<rparr>)" by blast
    have nr: "next_record ops (Some r) (rlp\<lparr>m_read_buffer := hdr @ fst enc\<rparr>)
             = Inr (GotRecord \<lparr>rec_type = ty, fragment = chunk, seq_no = Some sq\<rparr>, Some r',
                    rlp\<lparr>m_read_buffer := [], m_initial_record := False\<rparr>)"
      using nr0 [of "[]"] by simp
    have lp: "prepare_loop ops side ty data pt_offset T (Some w) initial []
       = Inr (hdr @ fst enc, Some (snd enc), False)"
      using False emit by (simp add: prepare_loop_single pT)
    have rd: "read_records ops (Some r) (rlp\<lparr>m_read_buffer := hdr @ fst enc\<rparr>)
       = Inr ([\<lparr>rec_type = ty, fragment = chunk, seq_no = Some sq\<rparr>], Some r',
              rlp\<lparr>m_read_buffer := [], m_initial_record := False\<rparr>)"
      by (simp add: read_records_got [OF nr] read_records_empty)
    have ln: "length (hdr @ fst enc) = loop_size (\<lambda>p. E (p + 1)) T"
      using False lrec by (simp add: loop_size_small pT)
    show ?thesis
      unfolding lp using ln rd chunk_all by simp
  next
    case True
    then have pM: "p = 16384" by (simp add: p_def)
    have lt: "T - 16384 < T" using True by simp
    let ?rlp' = "rlp\<lparr>m_initial_record := False\<rparr>"
    have off: "pt_offset + 16384 + (T - 16384) = length data"
      using less.prems(3) True by simp
    have pre': "\<not> m_initial_record ?rlp' \<or> m_side ?rlp' = SERVER" by simp
    have compat': "side = CLIENT \<and> False \<longrightarrow> m_initial_record ?rlp'" by simp
    have step: "prepare_loop ops side ty data pt_offset T (Some w) initial [] =
       (case prepare_loop ops side ty data (pt_offset + 16384) (T - 16384) (Some (snd enc)) False [] of
          Inl e \<Rightarrow> Inl e
        | Inr r \<Rightarrow> Inr ((hdr @ fst enc) @ fst r, snd r))"
      using emit by (intro prepare_loop_step [OF True]) (simp add: pM)
    have chunk_cat: "chunk @ drop (pt_offset + 16384) data = drop pt_offset data"
      unfolding chunk_def pM by (metis append_take_drop_id drop_drop add.commute)
    from frame obtain sq r1 where m1: "R (snd enc) r1"
      and nr: "\<And>rest. next_record ops (Some r) (rlp\<lparr>m_read_buffer := hdr @ fst enc @ rest\<rparr>)
             = Inr (GotRecord \<lparr>rec_type = ty, fragment = chunk, seq_no = Some sq\<rparr>, Some r1,
                    rlp\<lparr>m_read_buffer := rest, m_initial_record := False\<rparr>)" by blast
    from less.IH [OF lt m1 less.prems(2) off pre' compat' E']
    obtain out2 w2 recs2 r2 where
      lp2: "prepare_loop ops side ty data (pt_offset + 16384) (T - 16384) (Some (snd enc)) False []
              = Inr (out2, Some w2, False)"
      and ln2: "length out2 = loop_size (\<lambda>p. E (p + 1)) (T - 16384)"
      and rd2: "read_records ops (Some r1) (?rlp'\<lparr>m_read_buffer := out2\<rparr>)
           = Inr (recs2, Some r2, ?rlp'\<lparr>m_read_buffer := [], m_initial_record := False\<rparr>)"
      and ne2: "recs2 \<noteq> []" and ty2: "map rec_type recs2 = replicate (length recs2) ty"
      and cat2: "concat (map fragment recs2) = drop (pt_offset + 16384) data"
      by blast
    have lp: "prepare_loop ops side ty data pt_offset T (Some w) initial []
        = Inr ((hdr @ fst enc) @ out2, Some w2, False)"
      by (simp add: step lp2)
    have ln: "length ((hdr @ fst enc) @ out2) = loop_size (\<lambda>p. E (p + 1)) T"
      using lrec ln2 True by (simp add: loop_size_step [OF True] pM)
    have rd: "read_records ops (Some r) (rlp\<lparr>m_read_buffer := (hdr @ fst enc) @ out2\<rparr>)
        = Inr (\<lparr>rec_type = ty, fragment = chunk, seq_no = Some sq\<rparr> # recs2, Some r2,
               rlp\<lparr>m_read_buffer := [], m_initial_record := False\<rparr>)"
      using rd2 by (simp add: read_records_got [OF nr] Record_Layer_update_swap)
    show ?thesis
      unfolding lp using ln rd ty2 cat2 chunk_cat by simp

  qed
qed


lemma next_record_plain_frame:
  assumes pre: "\<not> m_initial_record rlp \<or> m_side rlp = SERVER"
    and ver: "v = 0x0303 \<or> (m_initial_record rlp \<and> v = 0x0301)"
    and sz: "length chunk = n" "0 < n" "n \<le> 16384"
    and ty: "ty \<noteq> APPLICATION_DATA" "ty = CHANGE_CIPHER_SPEC \<longrightarrow> chunk = [1]"
  shows "next_record ops cs
           (rlp\<lparr>m_read_buffer := wire_header ty v (of_nat n) @ chunk @ rest\<rparr>)
         = Inr (GotRecord \<lparr>rec_type = ty, fragment = chunk, seq_no = None\<rparr>, cs,
                rlp\<lparr>m_read_buffer := rest, m_initial_record := False\<rparr>)"
proof -
  have un: "unat (of_nat n :: u16) = n" using sz by (simp add: unat_of_nat_u16)
  have nz: "(of_nat n :: u16) \<noteq> 0" using un sz by auto
  let ?rl = "rlp\<lparr>m_read_buffer := wire_header ty v (of_nat n) @ chunk @ rest\<rparr>"
  have pre': "\<not> m_initial_record ?rl \<or> m_side ?rl = SERVER"
    using pre by simp
  have buf: "m_read_buffer ?rl = wire_header ty v (of_nat n) @ (chunk @ rest)"
    by simp
  have hp: "TLSPlaintext_Header_parse (wire_header ty v (of_nat n)) (m_initial_record rlp)
      = Inr \<lparr>hdr_type = ty, legacy_version = v, fragment_length = of_nat n,
              serialized = wire_header ty v (of_nat n)\<rparr>"
    using ver sz ty nz by (auto simp: parse_wire_header un)
  have vc: "ty = CHANGE_CIPHER_SPEC \<longrightarrow> verify_change_cipher_spec (take n (chunk @ rest)) n"
    using ty(2) sz(1) by (auto simp: verify_change_cipher_spec_def)
  show ?thesis
    using ty(1) sz(1) vc
    by (simp add: next_record_wire_header [OF pre' buf] hp un)
qed

lemma roundtrip_loop_plain:
  "ty \<noteq> APPLICATION_DATA \<Longrightarrow> (ty = CHANGE_CIPHER_SPEC \<longrightarrow> data = [1]) \<Longrightarrow>
   pt_offset + T = length data \<Longrightarrow> 0 < T \<Longrightarrow>
   \<not> m_initial_record rlp \<or> m_side rlp = SERVER \<Longrightarrow>
   (side = CLIENT \<and> initial \<longrightarrow> m_initial_record rlp) \<Longrightarrow>
   \<exists>out recs.
      prepare_loop ops side ty data pt_offset T None initial [] = Inr (out, None, False)
    \<and> length out = loop_size (\<lambda>p. p) T
    \<and> read_records ops csp (rlp\<lparr>m_read_buffer := out\<rparr>)
         = Inr (recs, csp, rlp\<lparr>m_read_buffer := [], m_initial_record := False\<rparr>)
    \<and> recs \<noteq> [] \<and> map rec_type recs = replicate (length recs) ty
    \<and> concat (map fragment recs) = drop pt_offset data"
proof (induction T arbitrary: pt_offset initial rlp rule: less_induct)
  case (less T)
  define v :: u16 where "v = (if side = CLIENT \<and> initial then 0x0301 else 0x0303)"
  define p where "p = min T 16384"
  define chunk where "chunk = take p (drop pt_offset data)"
  define rec1 where "rec1 = wire_header ty v (of_nat p) @ chunk"
  have lchunk: "length chunk = p"
    using less.prems(3) by (simp add: chunk_def p_def)
  have emit: "emit_record ops side ty data pt_offset p None initial [] = Inr (rec1, None)"
    by (simp add: emit_record_plain rec1_def v_def chunk_def)
  have ver: "v = 0x0303 \<or> (m_initial_record rlp \<and> v = 0x0301)"
    using less.prems(6) by (auto simp: v_def)
  have psz: "0 < p" "p \<le> 16384"
    using less.prems(4) by (simp_all add: p_def)
  have ccs: "ty = CHANGE_CIPHER_SPEC \<longrightarrow> chunk = [1]"
    using less.prems(2,3,4) by (cases pt_offset) (auto simp: chunk_def p_def)
  have nr: "next_record ops csp (rlp\<lparr>m_read_buffer := rec1 @ rest\<rparr>)
         = Inr (GotRecord \<lparr>rec_type = ty, fragment = chunk, seq_no = None\<rparr>, csp,
                rlp\<lparr>m_read_buffer := rest, m_initial_record := False\<rparr>)" for rest
    using next_record_plain_frame [OF less.prems(5) ver lchunk psz less.prems(1) ccs, of ops csp rest]
    by (simp add: rec1_def)
  have lrec: "length rec1 = 5 + p"
    by (simp add: rec1_def lchunk length_wire_header)
  show ?case
  proof (cases "T > 16384")
    case False
    then have pT: "p = T" by (simp add: p_def)
    have chunk_all: "chunk = drop pt_offset data"
      using less.prems(3) by (simp add: chunk_def pT)
    have lp: "prepare_loop ops side ty data pt_offset T None initial [] = Inr (rec1, None, False)"
      using False emit by (simp add: prepare_loop_single pT)
    have rd: "read_records ops csp (rlp\<lparr>m_read_buffer := rec1\<rparr>)
       = Inr ([\<lparr>rec_type = ty, fragment = chunk, seq_no = None\<rparr>], csp,
              rlp\<lparr>m_read_buffer := [], m_initial_record := False\<rparr>)"
      using nr [of "[]"] by (simp add: read_records_got read_records_empty)
    have ln: "length rec1 = loop_size (\<lambda>p. p) T"
      using False lrec by (simp add: loop_size_small pT)
    show ?thesis
      unfolding lp using ln rd chunk_all by simp
  next
    case True
    then have pM: "p = 16384" by (simp add: p_def)
    have lt: "T - 16384 < T" using True by simp
    let ?rlp' = "rlp\<lparr>m_initial_record := False\<rparr>"
    have off: "pt_offset + 16384 + (T - 16384) = length data"
      using less.prems(3) True by simp
    have pos: "0 < T - 16384" using True by simp
    have pre': "\<not> m_initial_record ?rlp' \<or> m_side ?rlp' = SERVER" by simp
    have compat': "side = CLIENT \<and> False \<longrightarrow> m_initial_record ?rlp'" by simp
    have step: "prepare_loop ops side ty data pt_offset T None initial [] =
       (case prepare_loop ops side ty data (pt_offset + 16384) (T - 16384) None False [] of
          Inl e \<Rightarrow> Inl e
        | Inr r \<Rightarrow> Inr (rec1 @ fst r, snd r))"
      using emit by (intro prepare_loop_step [OF True]) (simp add: pM)
    have chunk_cat: "chunk @ drop (pt_offset + 16384) data = drop pt_offset data"
      unfolding chunk_def pM by (metis append_take_drop_id drop_drop add.commute)
    from less.IH [OF lt less.prems(1,2) off pos pre' compat']
    obtain out2 recs2 where
      lp2: "prepare_loop ops side ty data (pt_offset + 16384) (T - 16384) None False []
              = Inr (out2, None, False)"
      and ln2: "length out2 = loop_size (\<lambda>p. p) (T - 16384)"
      and rd2: "read_records ops csp (?rlp'\<lparr>m_read_buffer := out2\<rparr>)
           = Inr (recs2, csp, ?rlp'\<lparr>m_read_buffer := [], m_initial_record := False\<rparr>)"
      and ne2: "recs2 \<noteq> []" and ty2: "map rec_type recs2 = replicate (length recs2) ty"
      and cat2: "concat (map fragment recs2) = drop (pt_offset + 16384) data"
      by blast
    have lp: "prepare_loop ops side ty data pt_offset T None initial []
        = Inr (rec1 @ out2, None, False)"
      by (simp add: step lp2)
    have ln: "length (rec1 @ out2) = loop_size (\<lambda>p. p) T"
      using lrec ln2 True by (simp add: loop_size_step [OF True] pM)
    have rd: "read_records ops csp (rlp\<lparr>m_read_buffer := rec1 @ out2\<rparr>)
        = Inr (\<lparr>rec_type = ty, fragment = chunk, seq_no = None\<rparr> # recs2, csp,
               rlp\<lparr>m_read_buffer := [], m_initial_record := False\<rparr>)"
      using rd2 by (simp add: read_records_got [OF nr] Record_Layer_update_swap)
    show ?thesis
      unfolding lp using ln rd ty2 cat2 chunk_cat by simp
  qed
qed

lemma records_small: "T \<le> 16384 \<Longrightarrow> max ((T + 16383) div 16384) (1::nat) = 1"
  by arith

lemma records_step:
  "T > 16384 \<Longrightarrow> max ((T + 16383) div 16384) (1::nat) = Suc (max ((T - 16384 + 16383) div 16384) 1)"
  by arith

lemma loop_size_plain:
  "loop_size (\<lambda>p. p) T = max ((T + 16383) div 16384) 1 * 5 + T"
proof (induction T rule: less_induct)
  case (less T)
  show ?case
  proof (cases "T > 16384")
    case False
    then show ?thesis by (simp add: loop_size_small records_small)
  next
    case True
    then have lt: "T - 16384 < T" by simp
    define k where "k = max ((T - 16384 + 16383) div 16384) 1"
    have IH: "loop_size (\<lambda>p. p) (T - 16384) = k * 5 + (T - 16384)"
      using less.IH [OF lt] by (simp add: k_def)
    show ?thesis
      unfolding loop_size_step [OF True] records_step [OF True] IH k_def [symmetric]
      using True by simp
  qed
qed

lemma loop_size_protected:
  "T = 0 \<or> T mod 16384 \<noteq> 0 \<Longrightarrow>
   loop_size (\<lambda>p. E (p + 1)) T =
     max ((T + 16383) div 16384) 1 * 5
       + (E 16385 * (max ((T + 16383) div 16384) 1 - 1) + E (T mod 16384 + 1))"
proof (induction T rule: less_induct)
  case (less T)
  show ?case
  proof (cases "T > 16384")
    case False
    with less.prems have "T < 16384" by (cases "T = 16384") auto
    then have "max ((T + 16383) div 16384) 1 = 1" "T mod 16384 = T"
      by (simp_all add: records_small)
    with False show ?thesis by (simp add: loop_size_small)
  next
    case True
    then have lt: "T - 16384 < T" by simp
    have md: "(T - 16384) mod 16384 = T mod 16384"
      using True by (simp add: le_mod_geq)
    have nz: "T - 16384 = 0 \<or> (T - 16384) mod 16384 \<noteq> 0"
      using less.prems True md by simp
    define k where "k = max ((T - 16384 + 16383) div 16384) 1"
    have IH: "loop_size (\<lambda>p. E (p + 1)) (T - 16384)
        = k * 5 + (E 16385 * (k - 1) + E (T mod 16384 + 1))"
      using less.IH [OF lt nz] by (simp add: k_def md)
    have k1: "k = Suc (k - 1)" by (simp add: k_def)
    have "5 + E (16384 + 1) + (k * 5 + (E 16385 * (k - 1) + E (T mod 16384 + 1)))
        = Suc k * 5 + (E 16385 * (Suc k - 1) + E (T mod 16384 + 1))"
      by (subst (3) k1) simp
    then show ?thesis
      unfolding loop_size_step [OF True] records_step [OF True] IH k_def [symmetric] .
  qed
qed


lemma tagging_cipher_pair_ok: "cipher_pair_ok tagging_cipher (=)"
  by (simp add: cipher_pair_ok_def tagging_cipher_def)

text \<open>
  Claim C2, as amended. Let the plaintext be accepted by the preconditions of
  \<open>prepare_records\<close>, and let the peer record layer have an empty read buffer and
  expect an initial record whenever the sender is about to write one. Without a cipher
  state (and a type other than \<open>application_data\<close>), or with a cipher state that
  matches the peer's, a type other than \<open>change_cipher_spec\<close> and a plaintext length
  that is zero or not a multiple of \<open>2^14\<close>, \<open>prepare_records\<close> returns, and reading
  its output at the peer yields one or more records, each of the original type, whose
  fragments concatenated equal the plaintext.
\<close>

theorem prepare_then_read_roundtrip:
  assumes ok: "cipher_pair_ok ops R"
    and sender: "\<not> m_initial_record rl \<or> m_side rl = CLIENT"
    and peer: "\<not> m_initial_record rlp \<or> m_side rlp = SERVER" "m_read_buffer rlp = []"
      "m_side rl = CLIENT \<and> m_initial_record rl \<longrightarrow> m_initial_record rlp"
    and accepted: "data \<noteq> [] \<or> ty = APPLICATION_DATA" "ty = CHANGE_CIPHER_SPEC \<longrightarrow> data = [1]"
    and cipher: "(C = None \<and> ty \<noteq> APPLICATION_DATA) \<or>
                 (\<exists>w r. C = Some w \<and> Cp = Some r \<and> R w r \<and> ty \<noteq> CHANGE_CIPHER_SPEC \<and>
                        (data = [] \<or> length data mod 16384 \<noteq> 0))"
  shows "\<exists>out C' rl' recs Cp' rlp'.
           prepare_records ops ty data C rl = Inr (out, C', rl')
         \<and> read_records ops Cp (copy_data out rlp) = Inr (recs, Cp', rlp')
         \<and> recs \<noteq> []
         \<and> map rec_type recs = replicate (length recs) ty
         \<and> concat (map fragment recs) = data"
proof -
  have cd: "copy_data out rlp = rlp\<lparr>m_read_buffer := out\<rparr>" for out
    by (simp add: copy_data_def peer(2))
  from cipher show ?thesis
  proof
    assume a: "C = None \<and> ty \<noteq> APPLICATION_DATA"
    then have ne: "data \<noteq> []" using accepted(1) by simp
    from roundtrip_loop_plain [of ty data 0 "length data" rlp "m_side rl" "m_initial_record rl" ops Cp]
      a accepted(2) ne peer(1,3)
    obtain out recs where
      lp: "prepare_loop ops (m_side rl) ty data 0 (length data) None (m_initial_record rl) []
             = Inr (out, None, False)"
      and ln: "length out = loop_size (\<lambda>p. p) (length data)"
      and rd: "read_records ops Cp (rlp\<lparr>m_read_buffer := out\<rparr>)
         = Inr (recs, Cp, rlp\<lparr>m_read_buffer := [], m_initial_record := False\<rparr>)"
      and rs: "recs \<noteq> []" "map rec_type recs = replicate (length recs) ty"
        "concat (map fragment recs) = drop 0 data"
      by auto
    have ol: "output_length ops data None = length out"
      by (simp add: output_length_def ln loop_size_plain)
    have vc: "ty = CHANGE_CIPHER_SPEC \<longrightarrow> verify_change_cipher_spec data (length data)"
      using accepted(2) by (auto simp: verify_change_cipher_spec_def)
    have "prepare_records ops ty data C rl = Inr (out, None, rl\<lparr>m_initial_record := False\<rparr>)"
      using a sender ne vc by (simp add: prepare_records_def lp ol)
    with rd rs show ?thesis by (simp add: cd)
  next
    assume "\<exists>w r. C = Some w \<and> Cp = Some r \<and> R w r \<and> ty \<noteq> CHANGE_CIPHER_SPEC \<and>
                        (data = [] \<or> length data mod 16384 \<noteq> 0)"
    then obtain w r where C: "C = Some w" and Cp: "Cp = Some r" and m: "R w r"
      and ty: "ty \<noteq> CHANGE_CIPHER_SPEC" and nm: "data = [] \<or> length data mod 16384 \<noteq> 0"
      by blast
    have off: "0 + length data = length data" by simp
    have compat: "m_side rl = CLIENT \<and> m_initial_record rl \<longrightarrow> m_initial_record rlp"
      by (rule peer(3))
    from roundtrip_loop_protected [OF ok m ty off peer(1) compat refl]
    obtain out w' recs r' where
      lp: "prepare_loop ops (m_side rl) ty data 0 (length data) (Some w) (m_initial_record rl) []
             = Inr (out, Some w', False)"
      and ln: "length out = loop_size (\<lambda>p. encrypt_output_length ops w (p + 1)) (length data)"
      and rd: "read_records ops (Some r) (rlp\<lparr>m_read_buffer := out\<rparr>)
         = Inr (recs, Some r', rlp\<lparr>m_read_buffer := [], m_initial_record := False\<rparr>)"
      and rs: "recs \<noteq> []" "map rec_type recs = replicate (length recs) ty"
        "concat (map fragment recs) = drop 0 data"
      by blast
    have nm': "length data = 0 \<or> length data mod 16384 \<noteq> 0" using nm by auto
    have ol: "output_length ops data (Some w) = length out"
      unfolding ln loop_size_protected [OF nm'] by (simp add: output_length_def Let_def add.commute)
    have "prepare_records ops ty data C rl = Inr (out, Some w', rl\<lparr>m_initial_record := False\<rparr>)"
      using sender accepted(1) ty by (simp add: prepare_records_def C lp ol)
    with rd rs show ?thesis by (simp add: cd Cp)
  qed
qed

theorem prepare_then_read_roundtrip_witness:
  "(\<exists>out C' rl' recs Cp' rlp'.
      prepare_records tagging_cipher HANDSHAKE [1, 2, 3] (Some 0) (Record_Layer_new CLIENT)
        = Inr (out, C', rl')
    \<and> read_records tagging_cipher (Some 0) (copy_data out (Record_Layer_new SERVER))
        = Inr (recs, Cp', rlp')
    \<and> recs \<noteq> [] \<and> map rec_type recs = replicate (length recs) HANDSHAKE
    \<and> concat (map fragment recs) = [1, 2, 3])
 \<and> (\<exists>out C' rl' recs Cp' rlp'.
      prepare_records tagging_cipher CHANGE_CIPHER_SPEC [1] None
        \<lparr>m_side = SERVER, m_initial_record = False, m_read_buffer = []\<rparr> = Inr (out, C', rl')
    \<and> read_records tagging_cipher None
        (copy_data out \<lparr>m_side = CLIENT, m_initial_record = False, m_read_buffer = []\<rparr>)
        = Inr (recs, Cp', rlp')
    \<and> recs \<noteq> [] \<and> map rec_type recs = replicate (length recs) CHANGE_CIPHER_SPEC
    \<and> concat (map fragment recs) = [1])"
  using
    prepare_then_read_roundtrip [OF tagging_cipher_pair_ok,
      of "Record_Layer_new CLIENT" "Record_Layer_new SERVER" "[1, 2, 3]" HANDSHAKE "Some 0" "Some 0"]
    prepare_then_read_roundtrip [OF tagging_cipher_pair_ok,
      of "\<lparr>m_side = SERVER, m_initial_record = False, m_read_buffer = []\<rparr>"
         "\<lparr>m_side = CLIENT, m_initial_record = False, m_read_buffer = []\<rparr>" "[1]"
         CHANGE_CIPHER_SPEC None None]
  by (simp add: Record_Layer_new_def)

text \<open>
  The claim as stated fails for a \<open>change_cipher_spec\<close> sent with a cipher state:
  \<open>prepare_records\<close> accepts it and writes a protected record, and the peer rejects
  that record with \<open>unexpected_message\<close>.
\<close>

theorem protected_change_cipher_spec_roundtrip_fails:
  "prepare_records tagging_cipher CHANGE_CIPHER_SPEC [1] (Some 0) (Record_Layer_new CLIENT)
     = Inr ([23, 3, 1, 0, 18, 1, 20] @ replicate 16 0, Some 1,
            \<lparr>m_side = CLIENT, m_initial_record = False, m_read_buffer = []\<rparr>)
   \<and> read_records tagging_cipher (Some 0)
       (copy_data ([23, 3, 1, 0, 18, 1, 20] @ replicate 16 0) (Record_Layer_new SERVER))
     = Inl (TLS_Exception UNEXPECTED_MESSAGE)"
proof -
  have 1: "prepare_records tagging_cipher CHANGE_CIPHER_SPEC [1] (Some 0) (Record_Layer_new CLIENT)
     = Inr ([23, 3, 1, 0, 18, 1, 20] @ replicate 16 0, Some 1,
            \<lparr>m_side = CLIENT, m_initial_record = False, m_read_buffer = []\<rparr>)"
    by (simp add: prepare_records_def Record_Layer_new_def verify_change_cipher_spec_def
        prepare_loop_single emit_record_def TLSPlaintext_Header_build_def output_length_def
        tagging_cipher_def get_byte_0_def get_byte_1_def Let_def)
  have 2: "next_record tagging_cipher (Some 0)
       (copy_data ([23, 3, 1, 0, 18, 1, 20] @ replicate 16 0) (Record_Layer_new SERVER))
     = Inl (TLS_Exception UNEXPECTED_MESSAGE)"
    by (simp add: next_record_def copy_data_def Record_Layer_new_def TLSPlaintext_Header_parse_def
        read_record_type_def make_uint16_def tagging_cipher_def Let_def)
  have 3: "read_records tagging_cipher (Some 0)
       (copy_data ([23, 3, 1, 0, 18, 1, 20] @ replicate 16 0) (Record_Layer_new SERVER))
     = Inl (TLS_Exception UNEXPECTED_MESSAGE)"
    by (subst read_records.simps, subst 2) simp
  from 1 3 show ?thesis by simp
qed

subsection \<open>Legacy version of outbound records\<close>

lemma header_version_wire_header: "header_version (wire_header ty v len) = v"
  by (simp add: header_version_def wire_header_def make_uint16_get_byte)

lemma wire_headers_Nil: "wire_headers [] = Some []"
  by (subst wire_headers.simps) simp

lemma wire_headers_frame:
  assumes "length body = n" "n < 65536"
  shows "wire_headers (wire_header ty v (of_nat n) @ body @ rest)
           = map_option ((#) (wire_header ty v (of_nat n))) (wire_headers rest)"
proof -
  have un: "unat (of_nat n :: u16) = n" using assms(2) by (simp add: unat_of_nat_u16)
  have l: "length (wire_header ty v (of_nat n :: u16)) = 5" by (rule length_wire_header)
  have i3: "(wire_header ty v (of_nat n) @ body @ rest) ! 3 = get_byte_0 (of_nat n :: u16)"
    and i4: "(wire_header ty v (of_nat n) @ body @ rest) ! 4 = get_byte_1 (of_nat n :: u16)"
    by (simp_all add: wire_header_def)
  show ?thesis
    by (subst wire_headers.simps)
      (simp add: i3 i4 make_uint16_get_byte un l assms(1), simp add: wire_header_def)
qed

lemma versions_from_False: "versions_from False n = replicate n 0x0303"
  by (cases n) (simp_all add: versions_from_def)

lemma versions_from_Suc:
  "versions_from first (Suc n) = (if first then 0x0301 else 0x0303) # versions_from False n"
  by (simp add: versions_from_False) (simp add: versions_from_def)


lemma map_option_append_Nil: "map_option ((@) []) x = x"
  by (cases x) simp_all

lemma map_option_append_Cons:
  "map_option ((@) (h # hs)) x = map_option ((#) h) (map_option ((@) hs) x)"
  by (cases x) simp_all

lemma map_option_append_append:
  "map_option ((@) (hs1 @ hs2)) x = map_option ((@) hs1) (map_option ((@) hs2) x)"
  by (cases x) simp_all


lemma versions_from_append:
  assumes "0 < n1"
  shows "versions_from first (n1 + n2) = versions_from first n1 @ versions_from False n2"
proof (cases n1)
  case 0
  with assms show ?thesis by simp
next
  case (Suc m)
  then show ?thesis by (simp add: versions_from_Suc versions_from_False replicate_add)
qed

lemma versions_from_True:
  "0 < n \<Longrightarrow> versions_from True n = 0x0301 # replicate (n - 1) 0x0303"
  by (cases n) (simp_all add: versions_from_def)

lemma emit_record_shape:
  assumes len: "\<forall>cs n. n \<le> 16385 \<longrightarrow> encrypt_output_length ops cs n < 65536"
    and emit: "emit_record ops side ty data pt_offset p cs initial [] = Inr (rec1, cs1)"
    and p: "p \<le> 16384" "pt_offset + p \<le> length data"
  shows "\<exists>t n body. rec1 = wire_header t (if side = CLIENT \<and> initial then 0x0301 else 0x0303)
                                (of_nat n) @ body
                    \<and> length body = n \<and> n < 65536"
proof (cases cs)
  case None
  with emit have "rec1 = wire_header ty (if side = CLIENT \<and> initial then 0x0301 else 0x0303)
                    (of_nat p) @ take p (drop pt_offset data)"
    by (simp add: emit_record_plain)
  moreover have "length (take p (drop pt_offset data)) = p" using p by simp
  moreover have "p < 65536" using p by simp
  ultimately show ?thesis by blast
next
  case (Some w)
  define n where "n = encrypt_output_length ops w (p + 1)"
  have n: "n < 65536" using len p unfolding n_def by simp
  define hdr where "hdr = wire_header APPLICATION_DATA
        (if side = CLIENT \<and> initial then 0x0301 else 0x0303) (of_nat n)"
  define body where "body = fst (encrypt_record_fragment ops w hdr
        (take p (drop pt_offset data) @ [record_type_code ty]))"
  from emit have "length body = n \<and> rec1 = hdr @ body"
    unfolding Some emit_record_protected Let_def n_def [symmetric] hdr_def [symmetric]
      body_def [symmetric]
    by (simp split: if_splits)
  with n show ?thesis unfolding hdr_def by blast
qed

lemma loop_headers:
  assumes len: "\<forall>cs n. n \<le> 16385 \<longrightarrow> encrypt_output_length ops cs n < 65536"
  shows "prepare_loop ops side ty data pt_offset T cs initial [] = Inr (out, cs', i') \<Longrightarrow>
     pt_offset + T = length data \<Longrightarrow>
     i' = False \<and>
     (\<exists>hs. hs \<noteq> []
        \<and> map header_version hs = versions_from (side = CLIENT \<and> initial) (length hs)
        \<and> (\<forall>rest. wire_headers (out @ rest) = map_option ((@) hs) (wire_headers rest)))"
proof (induction T arbitrary: pt_offset cs initial out cs' i' rule: less_induct)
  case (less T)
  define p where "p = min T 16384"
  define v :: u16 where "v = (if side = CLIENT \<and> initial then 0x0301 else 0x0303)"
  have p: "p \<le> 16384" "pt_offset + p \<le> length data"
    using less.prems(2) by (simp_all add: p_def)
  from less.prems(1) obtain rec1 cs1 where
    emit: "emit_record ops side ty data pt_offset p cs initial [] = Inr (rec1, cs1)"
    by (subst (asm) prepare_loop.simps) (auto simp: p_def split: sum.splits)
  from emit_record_shape [OF len emit p] obtain t n body where
    rec1: "rec1 = wire_header t v (of_nat n) @ body" and lb: "length body = n" and n: "n < 65536"
    unfolding v_def by blast
  have wf: "wire_headers (rec1 @ rest) = map_option ((#) (wire_header t v (of_nat n))) (wire_headers rest)"
    for rest
    using wire_headers_frame [OF lb n, of t v rest] by (simp add: rec1)
  show ?case
  proof (cases "T > 16384")
    case False
    then have pT: "p = T" by (simp add: p_def)
    from less.prems(1) False emit have out: "out = rec1" and i: "i' = False"
      by (simp_all add: prepare_loop_single pT)
    have "map header_version [wire_header t v (of_nat n)] = versions_from (side = CLIENT \<and> initial) (length [wire_header t v (of_nat n)])"
      by (simp add: header_version_wire_header versions_from_def v_def)
    moreover have "\<forall>rest. wire_headers (out @ rest)
        = map_option ((@) [wire_header t v (of_nat n)]) (wire_headers rest)"
      by (simp add: out wf map_option_append_Cons map_option_append_Nil)
    ultimately show ?thesis using i by blast
  next
    case True
    then have pM: "p = 16384" by (simp add: p_def)
    have lt: "T - 16384 < T" using True by simp
    have off: "pt_offset + 16384 + (T - 16384) = length data"
      using less.prems(2) True by simp
    from less.prems(1) obtain out2 where
      lp2: "prepare_loop ops side ty data (pt_offset + 16384) (T - 16384) cs1 False []
              = Inr (out2, cs', i')"
      and out: "out = rec1 @ out2"
      unfolding prepare_loop_step [OF True emit [unfolded pM]]
      by (auto split: sum.splits)
    from less.IH [OF lt lp2 off] obtain hs2 where i: "i' = False" and ne2: "hs2 \<noteq> []"
      and v2: "map header_version hs2 = versions_from False (length hs2)"
      and w2: "\<And>rest. wire_headers (out2 @ rest) = map_option ((@) hs2) (wire_headers rest)"
      by auto
    let ?hs = "wire_header t v (of_nat n) # hs2"
    have "map header_version ?hs = versions_from (side = CLIENT \<and> initial) (length ?hs)"
      by (simp add: header_version_wire_header versions_from_Suc v2 v_def)
    moreover have "\<forall>rest. wire_headers (out @ rest) = map_option ((@) ?hs) (wire_headers rest)"
      by (simp add: out wf w2 map_option_append_Cons)
    ultimately show ?thesis using i by blast
  qed
qed

lemma prepare_records_headers:
  assumes len: "\<forall>cs n. n \<le> 16385 \<longrightarrow> encrypt_output_length ops cs n < 65536"
    and run: "prepare_records ops ty data cs rl = Inr (out, cs', rl')"
  shows "rl' = rl\<lparr>m_initial_record := False\<rparr> \<and>
     (\<exists>hs. hs \<noteq> []
        \<and> map header_version hs = versions_from (m_side rl = CLIENT \<and> m_initial_record rl) (length hs)
        \<and> (\<forall>rest. wire_headers (out @ rest) = map_option ((@) hs) (wire_headers rest)))"
proof -
  from run obtain r where
    lp: "prepare_loop ops (m_side rl) ty data 0 (length data) cs (m_initial_record rl) [] = Inr r"
    and out: "out = fst r" and rl': "rl' = rl\<lparr>m_initial_record := snd (snd r)\<rparr>"
    by (auto simp: prepare_records_def Let_def split: if_splits sum.splits)
  have lp': "prepare_loop ops (m_side rl) ty data 0 (length data) cs (m_initial_record rl) []
      = Inr (out, fst (snd r), snd (snd r))"
    by (simp add: lp out)
  from loop_headers [OF len lp'] rl' show ?thesis by simp
qed

lemma prepare_call_headers:
  assumes len: "\<forall>cs n. n \<le> 16385 \<longrightarrow> encrypt_output_length ops cs n < 65536"
    and run: "prepare_call ops rl call = Inr (out, cs', rl')"
  shows "rl' = rl\<lparr>m_initial_record := False\<rparr> \<and>
     (\<exists>hs. hs \<noteq> []
        \<and> map header_version hs = versions_from (m_side rl = CLIENT \<and> m_initial_record rl) (length hs)
        \<and> (\<forall>rest. wire_headers (out @ rest) = map_option ((@) hs) (wire_headers rest)))"
proof (cases call)
  case (Prepare_Records ty data cs)
  with run show ?thesis using prepare_records_headers [OF len] by simp
next
  case Prepare_Dummy_CCS
  with run have "prepare_records ops CHANGE_CIPHER_SPEC [1] None rl = Inr (out, cs', rl')"
    by (simp add: prepare_dummy_ccs_record_def split: if_splits)
  then show ?thesis by (rule prepare_records_headers [OF len])
qed

lemma prepare_seq_headers:
  assumes len: "\<forall>cs n. n \<le> 16385 \<longrightarrow> encrypt_output_length ops cs n < 65536"
  shows "prepare_seq ops rl calls = Inr (wire, rl') \<Longrightarrow>
     \<exists>hs. (calls \<noteq> [] \<longrightarrow> hs \<noteq> [])
        \<and> map header_version hs = versions_from (m_side rl = CLIENT \<and> m_initial_record rl) (length hs)
        \<and> (\<forall>rest. wire_headers (wire @ rest) = map_option ((@) hs) (wire_headers rest))"
proof (induction calls arbitrary: rl wire rl')
  case Nil
  then have "wire = []" by simp
  then have "map header_version [] = versions_from (m_side rl = CLIENT \<and> m_initial_record rl) (length ([] :: u8 list list))
      \<and> (\<forall>rest. wire_headers (wire @ rest) = map_option ((@) []) (wire_headers rest))"
    by (simp add: versions_from_def map_option_append_Nil)
  then show ?case by blast
next
  case (Cons call calls)
  from Cons.prems obtain out1 cs1 rl1 wire2 where
    c1: "prepare_call ops rl call = Inr (out1, cs1, rl1)"
    and c2: "prepare_seq ops rl1 calls = Inr (wire2, rl')"
    and wire: "wire = out1 @ wire2"
    by (auto split: sum.splits)
  from prepare_call_headers [OF len c1] obtain hs1 where
    rl1: "rl1 = rl\<lparr>m_initial_record := False\<rparr>" and ne1: "hs1 \<noteq> []"
    and v1: "map header_version hs1 = versions_from (m_side rl = CLIENT \<and> m_initial_record rl) (length hs1)"
    and w1: "\<And>rest. wire_headers (out1 @ rest) = map_option ((@) hs1) (wire_headers rest)"
    by blast
  from Cons.IH [OF c2] obtain hs2 where
    v2: "map header_version hs2 = versions_from False (length hs2)"
    and w2: "\<And>rest. wire_headers (wire2 @ rest) = map_option ((@) hs2) (wire_headers rest)"
    by (auto simp: rl1)
  have "map header_version (hs1 @ hs2)
      = versions_from (m_side rl = CLIENT \<and> m_initial_record rl) (length (hs1 @ hs2))"
    using ne1 by (simp add: v1 v2 versions_from_append)
  moreover have "\<forall>rest. wire_headers (wire @ rest) = map_option ((@) (hs1 @ hs2)) (wire_headers rest)"
    by (simp add: wire w1 w2 map_option_append_append)
  ultimately show ?case using ne1 by blast
qed

text \<open>
  When every call returns: on a client-side record layer that has written nothing yet, a
  sequence of \<open>prepare_records\<close> and \<open>prepare_dummy_ccs_record\<close> calls writes a
  byte stream that splits into records; the first record carries legacy version
  \<open>0x0301\<close> and every later one \<open>0x0303\<close>. The only assumption on the cipher state
  is that a ciphertext length fits the 16-bit length field.
\<close>

lemma returning_calls_legacy_versions:
  assumes side: "m_side rl = CLIENT" and init: "m_initial_record rl"
    and len: "\<forall>cs n. n \<le> 16385 \<longrightarrow> encrypt_output_length ops cs n < 65536"
    and run: "prepare_seq ops rl calls = Inr (wire, rl')" and ne: "calls \<noteq> []"
  shows "\<exists>hs. wire_headers wire = Some hs \<and> hs \<noteq> []
            \<and> map header_version hs = 0x0301 # replicate (length hs - 1) 0x0303"
proof -
  from prepare_seq_headers [OF len run] ne side init obtain hs where
    hs: "hs \<noteq> []" and v: "map header_version hs = versions_from True (length hs)"
    and w: "\<And>rest. wire_headers (wire @ rest) = map_option ((@) hs) (wire_headers rest)"
    by auto
  from w [of "[]"] have "wire_headers wire = Some hs" by (simp add: wire_headers_Nil)
  moreover from hs v have "map header_version hs = 0x0301 # replicate (length hs - 1) 0x0303"
    by (simp add: versions_from_True)
  ultimately show ?thesis using hs by auto
qed


lemma returning_calls_legacy_versions_example:
  "prepare_seq tagging_cipher (Record_Layer_new CLIENT)
     [Prepare_Records HANDSHAKE [1, 2] None, Prepare_Dummy_CCS,
      Prepare_Records APPLICATION_DATA [9] (Some 0)]
     = Inr ([22, 3, 1, 0, 2, 1, 2] @ [20, 3, 3, 0, 1, 1] @ [23, 3, 3, 0, 18, 9, 23] @ replicate 16 0,
            \<lparr>m_side = CLIENT, m_initial_record = False, m_read_buffer = []\<rparr>)
   \<and> (\<exists>hs. wire_headers ([22, 3, 1, 0, 2, 1, 2] @ [20, 3, 3, 0, 1, 1]
                 @ [23, 3, 3, 0, 18, 9, 23] @ replicate 16 0) = Some hs
          \<and> hs \<noteq> [] \<and> map header_version hs = 0x0301 # replicate (length hs - 1) 0x0303)"
proof -
  have run: "prepare_seq tagging_cipher (Record_Layer_new CLIENT)
     [Prepare_Records HANDSHAKE [1, 2] None, Prepare_Dummy_CCS,
      Prepare_Records APPLICATION_DATA [9] (Some 0)]
     = Inr ([22, 3, 1, 0, 2, 1, 2] @ [20, 3, 3, 0, 1, 1] @ [23, 3, 3, 0, 18, 9, 23] @ replicate 16 0,
            \<lparr>m_side = CLIENT, m_initial_record = False, m_read_buffer = []\<rparr>)"
    by (simp add: prepare_records_def prepare_dummy_ccs_record_def Record_Layer_new_def
        verify_change_cipher_spec_def prepare_loop_single emit_record_def
        TLSPlaintext_Header_build_def output_length_def tagging_cipher_def
        get_byte_0_def get_byte_1_def Let_def)
  have len: "\<forall>cs n. n \<le> 16385 \<longrightarrow> encrypt_output_length tagging_cipher cs n < 65536"
    by (simp add: tagging_cipher_def)
  from returning_calls_legacy_versions [OF _ _ len run] run show ?thesis
    by (simp add: Record_Layer_new_def)
qed

text \<open>
  The object after a call that returns is the one \<open>prepare_records_object\<close> gives, and
  for a sequence of returning calls \<open>prepare_seq_emitted\<close> is the byte stream of
  \<open>prepare_seq\<close>.
\<close>

lemma prepare_loop_flag:
  "prepare_loop ops side ty data pt_offset to_process cs initial acc = Inr r \<Longrightarrow>
   snd (snd r) = False"
proof (induction ops side ty data pt_offset to_process cs initial acc
    rule: prepare_loop.induct)
  case (1 ops side ty data pt_offset to_process cs initial acc)
  show ?case
  proof (cases "emit_record ops side ty data pt_offset (min to_process 16384) cs initial acc")
    case (Inl e)
    with "1.prems" show ?thesis by (subst (asm) prepare_loop.simps) simp
  next
    case (Inr x)
    show ?thesis
    proof (cases "to_process - min to_process 16384 > 0")
      case True
      with Inr "1.prems"
      have "prepare_loop ops side ty data (pt_offset + min to_process 16384)
              (to_process - min to_process 16384) (snd x) False (fst x) = Inr r"
        by (subst (asm) prepare_loop.simps) (auto simp: min_def split: if_splits)
      from "1.IH" [OF Inr True this] show ?thesis .
    next
      case False
      with Inr "1.prems" show ?thesis by (subst (asm) prepare_loop.simps) auto
    qed
  qed
qed

lemma prepare_records_object_returned:
  assumes "prepare_records ops ty data cipher_state rl = Inr (out, cs', rl')"
  shows "rl' = prepare_records_object ty data cipher_state rl"
  using assms
  by (auto simp: prepare_records_def prepare_records_object_def Let_def
      dest!: prepare_loop_flag split: if_splits sum.splits)

lemma prepare_call_object_returned:
  assumes "prepare_call ops rl c = Inr (out, cs', rl')"
  shows "rl' = prepare_call_object rl c"
proof (cases c)
  case (Prepare_Records ty data cipher_state)
  with assms show ?thesis by (simp add: prepare_records_object_returned)
next
  case Prepare_Dummy_CCS
  with assms show ?thesis
    by (auto simp: prepare_dummy_ccs_record_def prepare_dummy_ccs_record_object_def
        prepare_records_def prepare_records_object_def Let_def
        dest!: prepare_loop_flag split: if_splits sum.splits)
qed

lemma prepare_seq_emitted_returned:
  "prepare_seq ops rl calls = Inr (wire, rl') \<Longrightarrow> prepare_seq_emitted ops rl calls = wire"
proof (induction calls arbitrary: rl wire)
  case Nil
  then show ?case by simp
next
  case (Cons c calls)
  from Cons.prems obtain out cs1 rl1 rest where
    c: "prepare_call ops rl c = Inr (out, cs1, rl1)"
    and r: "prepare_seq ops rl1 calls = Inr (rest, rl')" and w: "wire = out @ rest"
    by (auto split: sum.splits)
  from prepare_call_object_returned [OF c] Cons.IH [OF r] c w show ?case by simp
qed





section \<open>Properties of the client driver\<close>

lemma and_then_Inl [simp]: "and_then (Inl e) f = Inl e"
  by (simp add: and_then_def)

lemma and_then_Inr [simp]: "and_then (Inr x) f = f x"
  by (simp add: and_then_def)

lemma throw_if_simps [simp]:
  "throw_if True e = Inl e" "throw_if False e = Inr ()"
  by (simp_all add: throw_if_def)

lemma check_extensions_offered_eq:
  "check_extensions_offered types offered =
     (if list_ex (\<lambda>t. t \<noteq> TLSEXT_COOKIE \<and> t \<notin> set offered) types
      then Inl (TLS_Exception UNSUPPORTED_EXTENSION) else Inr ())"
  by (induction types) (auto simp: count_list_0_iff)

lemma process_handshake_msg_Server_Hello_13:
  "SERVER_HELLO \<in> set (m_transitions st) \<Longrightarrow>
   process_handshake_msg env (Msg_Server_Hello_13 sh) st =
     handle_Server_Hello_13 env sh
       (st\<lparr>m_handshake_state := (m_handshake_state st)\<lparr>hs_server_hello := Some sh\<rparr>\<rparr>)"
  by (simp add: process_handshake_msg_def confirm_transition_to_def Let_def)

lemma process_handshake_msg_Hello_Retry_Request:
  "HELLO_RETRY_REQUEST \<in> set (m_transitions st) \<Longrightarrow>
   process_handshake_msg env (Msg_Hello_Retry_Request hrr) st =
     handle_Hello_Retry_Request env hrr
       (st\<lparr>m_handshake_state := (m_handshake_state st)\<lparr>hs_hello_retry_request := Some hrr\<rparr>\<rparr>)"
  by (simp add: process_handshake_msg_def confirm_transition_to_def Let_def)

lemma process_handshake_msg_Finished_13:
  "FINISHED \<in> set (m_transitions st) \<Longrightarrow>
   process_handshake_msg env (Msg_Finished_13 fin) st =
     handle_Finished_13 env fin
       (st\<lparr>m_handshake_state := (m_handshake_state st)\<lparr>hs_server_finished := Some fin\<rparr>\<rparr>)"
  by (simp add: process_handshake_msg_def confirm_transition_to_def Let_def)

lemma process_handshake_msg_unexpected:
  "m_transitions st = [] \<Longrightarrow>
   process_handshake_msg env message st = Inl (TLS_Exception UNEXPECTED_MESSAGE)"
  by (simp add: process_handshake_msg_def confirm_transition_to_def Let_def)

lemma example_client_constructed:
  "Client_Impl_13_new stub_collaborators TLS_V13 example_client_hello = Inr example_client"
  by (simp add: Client_Impl_13_new_def BOTAN_ASSERT_NOMSG_def set_expected_next_def
      send_handshake_message_def log_call_def transcript_update_def Transcript_Hash_State_new_def
      example_client_def stub_collaborators_def)

lemma replicate_8: "replicate 8 x = [x, x, x, x, x, x, x, x]"
  by (simp add: numeral_eq_Suc)

lemma no_downgrade_signal:
  "sh_random sh = replicate 32 0 \<Longrightarrow> random_signals_downgrade sh = None"
  by (simp add: random_signals_downgrade_def replicate_8 DOWNGRADE_TLS11_def DOWNGRADE_TLS12_def)

subsection \<open>Downgrade sentinel in a TLS 1.3 ServerHello\<close>

text \<open>
  Claim C1, as amended. When the last 8 bytes of the server random of a TLS 1.3
  ServerHello equal the TLS 1.1 downgrade sentinel, handling fails with a
  \<open>protocol_version\<close> alert; when they equal the TLS 1.2 sentinel, it fails with
  \<open>Not_Implemented\<close>, which carries no alert.
\<close>

theorem server_hello_13_downgrade_sentinel:
  assumes ch: "hs_client_hello (m_handshake_state st) = Some ch"
  shows "(drop (length (sh_random sh) - 8) (sh_random sh) = DOWNGRADE_TLS11 \<longrightarrow>
            handle_Server_Hello_13 env sh st = Inl (TLS_Exception PROTOCOL_VERSION)
          \<and> (SERVER_HELLO \<in> set (m_transitions st) \<longrightarrow>
               process_handshake_msg env (Msg_Server_Hello_13 sh) st
                 = Inl (TLS_Exception PROTOCOL_VERSION)))
       \<and> (drop (length (sh_random sh) - 8) (sh_random sh) = DOWNGRADE_TLS12 \<longrightarrow>
            handle_Server_Hello_13 env sh st = Inl Not_Implemented
          \<and> (SERVER_HELLO \<in> set (m_transitions st) \<longrightarrow>
               process_handshake_msg env (Msg_Server_Hello_13 sh) st = Inl Not_Implemented))"
proof -
  have neq: "DOWNGRADE_TLS12 \<noteq> DOWNGRADE_TLS11"
    by (simp add: DOWNGRADE_TLS11_def DOWNGRADE_TLS12_def)
  have h: "handle_Server_Hello_13 env sh st' =
      (if drop (length (sh_random sh) - 8) (sh_random sh) = DOWNGRADE_TLS11
       then Inl (TLS_Exception PROTOCOL_VERSION) else Inl Not_Implemented)"
    if "hs_client_hello (m_handshake_state st') = Some ch"
      "drop (length (sh_random sh) - 8) (sh_random sh) = DOWNGRADE_TLS11
       \<or> drop (length (sh_random sh) - 8) (sh_random sh) = DOWNGRADE_TLS12"
    for st' :: "'a Client_Impl_13"
    using that neq
    by (auto simp: handle_Server_Hello_13_def get_slot_def random_signals_downgrade_def Let_def)
  show ?thesis
    using ch neq by (auto simp: h process_handshake_msg_Server_Hello_13)
qed

theorem server_hello_13_downgrade_sentinel_witness:
  "process_handshake_msg stub_collaborators
     (Msg_Server_Hello_13 (example_server_hello\<lparr>sh_random := replicate 24 0 @ DOWNGRADE_TLS11\<rparr>))
     example_client = Inl (TLS_Exception PROTOCOL_VERSION)
   \<and> process_handshake_msg stub_collaborators
     (Msg_Server_Hello_13 (example_server_hello\<lparr>sh_random := replicate 24 0 @ DOWNGRADE_TLS12\<rparr>))
     example_client = Inl Not_Implemented"
  using
    server_hello_13_downgrade_sentinel [of example_client example_client_hello
      "example_server_hello\<lparr>sh_random := replicate 24 0 @ DOWNGRADE_TLS11\<rparr>" stub_collaborators]
    server_hello_13_downgrade_sentinel [of example_client example_client_hello
      "example_server_hello\<lparr>sh_random := replicate 24 0 @ DOWNGRADE_TLS12\<rparr>" stub_collaborators]
  by (simp add: example_client_def DOWNGRADE_TLS11_def DOWNGRADE_TLS12_def)

text \<open>
  The claim as stated fails: on a ServerHello whose random ends in the TLS 1.2 sentinel
  the handler raises \<open>Not_Implemented\<close>, and on the TLS 1.1 sentinel it raises
  \<open>protocol_version\<close>; neither is \<open>illegal_parameter\<close>.
\<close>

theorem server_hello_13_downgrade_sentinel_not_illegal_parameter:
  "handle_Server_Hello_13 stub_collaborators
     (example_server_hello\<lparr>sh_random := replicate 24 0 @ DOWNGRADE_TLS12\<rparr>) example_client
     = Inl Not_Implemented
   \<and> handle_Server_Hello_13 stub_collaborators
     (example_server_hello\<lparr>sh_random := replicate 24 0 @ DOWNGRADE_TLS11\<rparr>) example_client
     = Inl (TLS_Exception PROTOCOL_VERSION)"
  by (simp add: handle_Server_Hello_13_def get_slot_def random_signals_downgrade_def
      example_client_def DOWNGRADE_TLS11_def DOWNGRADE_TLS12_def Let_def)

subsection \<open>Validation of ServerHello and HelloRetryRequest\<close>

lemma validate_server_hello_ish_eq:
  assumes sv: "get_Supported_Versions (ch_extensions ch) = Some versions"
  shows "validate_server_hello_ish ch sh =
          (if ch_session_id ch \<noteq> sh_session_id sh
              \<or> sh_ciphersuite sh \<notin> set (ch_ciphersuites ch)
              \<or> sh_selected_version sh \<notin> set versions
           then Inl (TLS_Exception ILLEGAL_PARAMETER)
           else if \<exists>t \<in> set (extension_types (sh_extensions sh)).
                     t \<noteq> TLSEXT_COOKIE \<and> t \<notin> set (extension_types (ch_extensions ch))
           then Inl (TLS_Exception UNSUPPORTED_EXTENSION)
           else Inr ())"
  by (auto simp: validate_server_hello_ish_def sv offered_suite_def supports_def
      check_extensions_offered_eq throw_if_def list_ex_iff)

text \<open>
  Claim C6, as amended. With the ClientHello stored (it offers \<open>supported_versions\<close>), for a
  ServerHello that carries no downgrade signal and for a HelloRetryRequest: a session
  id echo that differs from the one sent, a cipher suite that was not offered or a
  selected version that was not offered makes the validation, the handler and
  \<open>process_handshake_msg\<close> fail with \<open>illegal_parameter\<close>; when these three checks
  pass, an extension type that was not offered and is not \<open>cookie\<close> makes them fail
  with \<open>unsupported_extension\<close>; when all extension types were offered or are
  \<open>cookie\<close>, the validation passes.
\<close>

theorem server_hello_ish_validation:
  assumes ch: "hs_client_hello (m_handshake_state st) = Some ch"
    and sv: "get_Supported_Versions (ch_extensions ch) = Some versions"
  shows "(ch_session_id ch \<noteq> sh_session_id sh
            \<or> sh_ciphersuite sh \<notin> set (ch_ciphersuites ch)
            \<or> sh_selected_version sh \<notin> set versions \<longrightarrow>
          validate_server_hello_ish ch sh = Inl (TLS_Exception ILLEGAL_PARAMETER)
        \<and> handle_Hello_Retry_Request env sh st = Inl (TLS_Exception ILLEGAL_PARAMETER)
        \<and> (HELLO_RETRY_REQUEST \<in> set (m_transitions st) \<longrightarrow>
             process_handshake_msg env (Msg_Hello_Retry_Request sh) st
               = Inl (TLS_Exception ILLEGAL_PARAMETER))
        \<and> (random_signals_downgrade sh = None \<longrightarrow>
             handle_Server_Hello_13 env sh st = Inl (TLS_Exception ILLEGAL_PARAMETER)
           \<and> (SERVER_HELLO \<in> set (m_transitions st) \<longrightarrow>
                process_handshake_msg env (Msg_Server_Hello_13 sh) st
                  = Inl (TLS_Exception ILLEGAL_PARAMETER))))
       \<and> (ch_session_id ch = sh_session_id sh
            \<and> sh_ciphersuite sh \<in> set (ch_ciphersuites ch)
            \<and> sh_selected_version sh \<in> set versions
            \<and> (\<exists>t \<in> set (extension_types (sh_extensions sh)).
                  t \<noteq> TLSEXT_COOKIE \<and> t \<notin> set (extension_types (ch_extensions ch))) \<longrightarrow>
          validate_server_hello_ish ch sh = Inl (TLS_Exception UNSUPPORTED_EXTENSION)
        \<and> handle_Hello_Retry_Request env sh st = Inl (TLS_Exception UNSUPPORTED_EXTENSION)
        \<and> (HELLO_RETRY_REQUEST \<in> set (m_transitions st) \<longrightarrow>
             process_handshake_msg env (Msg_Hello_Retry_Request sh) st
               = Inl (TLS_Exception UNSUPPORTED_EXTENSION))
        \<and> (random_signals_downgrade sh = None \<longrightarrow>
             handle_Server_Hello_13 env sh st = Inl (TLS_Exception UNSUPPORTED_EXTENSION)
           \<and> (SERVER_HELLO \<in> set (m_transitions st) \<longrightarrow>
                process_handshake_msg env (Msg_Server_Hello_13 sh) st
                  = Inl (TLS_Exception UNSUPPORTED_EXTENSION))))
       \<and> (ch_session_id ch = sh_session_id sh
            \<and> sh_ciphersuite sh \<in> set (ch_ciphersuites ch)
            \<and> sh_selected_version sh \<in> set versions
            \<and> (\<forall>t \<in> set (extension_types (sh_extensions sh)).
                  t = TLSEXT_COOKIE \<or> t \<in> set (extension_types (ch_extensions ch))) \<longrightarrow>
          validate_server_hello_ish ch sh = Inr ())"
proof -
  note v = validate_server_hello_ish_eq [OF sv, of sh]
  have hrr: "handle_Hello_Retry_Request env sh st' = Inl e"
    if "validate_server_hello_ish ch sh = Inl e" "hs_client_hello (m_handshake_state st') = Some ch"
    for e and st' :: "'a Client_Impl_13"
    using that by (simp add: handle_Hello_Retry_Request_def get_slot_def)
  have sh13: "handle_Server_Hello_13 env sh st' = Inl e"
    if "validate_server_hello_ish ch sh = Inl e" "hs_client_hello (m_handshake_state st') = Some ch"
      "random_signals_downgrade sh = None" for e and st' :: "'a Client_Impl_13"
    using that by (simp add: handle_Server_Hello_13_def get_slot_def)
  have all: "validate_server_hello_ish ch sh = Inl e \<Longrightarrow>
        handle_Hello_Retry_Request env sh st = Inl e
        \<and> (HELLO_RETRY_REQUEST \<in> set (m_transitions st) \<longrightarrow>
             process_handshake_msg env (Msg_Hello_Retry_Request sh) st = Inl e)
        \<and> (random_signals_downgrade sh = None \<longrightarrow>
             handle_Server_Hello_13 env sh st = Inl e
           \<and> (SERVER_HELLO \<in> set (m_transitions st) \<longrightarrow>
                process_handshake_msg env (Msg_Server_Hello_13 sh) st = Inl e))" for e
    using ch
    by (simp add: hrr sh13 process_handshake_msg_Hello_Retry_Request
        process_handshake_msg_Server_Hello_13)
  have a: "ch_session_id ch \<noteq> sh_session_id sh
            \<or> sh_ciphersuite sh \<notin> set (ch_ciphersuites ch)
            \<or> sh_selected_version sh \<notin> set versions \<Longrightarrow>
          validate_server_hello_ish ch sh = Inl (TLS_Exception ILLEGAL_PARAMETER)"
    unfolding v by simp
  have b: "ch_session_id ch = sh_session_id sh
            \<and> sh_ciphersuite sh \<in> set (ch_ciphersuites ch)
            \<and> sh_selected_version sh \<in> set versions
            \<and> (\<exists>t \<in> set (extension_types (sh_extensions sh)).
                  t \<noteq> TLSEXT_COOKIE \<and> t \<notin> set (extension_types (ch_extensions ch))) \<Longrightarrow>
          validate_server_hello_ish ch sh = Inl (TLS_Exception UNSUPPORTED_EXTENSION)"
    unfolding v by simp
  have c: "ch_session_id ch = sh_session_id sh
            \<and> sh_ciphersuite sh \<in> set (ch_ciphersuites ch)
            \<and> sh_selected_version sh \<in> set versions
            \<and> (\<forall>t \<in> set (extension_types (sh_extensions sh)).
                  t = TLSEXT_COOKIE \<or> t \<in> set (extension_types (ch_extensions ch))) \<Longrightarrow>
          validate_server_hello_ish ch sh = Inr ()"
    unfolding v by auto
  show ?thesis
    using a b c all [of "TLS_Exception ILLEGAL_PARAMETER"] all [of "TLS_Exception UNSUPPORTED_EXTENSION"]
    by blast
qed

theorem server_hello_ish_validation_witness:
  "process_handshake_msg stub_collaborators
     (Msg_Server_Hello_13 (example_server_hello\<lparr>sh_session_id := [7, 8]\<rparr>)) example_client
     = Inl (TLS_Exception ILLEGAL_PARAMETER)
   \<and> process_handshake_msg stub_collaborators
     (Msg_Hello_Retry_Request (example_server_hello\<lparr>sh_ciphersuite := 0x1302\<rparr>)) example_client
     = Inl (TLS_Exception ILLEGAL_PARAMETER)
   \<and> process_handshake_msg stub_collaborators
     (Msg_Server_Hello_13 (example_server_hello\<lparr>sh_extensions :=
        [Supported_Versions [TLS_V13], Key_Share [3, 4], Unknown_Extension 99 []]\<rparr>)) example_client
     = Inl (TLS_Exception UNSUPPORTED_EXTENSION)
   \<and> validate_server_hello_ish example_client_hello
        (example_server_hello\<lparr>sh_extensions := [Supported_Versions [TLS_V13], Cookie [5]]\<rparr>)
     = Inr ()"
  using
    server_hello_ish_validation [of example_client example_client_hello "[TLS_V13]"
      "example_server_hello\<lparr>sh_session_id := [7, 8]\<rparr>" stub_collaborators]
    server_hello_ish_validation [of example_client example_client_hello "[TLS_V13]"
      "example_server_hello\<lparr>sh_ciphersuite := 0x1302\<rparr>" stub_collaborators]
    server_hello_ish_validation [of example_client example_client_hello "[TLS_V13]"
      "example_server_hello\<lparr>sh_extensions :=
        [Supported_Versions [TLS_V13], Key_Share [3, 4], Unknown_Extension 99 []]\<rparr>" stub_collaborators]
    server_hello_ish_validation [of example_client example_client_hello "[TLS_V13]"
      "example_server_hello\<lparr>sh_extensions := [Supported_Versions [TLS_V13], Cookie [5]]\<rparr>"
      stub_collaborators]
  by (simp add: example_client_def example_client_hello_def example_server_hello_def
      extension_types_def no_downgrade_signal)

text \<open>
  The claim as stated, for every ServerHello, fails: the handler looks at the downgrade
  sentinel before it validates. A ServerHello whose session id echo differs from the one
  sent and whose random ends in the TLS 1.2 sentinel ends in \<open>Not_Implemented\<close>, not
  in \<open>illegal_parameter\<close>.
\<close>

theorem server_hello_ish_validation_after_sentinel:
  "ch_session_id example_client_hello
     \<noteq> sh_session_id (example_server_hello
          \<lparr>sh_session_id := [7, 8], sh_random := replicate 24 0 @ DOWNGRADE_TLS12\<rparr>)
   \<and> handle_Server_Hello_13 stub_collaborators
       (example_server_hello
          \<lparr>sh_session_id := [7, 8], sh_random := replicate 24 0 @ DOWNGRADE_TLS12\<rparr>)
       example_client = Inl Not_Implemented
   \<and> process_handshake_msg stub_collaborators
       (Msg_Server_Hello_13 (example_server_hello
          \<lparr>sh_session_id := [7, 8], sh_random := replicate 24 0 @ DOWNGRADE_TLS12\<rparr>))
       example_client = Inl Not_Implemented"
  by (simp add: handle_Server_Hello_13_def get_slot_def random_signals_downgrade_def
      process_handshake_msg_def confirm_transition_to_def
      example_client_def example_client_hello_def example_server_hello_def
      DOWNGRADE_TLS11_def DOWNGRADE_TLS12_def Let_def)

subsection \<open>Server Finished\<close>

lemma and_thenE:
  assumes "and_then m f = Inr y"
  obtains x where "m = Inr x" "f x = Inr y"
  using assms by (cases m) simp_all

lemma activation_simps [simp]:
  "c \<noteq> Tls_Session_Activated \<Longrightarrow> activation (log_call c st) = activation st"
  "activation (set_expected_next expected st) = activation st"
  "activation (st\<lparr>m_transcript_hash := th\<rparr>) = activation st"
  "activation (st\<lparr>m_cipher_state := cs\<rparr>) = activation st"
  "activation (st\<lparr>m_transitions := tr\<rparr>) = activation st"
  "activation (send_dummy_change_cipher_spec st) = activation st"
  "activation (send_handshake_message msg st) = activation st"
  "activation (send_post_handshake_message pmsg st) = activation st"
  by (simp_all add: activation_def log_call_def set_expected_next_def
      send_dummy_change_cipher_spec_def send_handshake_message_def
      send_post_handshake_message_def)

lemma activation_Server_Hello_13:
  "handle_Server_Hello_13 env sh st = Inr st' \<Longrightarrow> activation st' = activation st"
  unfolding handle_Server_Hello_13_def Let_def
  by (auto elim!: and_thenE split: option.splits)

lemma activation_Server_Hello_12:
  "handle_Server_Hello_12 env sh st = Inr st' \<Longrightarrow> activation st' = activation st"
  unfolding handle_Server_Hello_12_def Let_def
  by (auto elim!: and_thenE split: option.splits)

lemma activation_Hello_Retry_Request:
  "handle_Hello_Retry_Request env sh st = Inr st' \<Longrightarrow> activation st' = activation st"
  unfolding handle_Hello_Retry_Request_def Let_def
  by (auto elim!: and_thenE split: option.splits simp: activation_def
      send_dummy_change_cipher_spec_def send_handshake_message_def log_call_def set_expected_next_def)

lemma activation_Encrypted_Extensions:
  "handle_Encrypted_Extensions env ee st = Inr st' \<Longrightarrow> activation st' = activation st"
  unfolding handle_Encrypted_Extensions_def Let_def by auto

lemma activation_Certificate_13:
  "handle_Certificate_13 env cert st = Inr st' \<Longrightarrow> activation st' = activation st"
  unfolding handle_Certificate_13_def Let_def
  by (auto elim!: and_thenE split: option.splits)

lemma activation_Certificate_Verify_13:
  "handle_Certificate_Verify_13 env cv st = Inr st' \<Longrightarrow> activation st' = activation st"
  unfolding handle_Certificate_Verify_13_def Let_def
  by (auto elim!: and_thenE split: list.splits)

lemma activation_Key_Update:
  "handle_Key_Update env ku st = Inr st' \<Longrightarrow> activation st' = activation st"
  unfolding handle_Key_Update_def Let_def
  by (auto elim!: and_thenE split: if_splits)


lemma activated_once_activation:
  "activated_once st =
     (if fst (activation st) = None then snd (activation st) = 0
      else snd (activation st) = 1 \<and> m_transitions st = [])"
  by (simp add: activated_once_def activation_def)

lemma activation_received:
  "activation (st\<lparr>m_handshake_state := received message (m_handshake_state st)\<rparr>) = activation st"
  by (cases message) (simp_all add: activation_def)

lemma activated_once_process_handshake_msg:
  assumes inv: "activated_once st"
    and step: "process_handshake_msg env message st = Inr st'"
  shows "activated_once st'"
proof -
  let ?st1 = "st\<lparr>m_handshake_state := received message (m_handshake_state st)\<rparr>"
  have exp: "handshake_type message \<in> set (m_transitions st)"
    using step
    by (auto simp: process_handshake_msg_def Let_def confirm_transition_to_def throw_if_def
        elim!: and_thenE split: if_splits)
  then have a0: "activation st = (None, 0)"
    using inv by (auto simp: activated_once_activation prod_eq_iff split: if_splits)
  then have a1: "activation ?st1 = (None, 0)" by (simp add: activation_received)
  have conf: "confirm_transition_to (handshake_type message) ?st1 = Inr ()"
    using exp by (simp add: confirm_transition_to_def)
  show ?thesis
  proof (cases message)
    case (Msg_Finished_13 m)
    with step exp have h: "handle_Finished_13 env m ?st1 = Inr st'"
      by (simp add: process_handshake_msg_def Let_def confirm_transition_to_def)
    have cnt: "count_list (m_calls st) Tls_Session_Activated = 0"
      using a0 by (simp add: activation_def)
    from h cnt show ?thesis
      unfolding handle_Finished_13_def Let_def
      by (auto elim!: and_thenE simp: activated_once_def send_dummy_change_cipher_spec_def
          send_handshake_message_def log_call_def set_expected_next_def split: if_splits)
  next
    case (Msg_Client_Hello_13 m)
    with step exp show ?thesis
      by (simp add: process_handshake_msg_def Let_def confirm_transition_to_def)
  next
    case (Msg_Server_Hello_13 m)
    with step exp have "handle_Server_Hello_13 env m ?st1 = Inr st'"
      by (simp add: process_handshake_msg_def Let_def confirm_transition_to_def)
    from activation_Server_Hello_13 [OF this] a1 show ?thesis
      by (simp add: activated_once_activation)
  next
    case (Msg_Server_Hello_12 m)
    with step exp have "handle_Server_Hello_12 env m ?st1 = Inr st'"
      by (simp add: process_handshake_msg_def Let_def confirm_transition_to_def)
    from activation_Server_Hello_12 [OF this] a1 show ?thesis
      by (simp add: activated_once_activation)
  next
    case (Msg_Hello_Retry_Request m)
    with step exp have "handle_Hello_Retry_Request env m ?st1 = Inr st'"
      by (simp add: process_handshake_msg_def Let_def confirm_transition_to_def)
    from activation_Hello_Retry_Request [OF this] a1 show ?thesis
      by (simp add: activated_once_activation)
  next
    case (Msg_Encrypted_Extensions m)
    with step exp have "handle_Encrypted_Extensions env m ?st1 = Inr st'"
      by (simp add: process_handshake_msg_def Let_def confirm_transition_to_def)
    from activation_Encrypted_Extensions [OF this] a1 show ?thesis
      by (simp add: activated_once_activation)
  next
    case (Msg_Certificate_13 m)
    with step exp have "handle_Certificate_13 env m ?st1 = Inr st'"
      by (simp add: process_handshake_msg_def Let_def confirm_transition_to_def)
    from activation_Certificate_13 [OF this] a1 show ?thesis
      by (simp add: activated_once_activation)
  next
    case (Msg_Certificate_Verify_13 m)
    with step exp have "handle_Certificate_Verify_13 env m ?st1 = Inr st'"
      by (simp add: process_handshake_msg_def Let_def confirm_transition_to_def)
    from activation_Certificate_Verify_13 [OF this] a1 show ?thesis
      by (simp add: activated_once_activation)
  qed
qed

lemma transitions_Key_Update:
  "handle_Key_Update env ku st = Inr st' \<Longrightarrow> m_transitions st' = m_transitions st"
  unfolding handle_Key_Update_def Let_def
  by (auto elim!: and_thenE split: if_splits
      simp: log_call_def send_post_handshake_message_def)

lemma activated_once_step:
  assumes inv: "activated_once st" and step: "step env ev st = Inr st'"
  shows "activated_once st'"
proof (cases ev)
  case (In_Handshake message)
  let ?st0 = "st\<lparr>m_transcript_hash := transcript_update message (m_transcript_hash st)\<rparr>"
  have "activated_once ?st0" using inv by (simp add: activated_once_def)
  moreover have "process_handshake_msg env message ?st0 = Inr st'"
    using step In_Handshake by (simp add: receive_handshake_message_def)
  ultimately show ?thesis by (rule activated_once_process_handshake_msg)
next
  case (In_Post_Handshake message)
  show ?thesis
  proof (cases message)
    case Msg_New_Session_Ticket_13
    with step In_Post_Handshake inv show ?thesis
      by (auto simp: process_post_handshake_msg_def handle_New_Session_Ticket_13_def
          elim!: and_thenE)
  next
    case (Msg_Key_Update ku)
    with step In_Post_Handshake have h: "handle_Key_Update env ku st = Inr st'"
      by (auto simp: process_post_handshake_msg_def elim!: and_thenE)
    from activation_Key_Update [OF h] transitions_Key_Update [OF h] inv show ?thesis
      by (simp add: activated_once_activation)
  qed
next
  case In_Dummy_Change_Cipher_Spec
  with step inv show ?thesis
    by (auto simp: process_dummy_change_cipher_spec_def split: if_splits)
qed

lemma activated_once_run:
  "activated_once st \<Longrightarrow> run env st evs = Inr st' \<Longrightarrow> activated_once st'"
proof (induction evs arbitrary: st)
  case Nil
  then show ?case by simp
next
  case (Cons ev evs)
  from Cons.prems(2) obtain st1 where s: "step env ev st = Inr st1"
    and r: "run env st1 evs = Inr st'"
    by (auto split: sum.splits)
  from activated_once_step [OF Cons.prems(1) s] r show ?case by (rule Cons.IH)
qed

lemma activated_once_new:
  "Client_Impl_13_new env offer_version ch = Inr st \<Longrightarrow> activated_once st"
  by (auto simp: Client_Impl_13_new_def activated_once_def Handshake_State_13_new_def
      set_expected_next_def send_handshake_message_def log_call_def
      elim!: and_thenE)

lemma session_activated_at_most_once:
  assumes "Client_Impl_13_new env offer_version ch = Inr st0" and "run env st0 evs = Inr st"
  shows "count_list (m_calls st) Tls_Session_Activated
           = (if hs_client_finished (m_handshake_state st) = None then 0 else 1)"
  using activated_once_run [OF activated_once_new [OF assms(1)] assms(2)]
  by (simp add: activated_once_def)

text \<open>
  Claim C4. When the server Finished arrives (it enters the transcript hash, then the
  driver processes it), with Finished expected and a cipher state installed: the MAC is
  verified against the transcript hash as it stood before the Finished, and a mismatch
  fails with \<open>decrypt_error\<close>. Otherwise the client sends its Finished (after a dummy
  change\_cipher\_spec in compatibility mode), computed under the cipher state before
  any advance, then calls \<open>advance_with_server_finished\<close> on the transcript up to the
  server Finished and \<open>advance_with_client_finished\<close> on the transcript including the
  client Finished, and last \<open>tls_session_activated\<close>: once in this call, and no
  further handshake message is accepted afterwards. In every run of the client from its
  construction, \<open>tls_session_activated\<close> has been called exactly once when the client
  Finished has been sent, and never before.
\<close>

theorem server_finished_handling:
  assumes exp: "FINISHED \<in> set (m_transitions st)" and cs: "m_cipher_state st = Some cs"
  shows "receive_handshake_message env (Msg_Finished_13 fin) st =
    (let before = th_current (m_transcript_hash st);
         with_server_finished = before @ [Hashed (Msg_Finished_13 fin)];
         client_finished = \<lparr>verify_data = finished_mac env cs with_server_finished\<rparr>;
         with_client_finished = with_server_finished @ [Hashed (Msg_Finished_13 client_finished)]
     in if \<not> verify_peer_finished_mac env cs before (verify_data fin)
        then Inl (TLS_Exception DECRYPT_ERROR)
        else Inr (st\<lparr>m_handshake_state := (m_handshake_state st)
                        \<lparr>hs_server_finished := Some fin, hs_client_finished := Some client_finished\<rparr>,
                      m_transitions := [],
                      m_transcript_hash := (m_transcript_hash st)
                        \<lparr>th_current := with_client_finished, th_previous := with_server_finished\<rparr>,
                      m_cipher_state := Some (advance_with_client_finished env with_client_finished
                                               (advance_with_server_finished env with_server_finished cs)),
                      m_calls := m_calls st
                        @ (if tls_13_middlebox_compatibility_mode env
                           then [Send_Dummy_Change_Cipher_Spec] else [])
                        @ [Send_Handshake_Message (Msg_Finished_13 client_finished),
                           Advance_With_Server_Finished with_server_finished,
                           Advance_With_Client_Finished with_client_finished,
                           Tls_Session_Activated]\<rparr>))
   \<and> (\<forall>st'. receive_handshake_message env (Msg_Finished_13 fin) st = Inr st' \<longrightarrow>
         count_list (m_calls st') Tls_Session_Activated
           = count_list (m_calls st) Tls_Session_Activated + 1
       \<and> (\<forall>message. receive_handshake_message env message st'
                       = Inl (TLS_Exception UNEXPECTED_MESSAGE)))
   \<and> (\<forall>offer_version ch st0 evs st1.
         Client_Impl_13_new env offer_version ch = Inr st0 \<and> run env st0 evs = Inr st1 \<longrightarrow>
         count_list (m_calls st1) Tls_Session_Activated
           = (if hs_client_finished (m_handshake_state st1) = None then 0 else 1))"
proof -
  let ?before = "th_current (m_transcript_hash st)"
  let ?wsf = "?before @ [Hashed (Msg_Finished_13 fin)]"
  let ?cf = "\<lparr>verify_data = finished_mac env cs ?wsf\<rparr>"
  let ?wcf = "?wsf @ [Hashed (Msg_Finished_13 ?cf)]"
  let ?st' = "st\<lparr>m_handshake_state := (m_handshake_state st)
                        \<lparr>hs_server_finished := Some fin, hs_client_finished := Some ?cf\<rparr>,
                      m_transitions := [],
                      m_transcript_hash := (m_transcript_hash st)
                        \<lparr>th_current := ?wcf, th_previous := ?wsf\<rparr>,
                      m_cipher_state := Some (advance_with_client_finished env ?wcf
                                               (advance_with_server_finished env ?wsf cs)),
                      m_calls := m_calls st
                        @ (if tls_13_middlebox_compatibility_mode env
                           then [Send_Dummy_Change_Cipher_Spec] else [])
                        @ [Send_Handshake_Message (Msg_Finished_13 ?cf),
                           Advance_With_Server_Finished ?wsf,
                           Advance_With_Client_Finished ?wcf,
                           Tls_Session_Activated]\<rparr>"
  have eq: "receive_handshake_message env (Msg_Finished_13 fin) st =
      (if \<not> verify_peer_finished_mac env cs ?before (verify_data fin)
       then Inl (TLS_Exception DECRYPT_ERROR) else Inr ?st')"
    using exp cs
    by (simp add: receive_handshake_message_def process_handshake_msg_Finished_13
        handle_Finished_13_def deref_def throw_if_def transcript_update_def
        send_dummy_change_cipher_spec_def send_handshake_message_def log_call_def
        set_expected_next_def Let_def)
  have cnt: "count_list (m_calls ?st') Tls_Session_Activated
      = count_list (m_calls st) Tls_Session_Activated + 1"
    by simp
  have rej: "receive_handshake_message env message ?st' = Inl (TLS_Exception UNEXPECTED_MESSAGE)"
    for message
    by (simp add: receive_handshake_message_def process_handshake_msg_unexpected)
  have once: "count_list (m_calls st1) Tls_Session_Activated
           = (if hs_client_finished (m_handshake_state st1) = None then 0 else 1)"
    if "Client_Impl_13_new env offer_version ch = Inr st0" "run env st0 evs = Inr st1"
    for offer_version ch st0 evs st1
    using that by (rule session_activated_at_most_once)
  have main: "receive_handshake_message env (Msg_Finished_13 fin) st =
    (let before = th_current (m_transcript_hash st);
         with_server_finished = before @ [Hashed (Msg_Finished_13 fin)];
         client_finished = \<lparr>verify_data = finished_mac env cs with_server_finished\<rparr>;
         with_client_finished = with_server_finished @ [Hashed (Msg_Finished_13 client_finished)]
     in if \<not> verify_peer_finished_mac env cs before (verify_data fin)
        then Inl (TLS_Exception DECRYPT_ERROR)
        else Inr (st\<lparr>m_handshake_state := (m_handshake_state st)
                        \<lparr>hs_server_finished := Some fin, hs_client_finished := Some client_finished\<rparr>,
                      m_transitions := [],
                      m_transcript_hash := (m_transcript_hash st)
                        \<lparr>th_current := with_client_finished, th_previous := with_server_finished\<rparr>,
                      m_cipher_state := Some (advance_with_client_finished env with_client_finished
                                               (advance_with_server_finished env with_server_finished cs)),
                      m_calls := m_calls st
                        @ (if tls_13_middlebox_compatibility_mode env
                           then [Send_Dummy_Change_Cipher_Spec] else [])
                        @ [Send_Handshake_Message (Msg_Finished_13 client_finished),
                           Advance_With_Server_Finished with_server_finished,
                           Advance_With_Client_Finished with_client_finished,
                           Tls_Session_Activated]\<rparr>))
   \<and> (\<forall>st'. receive_handshake_message env (Msg_Finished_13 fin) st = Inr st' \<longrightarrow>
         count_list (m_calls st') Tls_Session_Activated
           = count_list (m_calls st) Tls_Session_Activated + 1
       \<and> (\<forall>message. receive_handshake_message env message st'
                       = Inl (TLS_Exception UNEXPECTED_MESSAGE)))"
    unfolding eq Let_def using cnt rej by (auto split: if_splits)
  from main once show ?thesis by blast
qed

lemma full_handshake_run:
  "\<exists>st1. run stub_collaborators example_client full_handshake = Inr st1
         \<and> hs_client_finished (m_handshake_state st1) \<noteq> None"
  by (simp add: full_handshake_def example_client_def example_server_hello_def
      example_client_hello_def stub_collaborators_def receive_handshake_message_def
      process_handshake_msg_def confirm_transition_to_def transcript_update_def
      Handshake_State_13_new_def handle_Server_Hello_13_def handle_Encrypted_Extensions_def
      handle_Certificate_13_def handle_Certificate_Verify_13_def handle_Finished_13_def
      handle_Key_Update_def process_post_handshake_msg_def process_dummy_change_cipher_spec_def
      get_slot_def deref_def validate_server_hello_ish_def offered_suite_def supports_def
      extension_types_def no_downgrade_signal has_hello_retry_request_def has_client_hello_def
      has_server_finished_def has_client_finished_def handshake_finished_def
      handshake_state_finished_def BOTAN_STATE_CHECK_def transcript_set_algorithm_def
      log_call_def set_expected_next_def send_dummy_change_cipher_spec_def
      send_handshake_message_def send_post_handshake_message_def Let_def)

theorem server_finished_handling_witness:
  "(receive_handshake_message stub_collaborators (Msg_Finished_13 \<lparr>verify_data = [9]\<rparr>)
     (example_client\<lparr>m_transitions := [FINISHED], m_cipher_state := Some 1\<rparr>)
     = Inl (TLS_Exception DECRYPT_ERROR)
   \<and> (\<exists>st'. receive_handshake_message stub_collaborators (Msg_Finished_13 \<lparr>verify_data = [1, 1]\<rparr>)
               (example_client\<lparr>m_transitions := [FINISHED], m_cipher_state := Some 1\<rparr>) = Inr st'
          \<and> m_cipher_state st' = Some 4
          \<and> m_calls st' =
              [Send_Handshake_Message (Msg_Client_Hello_13 example_client_hello),
               Send_Dummy_Change_Cipher_Spec,
               Send_Handshake_Message (Msg_Finished_13 \<lparr>verify_data = [1, 2]\<rparr>),
               Advance_With_Server_Finished
                 [Hashed (Msg_Client_Hello_13 example_client_hello),
                  Hashed (Msg_Finished_13 \<lparr>verify_data = [1, 1]\<rparr>)],
               Advance_With_Client_Finished
                 [Hashed (Msg_Client_Hello_13 example_client_hello),
                  Hashed (Msg_Finished_13 \<lparr>verify_data = [1, 1]\<rparr>),
                  Hashed (Msg_Finished_13 \<lparr>verify_data = [1, 2]\<rparr>)],
               Tls_Session_Activated]
          \<and> receive_handshake_message stub_collaborators
               (Msg_Finished_13 \<lparr>verify_data = [1, 1]\<rparr>) st'
               = Inl (TLS_Exception UNEXPECTED_MESSAGE)))
   \<and> (\<exists>st1. run stub_collaborators example_client full_handshake = Inr st1
          \<and> count_list (m_calls st1) Tls_Session_Activated = 1)"
proof -
  let ?st = "example_client\<lparr>m_transitions := [FINISHED], m_cipher_state := Some 1\<rparr>"
  have exp: "FINISHED \<in> set (m_transitions ?st)" and cs: "m_cipher_state ?st = Some 1"
    by simp_all
  note bad = server_finished_handling [OF exp cs, of stub_collaborators "\<lparr>verify_data = [9]\<rparr>"]
  note good = server_finished_handling [OF exp cs, of stub_collaborators "\<lparr>verify_data = [1, 1]\<rparr>"]
  have first: "receive_handshake_message stub_collaborators (Msg_Finished_13 \<lparr>verify_data = [9]\<rparr>)
     (example_client\<lparr>m_transitions := [FINISHED], m_cipher_state := Some 1\<rparr>)
     = Inl (TLS_Exception DECRYPT_ERROR)
   \<and> (\<exists>st'. receive_handshake_message stub_collaborators (Msg_Finished_13 \<lparr>verify_data = [1, 1]\<rparr>)
               (example_client\<lparr>m_transitions := [FINISHED], m_cipher_state := Some 1\<rparr>) = Inr st'
          \<and> m_cipher_state st' = Some 4
          \<and> m_calls st' =
              [Send_Handshake_Message (Msg_Client_Hello_13 example_client_hello),
               Send_Dummy_Change_Cipher_Spec,
               Send_Handshake_Message (Msg_Finished_13 \<lparr>verify_data = [1, 2]\<rparr>),
               Advance_With_Server_Finished
                 [Hashed (Msg_Client_Hello_13 example_client_hello),
                  Hashed (Msg_Finished_13 \<lparr>verify_data = [1, 1]\<rparr>)],
               Advance_With_Client_Finished
                 [Hashed (Msg_Client_Hello_13 example_client_hello),
                  Hashed (Msg_Finished_13 \<lparr>verify_data = [1, 1]\<rparr>),
                  Hashed (Msg_Finished_13 \<lparr>verify_data = [1, 2]\<rparr>)],
               Tls_Session_Activated]
          \<and> receive_handshake_message stub_collaborators
               (Msg_Finished_13 \<lparr>verify_data = [1, 1]\<rparr>) st'
               = Inl (TLS_Exception UNEXPECTED_MESSAGE))"
    using bad good by (simp add: example_client_def stub_collaborators_def Let_def)
  from full_handshake_run obtain st1 where
    r: "run stub_collaborators example_client full_handshake = Inr st1"
    and cf: "hs_client_finished (m_handshake_state st1) \<noteq> None"
    by blast
  from good example_client_constructed r
  have "count_list (m_calls st1) Tls_Session_Activated
      = (if hs_client_finished (m_handshake_state st1) = None then 0 else 1)"
    by blast
  with cf r have "\<exists>st1. run stub_collaborators example_client full_handshake = Inr st1
          \<and> count_list (m_calls st1) Tls_Session_Activated = 1"
    by auto
  with first show ?thesis by blast
qed

subsection \<open>Dummy change\_cipher\_spec\<close>

text \<open>
  No handler touches the server Finished slot or empties the ClientHello slot; only
  \<open>process_handshake_msg\<close> fills the former, when it stores a server Finished.
\<close>

lemma window_simps [simp]:
  "window (log_call c st) = window st"
  "window (set_expected_next expected st) = window st"
  "window (st\<lparr>m_transcript_hash := th\<rparr>) = window st"
  "window (st\<lparr>m_cipher_state := cs\<rparr>) = window st"
  "window (st\<lparr>m_transitions := tr\<rparr>) = window st"
  "window (send_dummy_change_cipher_spec st) = window st"
  "window (send_handshake_message msg st) = window st"
  "window (send_post_handshake_message pmsg st) = window st"
  by (simp_all add: window_def log_call_def set_expected_next_def
      send_dummy_change_cipher_spec_def send_handshake_message_def
      send_post_handshake_message_def)

lemma get_slot_Inr: "get_slot slot = Inr x \<Longrightarrow> slot = Some x"
  by (cases slot) (simp_all add: get_slot_def)

lemma window_Server_Hello_13:
  "handle_Server_Hello_13 env sh st = Inr st' \<Longrightarrow> window st' = window st"
  unfolding handle_Server_Hello_13_def Let_def
  by (auto elim!: and_thenE split: option.splits)

lemma window_Server_Hello_12:
  "handle_Server_Hello_12 env sh st = Inr st' \<Longrightarrow> window st' = window st"
  unfolding handle_Server_Hello_12_def Let_def
  by (auto elim!: and_thenE split: option.splits)

lemma window_Hello_Retry_Request:
  "handle_Hello_Retry_Request env sh st = Inr st' \<Longrightarrow> window st' = window st"
  unfolding handle_Hello_Retry_Request_def Let_def
  by (auto elim!: and_thenE dest!: get_slot_Inr split: option.splits simp: window_def
      send_dummy_change_cipher_spec_def send_handshake_message_def log_call_def set_expected_next_def)

lemma window_Encrypted_Extensions:
  "handle_Encrypted_Extensions env ee st = Inr st' \<Longrightarrow> window st' = window st"
  unfolding handle_Encrypted_Extensions_def Let_def by auto

lemma window_Certificate_13:
  "handle_Certificate_13 env cert st = Inr st' \<Longrightarrow> window st' = window st"
  unfolding handle_Certificate_13_def Let_def
  by (auto elim!: and_thenE split: option.splits)

lemma window_Certificate_Verify_13:
  "handle_Certificate_Verify_13 env cv st = Inr st' \<Longrightarrow> window st' = window st"
  unfolding handle_Certificate_Verify_13_def Let_def
  by (auto elim!: and_thenE split: list.splits)

lemma window_Finished_13:
  "handle_Finished_13 env fin st = Inr st' \<Longrightarrow> window st' = window st"
  unfolding handle_Finished_13_def Let_def
  by (auto elim!: and_thenE split: if_splits simp: window_def
      send_dummy_change_cipher_spec_def send_handshake_message_def log_call_def set_expected_next_def)

lemma window_Key_Update:
  "handle_Key_Update env ku st = Inr st' \<Longrightarrow> window st' = window st"
  unfolding handle_Key_Update_def Let_def
  by (auto elim!: and_thenE split: if_splits)

lemma window_received:
  "window (st\<lparr>m_handshake_state := received message (m_handshake_state st)\<rparr>) =
     (fst (window st),
      case message of Msg_Finished_13 fin \<Rightarrow> Some fin | _ \<Rightarrow> snd (window st))"
  by (cases message) (simp_all add: window_def)

lemma window_process_handshake_msg:
  assumes step: "process_handshake_msg env message st = Inr st'"
  shows "window st' =
     (fst (window st),
      case message of Msg_Finished_13 fin \<Rightarrow> Some fin | _ \<Rightarrow> snd (window st))"
proof -
  let ?st1 = "st\<lparr>m_handshake_state := received message (m_handshake_state st)\<rparr>"
  have exp: "handshake_type message \<in> set (m_transitions st)"
    using step
    by (auto simp: process_handshake_msg_def Let_def confirm_transition_to_def throw_if_def
        elim!: and_thenE split: if_splits)
  have "window st' = window ?st1"
  proof (cases message)
    case (Msg_Finished_13 m)
    with step exp have "handle_Finished_13 env m ?st1 = Inr st'"
      by (simp add: process_handshake_msg_def Let_def confirm_transition_to_def)
    then show ?thesis by (rule window_Finished_13)
  next
    case (Msg_Client_Hello_13 m)
    with step exp show ?thesis
      by (simp add: process_handshake_msg_def Let_def confirm_transition_to_def)
  next
    case (Msg_Server_Hello_13 m)
    with step exp have "handle_Server_Hello_13 env m ?st1 = Inr st'"
      by (simp add: process_handshake_msg_def Let_def confirm_transition_to_def)
    then show ?thesis by (rule window_Server_Hello_13)
  next
    case (Msg_Server_Hello_12 m)
    with step exp have "handle_Server_Hello_12 env m ?st1 = Inr st'"
      by (simp add: process_handshake_msg_def Let_def confirm_transition_to_def)
    then show ?thesis by (rule window_Server_Hello_12)
  next
    case (Msg_Hello_Retry_Request m)
    with step exp have "handle_Hello_Retry_Request env m ?st1 = Inr st'"
      by (simp add: process_handshake_msg_def Let_def confirm_transition_to_def)
    then show ?thesis by (rule window_Hello_Retry_Request)
  next
    case (Msg_Encrypted_Extensions m)
    with step exp have "handle_Encrypted_Extensions env m ?st1 = Inr st'"
      by (simp add: process_handshake_msg_def Let_def confirm_transition_to_def)
    then show ?thesis by (rule window_Encrypted_Extensions)
  next
    case (Msg_Certificate_13 m)
    with step exp have "handle_Certificate_13 env m ?st1 = Inr st'"
      by (simp add: process_handshake_msg_def Let_def confirm_transition_to_def)
    then show ?thesis by (rule window_Certificate_13)
  next
    case (Msg_Certificate_Verify_13 m)
    with step exp have "handle_Certificate_Verify_13 env m ?st1 = Inr st'"
      by (simp add: process_handshake_msg_def Let_def confirm_transition_to_def)
    then show ?thesis by (rule window_Certificate_Verify_13)
  qed
  then show ?thesis by (simp add: window_received)
qed

lemma window_step:
  assumes step: "step env ev st = Inr st'"
  shows "fst (window st') = fst (window st)
       \<and> (snd (window st') \<noteq> None \<longleftrightarrow> snd (window st) \<noteq> None \<or> is_server_finished ev)"
proof (cases ev)
  case (In_Handshake message)
  let ?st0 = "st\<lparr>m_transcript_hash := transcript_update message (m_transcript_hash st)\<rparr>"
  have "process_handshake_msg env message ?st0 = Inr st'"
    using step In_Handshake by (simp add: receive_handshake_message_def)
  from window_process_handshake_msg [OF this] In_Handshake show ?thesis
    by (cases message) simp_all
next
  case (In_Post_Handshake message)
  show ?thesis
  proof (cases message)
    case Msg_New_Session_Ticket_13
    with step In_Post_Handshake show ?thesis
      by (auto simp: process_post_handshake_msg_def handle_New_Session_Ticket_13_def
          elim!: and_thenE)
  next
    case (Msg_Key_Update ku)
    with step In_Post_Handshake have h: "handle_Key_Update env ku st = Inr st'"
      by (auto simp: process_post_handshake_msg_def elim!: and_thenE)
    from window_Key_Update [OF h] In_Post_Handshake show ?thesis by simp
  qed
next
  case In_Dummy_Change_Cipher_Spec
  with step show ?thesis
    by (auto simp: process_dummy_change_cipher_spec_def split: if_splits)
qed

lemma window_run:
  "run env st evs = Inr st' \<Longrightarrow>
   fst (window st') = fst (window st)
   \<and> (snd (window st') \<noteq> None \<longleftrightarrow> snd (window st) \<noteq> None \<or> list_ex is_server_finished evs)"
proof (induction evs arbitrary: st)
  case Nil
  then show ?case by simp
next
  case (Cons ev evs)
  from Cons.prems obtain st1 where s: "step env ev st = Inr st1"
    and r: "run env st1 evs = Inr st'"
    by (auto split: sum.splits)
  from window_step [OF s] Cons.IH [OF r] show ?case by auto
qed

lemma window_new:
  "Client_Impl_13_new env offer_version ch = Inr st \<Longrightarrow> window st = (True, None)"
  by (auto simp: Client_Impl_13_new_def window_def Handshake_State_13_new_def
      set_expected_next_def send_handshake_message_def log_call_def
      elim!: and_thenE)

text \<open>
  Claim C9. A dummy change\_cipher\_spec is dropped, leaving the whole client state
  (and so the transcript hash) as it was, exactly when the ClientHello slot is filled and
  the server Finished slot is empty; in every other state its receipt fails with
  \<open>unexpected_message\<close>. Over runs: the constructor sends the first ClientHello, and
  after any sequence of events that the client processed without an exception, a dummy
  change\_cipher\_spec is dropped exactly when no server Finished was among them, and
  fails with \<open>unexpected_message\<close> otherwise.
\<close>

theorem process_dummy_change_cipher_spec_window:
  "process_dummy_change_cipher_spec st =
     (if hs_client_hello (m_handshake_state st) \<noteq> None
         \<and> hs_server_finished (m_handshake_state st) = None
      then Inr st
      else Inl (TLS_Exception UNEXPECTED_MESSAGE))
   \<and> (Client_Impl_13_new env offer_version client_hello = Inr st0 \<and> run env st0 evs = Inr st1
        \<longrightarrow> process_dummy_change_cipher_spec st1 =
             (if list_ex is_server_finished evs
              then Inl (TLS_Exception UNEXPECTED_MESSAGE)
              else Inr st1))"
proof -
  have "process_dummy_change_cipher_spec st1 =
          (if list_ex is_server_finished evs
           then Inl (TLS_Exception UNEXPECTED_MESSAGE)
           else Inr st1)"
    if new: "Client_Impl_13_new env offer_version client_hello = Inr st0"
      and r: "run env st0 evs = Inr st1"
    using window_run [OF r] window_new [OF new]
    by (auto simp: process_dummy_change_cipher_spec_def has_client_hello_def
        has_server_finished_def window_def)
  then show ?thesis
    by (simp add: process_dummy_change_cipher_spec_def has_client_hello_def
        has_server_finished_def)
qed

theorem process_dummy_change_cipher_spec_window_witness:
  "process_dummy_change_cipher_spec example_client = Inr example_client
   \<and> process_dummy_change_cipher_spec
       (example_client\<lparr>m_handshake_state := (m_handshake_state example_client)
          \<lparr>hs_server_finished := Some \<lparr>verify_data = [1]\<rparr>\<rparr>\<rparr>)
     = Inl (TLS_Exception UNEXPECTED_MESSAGE)
   \<and> process_dummy_change_cipher_spec
       (example_client\<lparr>m_handshake_state := Handshake_State_13_new\<rparr>)
     = Inl (TLS_Exception UNEXPECTED_MESSAGE)
   \<and> (\<exists>st1. run stub_collaborators example_client full_handshake = Inr st1
          \<and> process_dummy_change_cipher_spec st1 = Inl (TLS_Exception UNEXPECTED_MESSAGE))"
proof -
  have slots: "process_dummy_change_cipher_spec example_client = Inr example_client
   \<and> process_dummy_change_cipher_spec
       (example_client\<lparr>m_handshake_state := (m_handshake_state example_client)
          \<lparr>hs_server_finished := Some \<lparr>verify_data = [1]\<rparr>\<rparr>\<rparr>)
     = Inl (TLS_Exception UNEXPECTED_MESSAGE)
   \<and> process_dummy_change_cipher_spec
       (example_client\<lparr>m_handshake_state := Handshake_State_13_new\<rparr>)
     = Inl (TLS_Exception UNEXPECTED_MESSAGE)"
    using
      process_dummy_change_cipher_spec_window [of example_client, THEN conjunct1]
      process_dummy_change_cipher_spec_window [of "example_client\<lparr>m_handshake_state :=
         (m_handshake_state example_client)\<lparr>hs_server_finished := Some \<lparr>verify_data = [1]\<rparr>\<rparr>\<rparr>",
         THEN conjunct1]
      process_dummy_change_cipher_spec_window [of "example_client\<lparr>m_handshake_state :=
         Handshake_State_13_new\<rparr>", THEN conjunct1]
    by (simp add: example_client_def Handshake_State_13_new_def)
  from full_handshake_run obtain st1 where
    r: "run stub_collaborators example_client full_handshake = Inr st1"
    by blast
  have "list_ex is_server_finished full_handshake"
    by (simp add: full_handshake_def)
  with process_dummy_change_cipher_spec_window [of st1 stub_collaborators TLS_V13 example_client_hello example_client
      full_handshake st1, THEN conjunct2] example_client_constructed r
  have "process_dummy_change_cipher_spec st1 = Inl (TLS_Exception UNEXPECTED_MESSAGE)"
    by simp
  with r slots show ?thesis by blast
qed

subsection \<open>KeyUpdate\<close>

text \<open>
  Claim C10. After the handshake, a KeyUpdate makes the client call
  \<open>update_read_keys\<close>; if and only if the message expects reciprocation
  (\<open>update_requested\<close>) it then sends a KeyUpdate that expects none and calls
  \<open>update_write_keys\<close>, in this order, and otherwise nothing further happens.
\<close>

theorem key_update_reciprocation:
  assumes fin: "handshake_finished st" and cs: "m_cipher_state st = Some cs"
  shows "process_post_handshake_msg env (Msg_Key_Update key_update) st =
     Inr (st\<lparr>m_cipher_state :=
               Some (if expects_reciprocation key_update
                     then update_write_keys env (update_read_keys env cs)
                     else update_read_keys env cs),
             m_calls := m_calls st @ [Update_Read_Keys] @
               (if expects_reciprocation key_update
                then [Send_Post_Handshake_Message (Msg_Key_Update \<lparr>expects_reciprocation = False\<rparr>),
                      Update_Write_Keys]
                else [])\<rparr>)"
  using fin cs
  by (simp add: process_post_handshake_msg_def BOTAN_STATE_CHECK_def handle_Key_Update_def
      deref_def log_call_def send_post_handshake_message_def Let_def)

theorem key_update_reciprocation_witness:
  "process_post_handshake_msg stub_collaborators (Msg_Key_Update \<lparr>expects_reciprocation = True\<rparr>)
     (example_client\<lparr>m_handshake_state := (m_handshake_state example_client)
         \<lparr>hs_server_finished := Some \<lparr>verify_data = [1]\<rparr>,
          hs_client_finished := Some \<lparr>verify_data = [2]\<rparr>\<rparr>,
        m_cipher_state := Some 4, m_calls := []\<rparr>)
   = Inr (example_client\<lparr>m_handshake_state := (m_handshake_state example_client)
         \<lparr>hs_server_finished := Some \<lparr>verify_data = [1]\<rparr>,
          hs_client_finished := Some \<lparr>verify_data = [2]\<rparr>\<rparr>,
        m_cipher_state := Some 114,
        m_calls := [Update_Read_Keys,
                    Send_Post_Handshake_Message (Msg_Key_Update \<lparr>expects_reciprocation = False\<rparr>),
                    Update_Write_Keys]\<rparr>)
   \<and> process_post_handshake_msg stub_collaborators (Msg_Key_Update \<lparr>expects_reciprocation = False\<rparr>)
     (example_client\<lparr>m_handshake_state := (m_handshake_state example_client)
         \<lparr>hs_server_finished := Some \<lparr>verify_data = [1]\<rparr>,
          hs_client_finished := Some \<lparr>verify_data = [2]\<rparr>\<rparr>,
        m_cipher_state := Some 4, m_calls := []\<rparr>)
   = Inr (example_client\<lparr>m_handshake_state := (m_handshake_state example_client)
         \<lparr>hs_server_finished := Some \<lparr>verify_data = [1]\<rparr>,
          hs_client_finished := Some \<lparr>verify_data = [2]\<rparr>\<rparr>,
        m_cipher_state := Some 14,
        m_calls := [Update_Read_Keys]\<rparr>)"
  using
    key_update_reciprocation [of "example_client\<lparr>m_handshake_state := (m_handshake_state example_client)
         \<lparr>hs_server_finished := Some \<lparr>verify_data = [1]\<rparr>,
          hs_client_finished := Some \<lparr>verify_data = [2]\<rparr>\<rparr>,
        m_cipher_state := Some 4, m_calls := []\<rparr>" 4 stub_collaborators
        "\<lparr>expects_reciprocation = True\<rparr>"]
    key_update_reciprocation [of "example_client\<lparr>m_handshake_state := (m_handshake_state example_client)
         \<lparr>hs_server_finished := Some \<lparr>verify_data = [1]\<rparr>,
          hs_client_finished := Some \<lparr>verify_data = [2]\<rparr>\<rparr>,
        m_cipher_state := Some 4, m_calls := []\<rparr>" 4 stub_collaborators
        "\<lparr>expects_reciprocation = False\<rparr>"]
  by (simp add: handshake_finished_def handshake_state_finished_def has_server_finished_def
      has_client_finished_def example_client_def stub_collaborators_def)

end
